(* ===== verification/Prelude.thy ===== *)
theory Prelude
  imports
    Main
    "HOL-Library.Word"
    "HOL-Library.Signed_Division"
    "HOL-Library.Monad_Syntax"
begin

unbundle bit_operations_syntax

text \<open>
  Shared vocabulary of the development: the machine types of the C code, reads of a
  byte buffer that fail outside it, the little-endian fields of the 802.11 structures,
  linear table search, and the lemma collections the component theories use.

  Conventions.  A C \<open>unsigned\<close> value is a word of its width and wraps.  A C \<open>int\<close> is a
  HOL \<open>int\<close>; the code only ever adds small constants to such values, and a conversion
  from or to an unsigned type is written out (\<open>i32\<close>, \<open>word_of_int\<close>).  An operation whose
  behaviour C leaves undefined (a read outside a buffer, a NULL dereference, an access
  to freed memory, a failing \<open>assert\<close>) or that does not return is \<open>None\<close>.
\<close>

type_synonym u8 = "8 word"
type_synonym u16 = "16 word"
type_synonym u32 = "32 word"
type_synonym u64 = "64 word"
type_synonym bytes = "u8 list"

named_theorems fc_vals \<open>numeric values of the frame control constants\<close>
named_theorems heap_simps \<open>projections of the node heap after an update\<close>

subsection \<open>Options\<close>

lemmas bind_conv = Option.bind_eq_Some_conv Option.bind_eq_None_conv

lemma bind_SomeI: "m = Some x \<Longrightarrow> f x = Some y \<Longrightarrow> m \<bind> f = Some y"
  by simp

definition guard_ub :: "bool \<Rightarrow> unit option" where
  "guard_ub b = (if b then Some () else None)"

lemma guard_ub_Some [simp]: "guard_ub b = Some u \<longleftrightarrow> b"
  by (simp add: guard_ub_def)

lemma guard_ub_None [simp]: "guard_ub b = None \<longleftrightarrow> \<not> b"
  by (simp add: guard_ub_def)

lemma guard_ub_True [simp]: "guard_ub True = Some ()"
  by (simp add: guard_ub_def)

lemma guard_ub_False [simp]: "guard_ub False = None"
  by (simp add: guard_ub_def)

text \<open>A loop over a list whose body may fail.\<close>

fun foldM :: "('a \<Rightarrow> 's \<Rightarrow> 's option) \<Rightarrow> 'a list \<Rightarrow> 's \<Rightarrow> 's option" where
  "foldM f [] st = Some st"
| "foldM f (x # xs) st = f x st \<bind> foldM f xs"

lemma foldM_append: "foldM f (xs @ ys) st = foldM f xs st \<bind> foldM f ys"
  by (induction xs arbitrary: st) (simp_all split: bind_split)

subsection \<open>Machine integers\<close>

definition i32 :: "u32 \<Rightarrow> int" where
  "i32 w = sint w"

definition flag_set :: "'a::len word \<Rightarrow> 'a word \<Rightarrow> bool" where
  "flag_set x m \<longleftrightarrow> x AND m \<noteq> 0"

lemma flag_set_0 [simp]: "\<not> flag_set 0 m"
  by (simp add: flag_set_def)

lemma i32_small: "n < 2 ^ 31 \<Longrightarrow> i32 (word_of_nat n) = int n"
  by (simp add: i32_def signed_of_nat signed_take_bit_int_eq_self)

lemma i32_eq_iff: "i32 a = i32 b \<longleftrightarrow> a = b"
  by (auto simp: i32_def intro: signed_word_eqI)

lemma word_of_int_i32: "word_of_int (i32 a) = a"
  by (simp add: i32_def)

lemma sint_word_of_int_32: "- (2 ^ 31) \<le> k \<Longrightarrow> k < 2 ^ 31 \<Longrightarrow> i32 (word_of_int k) = k"
  by (simp add: i32_def sint_sbintrunc' signed_take_bit_int_eq_self)

subsection \<open>Reads of a byte buffer\<close>

text \<open>
  A buffer is the list of the bytes that may be read from a pointer on; a read at an
  offset behind it is \<open>None\<close>.
\<close>

definition rd :: "'a list \<Rightarrow> nat \<Rightarrow> 'a option" where
  "rd buf i = (if i < length buf then Some (buf ! i) else None)"

definition rd_bytes :: "'a list \<Rightarrow> nat \<Rightarrow> nat \<Rightarrow> 'a list option" where
  "rd_bytes buf i n = (if i + n \<le> length buf then Some (take n (drop i buf)) else None)"

lemma rd_Some: "i < length buf \<Longrightarrow> rd buf i = Some (buf ! i)"
  by (simp add: rd_def)

lemma rd_append [simp]: "i < length xs \<Longrightarrow> rd (xs @ ys) i = rd xs i"
  by (simp add: rd_def nth_append)

lemma rd_append_right: "rd (xs @ ys) (length xs + i) = rd ys i"
  by (simp add: rd_def nth_append)

lemma rd_Nil [simp]: "rd [] i = None"
  by (simp add: rd_def)

lemma rd_Cons_0 [simp]: "rd (x # xs) 0 = Some x"
  by (simp add: rd_def)

lemma rd_Cons_Suc [simp]: "rd (x # xs) (Suc i) = rd xs i"
  by (simp add: rd_def)

lemma rd_Cons_num [simp]: "rd (x # xs) (numeral k) = rd xs (pred_numeral k)"
  by (simp add: numeral_eq_Suc)

lemma rd_drop: "rd (drop k buf) i = rd buf (k + i)"
  by (auto simp: rd_def add.commute)

lemma rd_bytes_0 [simp]: "rd_bytes buf 0 n = (if n \<le> length buf then Some (take n buf) else None)"
  by (simp add: rd_bytes_def)

lemma rd_bytes_Some_iff: "rd_bytes buf i n = Some bs \<longleftrightarrow> i + n \<le> length buf \<and> bs = take n (drop i buf)"
  by (auto simp: rd_bytes_def)

lemma rd_bytes_length: "rd_bytes buf i n = Some bs \<Longrightarrow> length bs = n"
  by (auto simp: rd_bytes_Some_iff)

lemma rd_bytes_exact: "length xs = i \<Longrightarrow> length ys = n \<Longrightarrow> rd_bytes (xs @ ys @ zs) i n = Some ys"
  by (auto simp: rd_bytes_def)

lemma rd_eq_None: "rd buf i = None \<longleftrightarrow> length buf \<le> i"
  by (simp add: rd_def)

lemma rd_bytes_eq_None: "rd_bytes buf i n = None \<longleftrightarrow> length buf < i + n"
  by (simp add: rd_bytes_def)

subsection \<open>Little-endian fields\<close>

text \<open>
  \<open>le16toh\<close>, \<open>le32toh\<close>, \<open>le64toh\<close> of a packed field read the bytes with the least
  significant one first, whatever the host's byte order is; \<open>htole\<dots>\<close> writes them.
\<close>

fun le_dec :: "bytes \<Rightarrow> 'a::len word" where
  "le_dec [] = 0"
| "le_dec (b # bs) = ucast b OR push_bit 8 (le_dec bs)"

fun le_enc :: "nat \<Rightarrow> 'a::len word \<Rightarrow> bytes" where
  "le_enc 0 w = []"
| "le_enc (Suc n) w = ucast w # le_enc n (drop_bit 8 w)"

lemma length_le_enc [simp]: "length (le_enc n w) = n"
  by (induction n arbitrary: w) auto

lemma bit_le_dec: "bit (le_dec (le_enc n w) :: 'a::len word) i \<longleftrightarrow> i < 8 * n \<and> bit (w :: 'a word) i"
proof (induction n arbitrary: w i)
  case 0
  then show ?case by simp
next
  case (Suc n)
  show ?case
  proof (cases "i < 8")
    case True
    then show ?thesis
      by (auto simp: bit_simps Suc dest: bit_imp_le_length)
  next
    case False
    then have "i - 8 < 8 * n \<longleftrightarrow> i < 8 * Suc n" by auto
    then show ?thesis using False
      by (auto simp: bit_simps Suc dest: bit_imp_le_length)
  qed
qed

text \<open>The contract of a fixed-width little-endian field.\<close>

locale le_field =
  fixes enc :: "'a::len word \<Rightarrow> bytes"
    and dec :: "bytes \<Rightarrow> 'a word"
    and width :: nat
  assumes enc_width: "length (enc w) = width"
    and dec_enc: "dec (enc w) = w"
begin

lemma read_back:
  assumes "length pre = i"
  shows "rd_bytes (pre @ enc w @ post) i width = Some (enc w)"
  using assms by (simp add: rd_bytes_exact enc_width)

lemma read_dec:
  assumes "length pre = i"
  shows "map_option dec (rd_bytes (pre @ enc w @ post) i width) = Some w"
  using assms by (simp add: read_back dec_enc)

lemma enc_inj: "enc v = enc w \<Longrightarrow> v = w"
  by (metis dec_enc)

end

definition le16_enc :: "u16 \<Rightarrow> bytes" where "le16_enc w = le_enc 2 w"
definition le32_enc :: "u32 \<Rightarrow> bytes" where "le32_enc w = le_enc 4 w"
definition le64_enc :: "u64 \<Rightarrow> bytes" where "le64_enc w = le_enc 8 w"
definition le16_dec :: "bytes \<Rightarrow> u16" where "le16_dec bs = le_dec bs"
definition le32_dec :: "bytes \<Rightarrow> u32" where "le32_dec bs = le_dec bs"
definition le64_dec :: "bytes \<Rightarrow> u64" where "le64_dec bs = le_dec bs"

interpretation le16: le_field le16_enc le16_dec 2
  by unfold_locales
    (auto simp: le16_enc_def le16_dec_def intro!: bit_word_eqI simp: bit_le_dec)

interpretation le32: le_field le32_enc le32_dec 4
  by unfold_locales
    (auto simp: le32_enc_def le32_dec_def intro!: bit_word_eqI simp: bit_le_dec)

interpretation le64: le_field le64_enc le64_dec 8
  by unfold_locales
    (auto simp: le64_enc_def le64_dec_def intro!: bit_word_eqI simp: bit_le_dec)

definition rd16 :: "bytes \<Rightarrow> nat \<Rightarrow> u16 option" where
  "rd16 buf i = map_option le16_dec (rd_bytes buf i 2)"

definition rd32 :: "bytes \<Rightarrow> nat \<Rightarrow> u32 option" where
  "rd32 buf i = map_option le32_dec (rd_bytes buf i 4)"

definition rd64 :: "bytes \<Rightarrow> nat \<Rightarrow> u64 option" where
  "rd64 buf i = map_option le64_dec (rd_bytes buf i 8)"

lemma rd16_exact: "length pre = i \<Longrightarrow> rd16 (pre @ le16_enc w @ post) i = Some w"
  by (simp add: rd16_def le16.read_dec)

lemma rd32_ex: "i + 4 \<le> length buf \<Longrightarrow> \<exists>w. rd32 buf i = Some w"
  by (simp add: rd32_def rd_bytes_def)

lemma rd64_exact: "length pre = i \<Longrightarrow> rd64 (pre @ le64_enc w @ post) i = Some w"
  by (simp add: rd64_def le64.read_dec)

lemma rd16_eq_None: "rd16 buf i = None \<longleftrightarrow> length buf < i + 2"
  by (simp add: rd16_def rd_bytes_eq_None)

lemma rd64_eq_None: "rd64 buf i = None \<longleftrightarrow> length buf < i + 8"
  by (simp add: rd64_def rd_bytes_eq_None)

lemma rd16_ex: "i + 2 \<le> length buf \<Longrightarrow> \<exists>w. rd16 buf i = Some w"
  by (simp add: rd16_def rd_bytes_def)

lemma rd64_ex: "i + 8 \<le> length buf \<Longrightarrow> \<exists>w. rd64 buf i = Some w"
  by (simp add: rd64_def rd_bytes_def)

subsection \<open>Strings in fixed arrays\<close>

text \<open>Whether \<open>strncmp(a, b, n)\<close> is 0; \<open>None\<close> when it reads behind an array.\<close>

fun strncmp_0 :: "nat \<Rightarrow> bytes \<Rightarrow> bytes \<Rightarrow> bool option" where
  "strncmp_0 0 as bs = Some True"
| "strncmp_0 (Suc n) (a # as) (b # bs) =
    (if a \<noteq> b then Some False else if a = 0 then Some True else strncmp_0 n as bs)"
| "strncmp_0 (Suc n) as bs = None"

text \<open>The \<open>n\<close> bytes that \<open>strncpy(dst, src, n)\<close> writes.\<close>

fun strncpy :: "nat \<Rightarrow> bytes \<Rightarrow> bytes option" where
  "strncpy 0 src = Some []"
| "strncpy (Suc n) [] = None"
| "strncpy (Suc n) (c # src) =
    (if c = 0 then Some (replicate (Suc n) 0) else map_option ((#) c) (strncpy n src))"

text \<open>The bytes of a C string, with the terminating zero.\<close>

definition c_string :: "string \<Rightarrow> bytes" where
  "c_string s = map of_char s @ [0]"

subsection \<open>Linear search in a table\<close>

text \<open>
  The loop \<open>for (i = 0; i < n; i++) if (key(t[i]) == k) return i; return -1;\<close> over the
  first \<open>n\<close> entries of a table.
\<close>

fun find_idx :: "('a \<Rightarrow> bool) \<Rightarrow> 'a list \<Rightarrow> int \<Rightarrow> int" where
  "find_idx P [] i = -1"
| "find_idx P (x # xs) i = (if P x then i else find_idx P xs (i + 1))"

lemma find_idx_cases:
  "0 \<le> i \<Longrightarrow> (find_idx P xs i = -1 \<and> (\<forall>x \<in> set xs. \<not> P x)) \<or>
     (\<exists>j < length xs. find_idx P xs i = i + int j \<and> P (xs ! j) \<and> (\<forall>k < j. \<not> P (xs ! k)))"
proof (induction xs arbitrary: i)
  case Nil
  then show ?case by simp
next
  case (Cons x xs)
  show ?case
  proof (cases "P x")
    case True
    then show ?thesis by (intro disjI2 exI [of _ 0]) simp
  next
    case False
    from Cons.prems have "0 \<le> i + 1" by simp
    from Cons.IH [OF this] show ?thesis
    proof
      assume "find_idx P xs (i + 1) = -1 \<and> (\<forall>x \<in> set xs. \<not> P x)"
      with False show ?thesis by simp
    next
      assume "\<exists>j < length xs. find_idx P xs (i + 1) = i + 1 + int j \<and> P (xs ! j) \<and>
        (\<forall>k < j. \<not> P (xs ! k))"
      then obtain j where "j < length xs" "find_idx P xs (i + 1) = i + 1 + int j" "P (xs ! j)"
        "\<forall>k < j. \<not> P (xs ! k)" by blast
      with False show ?thesis
        by (intro disjI2 exI [of _ "Suc j"]) (auto simp: less_Suc_eq_0_disj)
    qed
  qed
qed

lemma find_idx_hit:
  assumes "find_idx P xs 0 = i" "i \<noteq> -1"
  shows "0 \<le> i \<and> nat i < length xs \<and> P (xs ! nat i) \<and> (\<forall>k < nat i. \<not> P (xs ! k))"
  using find_idx_cases [of 0 P xs] assms by auto

lemma find_idx_miss: "find_idx P xs 0 = -1 \<longleftrightarrow> (\<forall>x \<in> set xs. \<not> P x)"
  using find_idx_cases [of 0 P xs] nth_mem by fastforce

lemma find_idx_ge: "-1 \<le> find_idx P xs 0"
  using find_idx_cases [of 0 P xs] by auto

lemma find_idx_lt: "find_idx P xs 0 < int (length xs)"
  using find_idx_cases [of 0 P xs] by auto


text \<open>
  The contract of such a function as an interface: \<open>idx s k\<close> is the position of the first
  entry with the key \<open>k\<close>, or \<open>-1\<close>.
\<close>

locale keyed_table =
  fixes key :: "'e \<Rightarrow> 'k"
    and entries :: "'s \<Rightarrow> 'e list"
    and idx :: "'s \<Rightarrow> 'k \<Rightarrow> int"
  assumes idx_hit: "idx s k \<noteq> -1 \<Longrightarrow>
      0 \<le> idx s k \<and> nat (idx s k) < length (entries s) \<and> key (entries s ! nat (idx s k)) = k"
    and idx_first: "idx s k \<noteq> -1 \<Longrightarrow> i < nat (idx s k) \<Longrightarrow> key (entries s ! i) \<noteq> k"
    and idx_miss: "idx s k = -1 \<longleftrightarrow> k \<notin> key ` set (entries s)"
begin

lemma idx_range: "-1 \<le> idx s k \<and> idx s k < int (length (entries s))"
  using idx_hit [of s k] by (cases "idx s k = -1") auto

lemma idx_found: "idx s k \<noteq> -1 \<longleftrightarrow> k \<in> key ` set (entries s)"
  by (simp add: idx_miss)

lemma idx_nonneg: "0 \<le> idx s k \<longleftrightarrow> k \<in> key ` set (entries s)"
  using idx_hit [of s k] idx_found [of s k] by (cases "idx s k = -1") simp_all

lemma idx_lookup: "e \<in> set (entries s) \<Longrightarrow> idx s (key e) \<noteq> -1"
  by (simp add: idx_found)

lemma idx_nth:
  assumes "distinct (map key (entries s))" "i < length (entries s)"
  shows "idx s (key (entries s ! i)) = int i"
proof -
  let ?j = "idx s (key (entries s ! i))"
  have "?j \<noteq> -1" using assms(2) by (intro idx_lookup) simp
  from idx_hit [OF this] assms have "nat ?j = i" "0 \<le> ?j"
    using nth_eq_iff_index_eq [OF assms(1), of "nat ?j" i] by simp_all
  then show ?thesis by simp
qed

lemma idx_cong:
  assumes "map key (entries s) = map key (entries s')"
  shows "idx s k = idx s' k"
proof (cases "idx s k = -1")
  case True
  then have "idx s' k = -1" using assms by (simp add: idx_miss flip: set_map)
  with True show ?thesis by simp
next
  case False
  then have F': "idx s' k \<noteq> -1" using assms by (simp add: idx_miss flip: set_map)
  have len: "length (entries s) = length (entries s')" using assms by (rule map_eq_imp_length_eq)
  have eq: "key (entries s ! i) = key (entries s' ! i)" if "i < length (entries s)" for i
    using that len assms by (metis nth_map)
  have "nat (idx s k) = nat (idx s' k)"
  proof (rule linorder_cases)
    assume less: "nat (idx s k) < nat (idx s' k)"
    from idx_first [OF F' this] idx_hit [OF False] eq show ?thesis by auto
  next
    assume less: "nat (idx s' k) < nat (idx s k)"
    from idx_first [OF False this] idx_hit [OF F'] eq len show ?thesis by auto
  qed
  with idx_hit [OF False] idx_hit [OF F'] show ?thesis by linarith
qed

lemma idx_append:
  assumes "entries s' = entries s @ [e]"
  shows "idx s' k = (if idx s k \<noteq> -1 then idx s k
                     else if key e = k then int (length (entries s)) else -1)"
proof (cases "idx s' k = -1")
  case True
  then show ?thesis using assms by (auto simp: idx_miss)
next
  case False
  note h' = idx_hit [OF False]
  show ?thesis
  proof (cases "idx s k = -1")
    case True
    have "nat (idx s' k) \<ge> length (entries s)"
    proof (rule ccontr)
      assume less: "\<not> ?thesis"
      then have "entries s ! nat (idx s' k) \<in> set (entries s)" by simp
      moreover have "key (entries s ! nat (idx s' k)) = k" using h' less assms by (simp add: nth_append)
      ultimately have "k \<in> key ` set (entries s)" by (metis imageI)
      with True show False by (simp add: idx_miss)
    qed
    with h' assms True show ?thesis by (auto simp: nth_append)
  next
    case F: False
    note h = idx_hit [OF F]
    have "nat (idx s k) = nat (idx s' k)"
    proof (rule linorder_cases)
      assume less: "nat (idx s k) < nat (idx s' k)"
      from idx_first [OF False this] h assms show ?thesis by (simp add: nth_append)
    next
      assume less: "nat (idx s' k) < nat (idx s k)"
      from idx_first [OF F this] h h' less assms show ?thesis by (simp add: nth_append)
    qed
    with h h' F show ?thesis by (simp add: eq_nat_nat_iff)
  qed
qed

end

end
