(* ===== verification/Cc_List.thy ===== *)
theory Cc_List
  imports Prelude
begin

text \<open>
  The intrusive doubly linked list of \<open>include/uwifi/cc_list.h\<close> and its checker in
  \<open>core/cc_list.c\<close>, over an explicit store of list nodes.  An address is a value of
  any type; a pointer is an \<open>option\<close> of an address, \<open>None\<close> being NULL; the store maps
  the addresses of live memory to their nodes.  Each operation is the sequence of reads
  and writes of the C function, and is \<open>None\<close> when one of them goes through NULL or to
  memory that is not live.  The lemmas show that the operations implement those of
  sequences (\<open>is_list s h xs\<close>: the ring at head \<open>h\<close> holds the nodes \<open>xs\<close>).
\<close>

subsection \<open>The store\<close>

record 'a cc_list_node =
  nxt :: "'a option"
  prv :: "'a option"

type_synonym 'a store = "'a \<rightharpoonup> 'a cc_list_node"

definition get_next :: "'a store \<Rightarrow> 'a option \<Rightarrow> 'a option option" where
  "get_next s p = do { a \<leftarrow> p; c \<leftarrow> s a; Some (nxt c) }"

definition get_prev :: "'a store \<Rightarrow> 'a option \<Rightarrow> 'a option option" where
  "get_prev s p = do { a \<leftarrow> p; c \<leftarrow> s a; Some (prv c) }"

definition set_next :: "'a store \<Rightarrow> 'a option \<Rightarrow> 'a option \<Rightarrow> 'a store option" where
  "set_next s p v = do { a \<leftarrow> p; c \<leftarrow> s a; Some (s(a \<mapsto> c\<lparr>nxt := v\<rparr>)) }"

definition set_prev :: "'a store \<Rightarrow> 'a option \<Rightarrow> 'a option \<Rightarrow> 'a store option" where
  "set_prev s p v = do { a \<leftarrow> p; c \<leftarrow> s a; Some (s(a \<mapsto> c\<lparr>prv := v\<rparr>)) }"

subsection \<open>The operations\<close>

definition cc_list_head_init :: "'a store \<Rightarrow> 'a \<Rightarrow> 'a store option" where
  "cc_list_head_init s h = do {
     s \<leftarrow> set_prev s (Some h) (Some h);
     set_next s (Some h) (Some h) }"

definition cc_list_add :: "'a store \<Rightarrow> 'a \<Rightarrow> 'a \<Rightarrow> 'a store option" where
  "cc_list_add s h n = do {
     hn \<leftarrow> get_next s (Some h);
     s \<leftarrow> set_next s (Some n) hn;
     s \<leftarrow> set_prev s (Some n) (Some h);
     hn \<leftarrow> get_next s (Some h);
     s \<leftarrow> set_prev s hn (Some n);
     set_next s (Some h) (Some n) }"

definition cc_list_add_tail :: "'a store \<Rightarrow> 'a \<Rightarrow> 'a \<Rightarrow> 'a store option" where
  "cc_list_add_tail s h n = do {
     s \<leftarrow> set_next s (Some n) (Some h);
     hp \<leftarrow> get_prev s (Some h);
     s \<leftarrow> set_prev s (Some n) hp;
     hp \<leftarrow> get_prev s (Some h);
     s \<leftarrow> set_next s hp (Some n);
     set_prev s (Some h) (Some n) }"

definition cc_list_empty :: "'a store \<Rightarrow> 'a \<Rightarrow> bool option" where
  "cc_list_empty s h = do { hn \<leftarrow> get_next s (Some h); Some (hn = Some h) }"

definition cc_list_del :: "'a store \<Rightarrow> 'a \<Rightarrow> 'a store option" where
  "cc_list_del s n = do {
     nn \<leftarrow> get_next s (Some n);
     np \<leftarrow> get_prev s (Some n);
     s \<leftarrow> set_prev s nn np;
     np \<leftarrow> get_prev s (Some n);
     nn \<leftarrow> get_next s (Some n);
     set_next s np nn }"

text \<open>The \<open>assert\<close> of \<open>cc_list_del_from\<close> is active: the build does not define \<open>NDEBUG\<close>.\<close>

definition cc_list_del_from :: "'a store \<Rightarrow> 'a \<Rightarrow> 'a \<Rightarrow> 'a store option" where
  "cc_list_del_from s h n = do {
     e \<leftarrow> cc_list_empty s h;
     guard_ub (\<not> e);
     cc_list_del s n }"

text \<open>
  \<open>container_of\<close> is address arithmetic on the containing structure: the model returns
  the address of the list node, from which the caller recovers the container.
\<close>

definition cc_list_top :: "'a store \<Rightarrow> 'a \<Rightarrow> 'a option option" where
  "cc_list_top s h = do {
     e \<leftarrow> cc_list_empty s h;
     if e then Some None else get_next s (Some h) }"

definition cc_list_pop :: "'a store \<Rightarrow> 'a \<Rightarrow> ('a option \<times> 'a store) option" where
  "cc_list_pop s h = do {
     e \<leftarrow> cc_list_empty s h;
     if e then Some (None, s)
     else do {
       n \<leftarrow> get_next s (Some h);
       a \<leftarrow> n;
       s \<leftarrow> cc_list_del s a;
       Some (n, s) } }"

definition cc_list_tail :: "'a store \<Rightarrow> 'a \<Rightarrow> 'a option option" where
  "cc_list_tail s h = do {
     e \<leftarrow> cc_list_empty s h;
     if e then Some None else get_prev s (Some h) }"

definition cc_list_append_list :: "'a store \<Rightarrow> 'a \<Rightarrow> 'a \<Rightarrow> 'a store option" where
  "cc_list_append_list s to frm = do {
     from_tail \<leftarrow> get_prev s (Some frm);
     to_tail \<leftarrow> get_prev s (Some to);
     s \<leftarrow> set_prev s (Some to) from_tail;
     s \<leftarrow> set_next s from_tail (Some to);
     s \<leftarrow> set_next s to_tail (Some frm);
     s \<leftarrow> set_prev s (Some frm) to_tail;
     s \<leftarrow> cc_list_del s frm;
     cc_list_head_init s frm }"

definition cc_list_prepend_list :: "'a store \<Rightarrow> 'a \<Rightarrow> 'a \<Rightarrow> 'a store option" where
  "cc_list_prepend_list s to frm = do {
     from_tail \<leftarrow> get_prev s (Some frm);
     to_head \<leftarrow> get_next s (Some to);
     s \<leftarrow> set_next s (Some to) (Some frm);
     s \<leftarrow> set_prev s (Some frm) (Some to);
     s \<leftarrow> set_prev s to_head from_tail;
     s \<leftarrow> set_next s from_tail to_head;
     s \<leftarrow> cc_list_del s frm;
     cc_list_head_init s frm }"

definition cc_list_entry_or_null :: "'a \<Rightarrow> 'a \<Rightarrow> 'a option" where
  "cc_list_entry_or_null h n = (if n = h then None else Some n)"

subsection \<open>The loops over a list\<close>

text \<open>
  \<open>cc_list_for_each\<close> with a body that leaves the loop by \<open>break\<close> when a test holds:
  the address the loop variable has afterwards, the head itself when the list is
  exhausted.
\<close>

partial_function (option) find_from ::
    "'a store \<Rightarrow> ('a \<Rightarrow> bool option) \<Rightarrow> 'a \<Rightarrow> 'a option \<Rightarrow> 'a option" where
  "find_from s P h i = do {
     a \<leftarrow> i;
     if a = h then Some h
     else do {
       b \<leftarrow> P a;
       if b then Some a
       else do { n \<leftarrow> get_next s (Some a); find_from s P h n } } }"

definition cc_list_find :: "'a store \<Rightarrow> ('a \<Rightarrow> bool option) \<Rightarrow> 'a \<Rightarrow> 'a option" where
  "cc_list_find s P h = do { n \<leftarrow> get_next s (Some h); find_from s P h n }"

text \<open>\<open>cc_list_for_each\<close> with a body that runs on every entry and changes no link.\<close>

partial_function (option) each_from ::
    "'a store \<Rightarrow> ('a \<Rightarrow> 's \<Rightarrow> 's option) \<Rightarrow> 'a \<Rightarrow> 'a option \<Rightarrow> 's \<Rightarrow> 's option" where
  "each_from s body h i st = do {
     a \<leftarrow> i;
     if a = h then Some st
     else do {
       st \<leftarrow> body a st;
       n \<leftarrow> get_next s (Some a);
       each_from s body h n st } }"

definition cc_list_for_each ::
    "'a store \<Rightarrow> ('a \<Rightarrow> 's \<Rightarrow> 's option) \<Rightarrow> 'a \<Rightarrow> 's \<Rightarrow> 's option" where
  "cc_list_for_each s body h st = do { n \<leftarrow> get_next s (Some h); each_from s body h n st }"

text \<open>
  \<open>cc_list_for_each_safe\<close>: the successor is read before the body, which may unlink the
  current entry; the state \<open>'s\<close> holds the store, found by \<open>lnk\<close>.
\<close>

partial_function (option) safe_from ::
    "('s \<Rightarrow> 'a store) \<Rightarrow> ('a \<Rightarrow> 's \<Rightarrow> 's option) \<Rightarrow> 'a \<Rightarrow> 'a option \<Rightarrow> 'a option \<Rightarrow> 's \<Rightarrow> 's option" where
  "safe_from lnk body h i nx st = do {
     a \<leftarrow> i;
     if a = h then Some st
     else do {
       st \<leftarrow> body a st;
       nx' \<leftarrow> get_next (lnk st) nx;
       safe_from lnk body h nx nx' st } }"

definition cc_list_for_each_safe ::
    "('s \<Rightarrow> 'a store) \<Rightarrow> ('a \<Rightarrow> 's \<Rightarrow> 's option) \<Rightarrow> 'a \<Rightarrow> 's \<Rightarrow> 's option" where
  "cc_list_for_each_safe lnk body h st = do {
     i \<leftarrow> get_next (lnk st) (Some h);
     nx \<leftarrow> get_next (lnk st) i;
     safe_from lnk body h i nx st }"

subsection \<open>The consistency check of core/cc\_list.c\<close>

text \<open>
  \<open>cc_list_check_node\<close>: the result is \<open>Inr\<close> of the node when the ring is consistent and
  \<open>Inl\<close> of the corrupt node otherwise (\<open>corrupt\<close>: NULL when no \<open>abortstr\<close> is given).
\<close>

partial_function (option) check_from ::
    "'a store \<Rightarrow> 'a \<Rightarrow> 'a \<Rightarrow> 'a option \<Rightarrow> ('a + 'a) option" where
  "check_from s node p n = do {
     a \<leftarrow> n;
     if a = node then Some (Inr p)
     else do {
       ap \<leftarrow> get_prev s (Some a);
       if ap \<noteq> Some p then Some (Inl a)
       else do { n' \<leftarrow> get_next s (Some a); check_from s node a n' } } }"

definition corrupt :: "bool \<Rightarrow> 'a option option" where
  "corrupt abortstr = (if abortstr then None else Some None)"

definition cc_list_check_node :: "'a store \<Rightarrow> 'a \<Rightarrow> bool \<Rightarrow> 'a option option" where
  "cc_list_check_node s node abortstr = do {
     n \<leftarrow> get_next s (Some node);
     r \<leftarrow> check_from s node node n;
     case r of
       Inl bad \<Rightarrow> corrupt abortstr
     | Inr p \<Rightarrow> do {
         np \<leftarrow> get_prev s (Some node);
         if np \<noteq> Some p then corrupt abortstr else Some (Some node) } }"

definition list_check :: "'a store \<Rightarrow> 'a \<Rightarrow> bool \<Rightarrow> 'a option option" where
  "list_check s h abortstr = do {
     r \<leftarrow> cc_list_check_node s h abortstr;
     case r of None \<Rightarrow> Some None | Some _ \<Rightarrow> Some (Some h) }"

subsection \<open>Views of the store and how the writes change them\<close>

definition nx :: "'a store \<Rightarrow> 'a \<Rightarrow> 'a option" where
  "nx s a = s a \<bind> nxt"

definition pv :: "'a store \<Rightarrow> 'a \<Rightarrow> 'a option" where
  "pv s a = s a \<bind> prv"

lemma get_next_iff: "get_next s p = Some q \<longleftrightarrow> (\<exists>a. p = Some a \<and> a \<in> dom s \<and> q = nx s a)"
  by (auto simp: get_next_def nx_def bind_conv)

lemma get_prev_iff: "get_prev s p = Some q \<longleftrightarrow> (\<exists>a. p = Some a \<and> a \<in> dom s \<and> q = pv s a)"
  by (auto simp: get_prev_def pv_def bind_conv)

lemma get_next_Some [simp]: "a \<in> dom s \<Longrightarrow> get_next s (Some a) = Some (nx s a)"
  by (simp add: get_next_iff)

lemma get_prev_Some [simp]: "a \<in> dom s \<Longrightarrow> get_prev s (Some a) = Some (pv s a)"
  by (simp add: get_prev_iff)

text \<open>The effect of a write to live memory, as a total function.\<close>

definition upd_next :: "'a store \<Rightarrow> 'a \<Rightarrow> 'a option \<Rightarrow> 'a store" where
  "upd_next s a v = s(a := map_option (\<lambda>c. c\<lparr>nxt := v\<rparr>) (s a))"

definition upd_prev :: "'a store \<Rightarrow> 'a \<Rightarrow> 'a option \<Rightarrow> 'a store" where
  "upd_prev s a v = s(a := map_option (\<lambda>c. c\<lparr>prv := v\<rparr>) (s a))"

lemma set_next_live [simp]: "a \<in> dom s \<Longrightarrow> set_next s (Some a) v = Some (upd_next s a v)"
  by (auto simp: set_next_def upd_next_def)

lemma set_prev_live [simp]: "a \<in> dom s \<Longrightarrow> set_prev s (Some a) v = Some (upd_prev s a v)"
  by (auto simp: set_prev_def upd_prev_def)

lemma dom_upd [simp]: "dom (upd_next s a v) = dom s" "dom (upd_prev s a v) = dom s"
  by (auto simp: upd_next_def upd_prev_def dom_def)

lemma upd_next_views [simp]:
  "a \<in> dom s \<Longrightarrow> nx (upd_next s a v) = (nx s)(a := v)"
  "pv (upd_next s a v) = pv s"
  by (auto simp: upd_next_def nx_def pv_def fun_eq_iff map_option_case split: option.splits)

lemma upd_prev_views [simp]:
  "a \<in> dom s \<Longrightarrow> pv (upd_prev s a v) = (pv s)(a := v)"
  "nx (upd_prev s a v) = nx s"
  by (auto simp: upd_prev_def nx_def pv_def fun_eq_iff map_option_case split: option.splits)

lemma upd_other [simp]:
  "b \<noteq> a \<Longrightarrow> upd_next s a v b = s b"
  "b \<noteq> a \<Longrightarrow> upd_prev s a v b = s b"
  by (simp_all add: upd_next_def upd_prev_def)

subsection \<open>Rings as sequences\<close>

text \<open>
  \<open>dseg N P x zs y\<close>: from \<open>x\<close> through the nodes \<open>zs\<close> to \<open>y\<close>, forward by the links \<open>N\<close> and
  back by \<open>P\<close>.  A list with head \<open>h\<close> is a segment from \<open>h\<close> to itself.
\<close>

type_synonym 'a links = "'a \<Rightarrow> 'a option"

fun dseg :: "'a links \<Rightarrow> 'a links \<Rightarrow> 'a \<Rightarrow> 'a list \<Rightarrow> 'a \<Rightarrow> bool" where
  "dseg N P x [] y \<longleftrightarrow> N x = Some y \<and> P y = Some x"
| "dseg N P x (z # zs) y \<longleftrightarrow> N x = Some z \<and> P z = Some x \<and> dseg N P z zs y"

definition is_list :: "'a store \<Rightarrow> 'a \<Rightarrow> 'a list \<Rightarrow> bool" where
  "is_list s h xs \<longleftrightarrow> distinct (h # xs) \<and> dseg (nx s) (pv s) h xs h"

lemma dseg_append: "dseg N P x (xs @ z # ys) y \<longleftrightarrow> dseg N P x xs z \<and> dseg N P z ys y"
  by (induction xs arbitrary: x) auto

lemma dseg_upd_next [simp]: "a \<notin> insert x (set zs) \<Longrightarrow> dseg (N(a := v)) P x zs y = dseg N P x zs y"
  by (induction zs arbitrary: x) auto

lemma dseg_upd_prev [simp]: "a \<notin> insert y (set zs) \<Longrightarrow> dseg N (P(a := v)) x zs y = dseg N P x zs y"
  by (induction zs arbitrary: x) auto

lemma dseg_cong:
  assumes "\<And>a. a \<in> insert x (set zs) \<Longrightarrow> N' a = N a"
    and "\<And>a. a \<in> insert y (set zs) \<Longrightarrow> P' a = P a"
  shows "dseg N' P' x zs y = dseg N P x zs y"
  using assms by (induction zs arbitrary: x) auto

lemma is_list_frame:
  assumes "\<And>a. a \<in> insert h (set xs) \<Longrightarrow> s' a = s a"
  shows "is_list s' h xs = is_list s h xs"
  using assms dseg_cong [of h xs "nx s'" "nx s" h "pv s'" "pv s"]
  by (auto simp: is_list_def nx_def pv_def)

lemma dseg_dom: "dseg (nx s) (pv s) x zs y \<Longrightarrow> insert x (set zs) \<subseteq> dom s"
  by (induction zs arbitrary: x) (auto simp: nx_def bind_conv)

lemma is_list_dom: "is_list s h xs \<Longrightarrow> insert h (set xs) \<subseteq> dom s"
  unfolding is_list_def by (elim conjE) (rule dseg_dom)

lemma is_list_head_dom: "is_list s h xs \<Longrightarrow> h \<in> dom s"
  and is_list_elem_dom: "is_list s h xs \<Longrightarrow> a \<in> set xs \<Longrightarrow> a \<in> dom s"
  by (meson insertI1 insertI2 is_list_dom subsetD)+

lemma is_list_distinct: "is_list s h xs \<Longrightarrow> distinct xs \<and> h \<notin> set xs"
  by (simp add: is_list_def)

lemma is_list_nx_head: "is_list s h xs \<Longrightarrow> nx s h = Some (hd (xs @ [h]))"
  by (cases xs) (auto simp: is_list_def)

lemma is_list_pv_head: "is_list s h xs \<Longrightarrow> pv s h = Some (last (h # xs))"
  by (cases xs rule: rev_cases) (auto simp: is_list_def dseg_append)

lemma is_list_nx_elem: "is_list s h (ys @ n # zs) \<Longrightarrow> nx s n = Some (hd (zs @ [h]))"
  by (cases zs) (auto simp: is_list_def dseg_append)

lemma is_list_pv_elem: "is_list s h (ys @ n # zs) \<Longrightarrow> pv s n = Some (last (h # ys))"
  by (cases ys rule: rev_cases) (auto simp: is_list_def dseg_append)

lemma is_list_first_dom: "is_list s h (ys @ zs) \<Longrightarrow> hd (zs @ [h]) \<in> dom s"
  using is_list_dom [of s h "ys @ zs"] by (cases zs) auto

lemma is_list_last_dom: "is_list s h (ys @ zs) \<Longrightarrow> last (h # ys) \<in> dom s"
  using is_list_dom [of s h "ys @ zs"] by (cases ys rule: rev_cases) auto

lemma dseg_unique:
  "dseg N P x xs h \<Longrightarrow> dseg N P x ys h \<Longrightarrow> h \<notin> set xs \<Longrightarrow> h \<notin> set ys \<Longrightarrow> xs = ys"
proof (induction xs arbitrary: x ys)
  case Nil
  then show ?case by (cases ys) auto
next
  case (Cons a xs)
  then show ?case by (cases ys) auto
qed

text \<open>The contents of a ring are determined by the store.\<close>

lemma is_list_unique: "is_list s h xs \<Longrightarrow> is_list s h ys \<Longrightarrow> xs = ys"
  by (auto simp: is_list_def intro: dseg_unique)

text \<open>Linking a node in between two neighbours, and linking it out.\<close>

lemma relink_insert:
  assumes "is_list s h (ys @ zs)" "n \<notin> insert h (set (ys @ zs))"
    and "nx s' = (nx s)(n := Some (hd (zs @ [h])), last (h # ys) := Some n)"
    and "pv s' = (pv s)(n := Some (last (h # ys)), hd (zs @ [h]) := Some n)"
  shows "is_list s' h (ys @ n # zs)"
  using assms by (cases ys rule: rev_cases; cases zs) (auto simp: is_list_def dseg_append)

lemma relink_delete:
  assumes "is_list s h (ys @ n # zs)"
    and "nx s' = (nx s)(last (h # ys) := Some (hd (zs @ [h])))"
    and "pv s' = (pv s)(hd (zs @ [h]) := Some (last (h # ys)))"
  shows "is_list s' h (ys @ zs)"
  using assms by (cases ys rule: rev_cases; cases zs) (auto simp: is_list_def dseg_append)

subsection \<open>The operations implement those of sequences\<close>

text \<open>Each lemma also says which nodes the operation leaves alone.\<close>

lemma head_init_list:
  assumes "h \<in> dom s"
  obtains s' where "cc_list_head_init s h = Some s'" "is_list s' h []" "dom s' = dom s"
    "\<And>a. a \<noteq> h \<Longrightarrow> s' a = s a"
  using assms
  by (intro that [of "upd_next (upd_prev s h (Some h)) h (Some h)"])
    (simp_all add: cc_list_head_init_def is_list_def)

lemma add_list:
  assumes L: "is_list s h xs" and n: "n \<in> dom s" "n \<notin> insert h (set xs)"
  obtains s' where "cc_list_add s h n = Some s'" "is_list s' h (n # xs)" "dom s' = dom s"
    "\<And>a. a \<notin> insert n (insert h (set xs)) \<Longrightarrow> s' a = s a"
proof -
  let ?b = "hd (xs @ [h])"
  define s' where
    "s' = upd_next (upd_prev (upd_prev (upd_next s n (Some ?b)) n (Some h)) ?b (Some n)) h (Some n)"
  have hb: "nx s h = Some ?b" "h \<in> dom s" "?b \<in> dom s"
    using is_list_nx_head [OF L] is_list_head_dom [OF L] is_list_first_dom [of s h "[]" xs] L
    by simp_all
  have nb: "n \<noteq> h" "n \<noteq> ?b" "?b \<in> insert h (set xs)" using n by (cases xs; auto)+
  have "is_list s' h ([] @ n # xs)"
    using L n hb nb by (intro relink_insert [of s]) (simp_all add: s'_def)
  moreover have "s' a = s a" if "a \<notin> insert n (insert h (set xs))" for a
  proof -
    have "a \<noteq> ?b" using that nb(3) by (metis insertI2)
    with that show ?thesis by (simp add: s'_def)
  qed
  ultimately show thesis
    using hb nb n by (intro that [of s']) (simp_all add: cc_list_add_def s'_def)
qed

lemma add_tail_list:
  assumes L: "is_list s h xs" and n: "n \<in> dom s" "n \<notin> insert h (set xs)"
  obtains s' where "cc_list_add_tail s h n = Some s'" "is_list s' h (xs @ [n])" "dom s' = dom s"
    "\<And>a. a \<notin> insert n (insert h (set xs)) \<Longrightarrow> s' a = s a"
proof -
  let ?l = "last (h # xs)"
  define s' where
    "s' = upd_prev (upd_next (upd_prev (upd_next s n (Some h)) n (Some ?l)) ?l (Some n)) h (Some n)"
  have hl: "pv s h = Some ?l" "h \<in> dom s" "?l \<in> dom s"
    using is_list_pv_head [OF L] is_list_head_dom [OF L] is_list_last_dom [of s h xs "[]"] L
    by (simp_all del: last.simps)
  have "?l \<in> insert h (set xs)" using last_in_set [of "h # xs"] by simp
  then have nl: "n \<noteq> h" "n \<noteq> ?l" "?l \<in> insert h (set xs)" using n by auto
  have "is_list s' h (xs @ n # [])"
    using L n hl nl by (intro relink_insert [of s]) (simp_all add: s'_def del: last.simps)
  moreover have "s' a = s a" if "a \<notin> insert n (insert h (set xs))" for a
  proof -
    have "a \<noteq> ?l" using that nl(3) by (metis insertI2)
    with that show ?thesis by (simp add: s'_def del: last.simps)
  qed
  ultimately show thesis
    using hl nl n
    by (intro that [of s']) (simp_all add: cc_list_add_tail_def s'_def del: last.simps)
qed

lemma del_list:
  assumes L: "is_list s h (ys @ n # zs)"
  obtains s' where "cc_list_del s n = Some s'" "is_list s' h (ys @ zs)" "dom s' = dom s"
    "\<And>a. a \<notin> insert h (set (ys @ zs)) \<Longrightarrow> s' a = s a"
proof -
  let ?a = "last (h # ys)" let ?b = "hd (zs @ [h])"
  define s' where "s' = upd_next (upd_prev s ?b (Some ?a)) ?a (Some ?b)"
  have l: "nx s n = Some ?b" "pv s n = Some ?a"
    using L is_list_nx_elem is_list_pv_elem by metis+
  have d: "n \<in> dom s" "?a \<in> dom s" "?b \<in> dom s"
    using is_list_elem_dom [OF L, of n] is_list_last_dom [OF L]
      is_list_first_dom [of s h "ys @ [n]" zs] L
    by (simp_all del: last.simps)
  have m: "?a \<in> insert h (set ys)" "?b \<in> insert h (set zs)"
    using last_in_set [of "h # ys"] hd_in_set [of "zs @ [h]"] by simp_all
  have "n \<notin> insert h (set ys)" "n \<notin> insert h (set zs)"
    using is_list_distinct [OF L] by auto
  with m have ne: "n \<noteq> ?a" "n \<noteq> ?b" by metis+
  have "is_list s' h (ys @ zs)"
    using d by (intro relink_delete [OF L]) (simp_all add: s'_def del: last.simps)
  moreover have "s' c = s c" if "c \<notin> insert h (set (ys @ zs))" for c
  proof -
    have "c \<notin> insert h (set ys)" "c \<notin> insert h (set zs)" using that by auto
    with m have "c \<noteq> ?a" "c \<noteq> ?b" by metis+
    then show ?thesis by (simp add: s'_def del: last.simps)
  qed
  ultimately show thesis
    using l d ne by (intro that [of s']) (simp_all add: cc_list_del_def s'_def del: last.simps)
qed

lemma empty_list: "is_list s h xs \<Longrightarrow> cc_list_empty s h = Some (xs = [])"
  using is_list_nx_head [of s h xs] is_list_distinct [of s h xs] is_list_head_dom [of s h xs]
  by (cases xs) (auto simp: cc_list_empty_def)

lemma del_from_list:
  assumes L: "is_list s h (ys @ n # zs)"
  obtains s' where "cc_list_del_from s h n = Some s'" "is_list s' h (ys @ zs)" "dom s' = dom s"
    "\<And>a. a \<notin> insert h (set (ys @ zs)) \<Longrightarrow> s' a = s a"
proof (rule del_list [OF L])
  fix s' assume "cc_list_del s n = Some s'" "is_list s' h (ys @ zs)" "dom s' = dom s"
    "\<And>a. a \<notin> insert h (set (ys @ zs)) \<Longrightarrow> s' a = s a"
  then show thesis
    by (intro that [of s']) (simp_all add: cc_list_del_from_def empty_list [OF L])
qed

subsection \<open>Loops over a ring\<close>

lemma find_from_seg:
  "dseg (nx s) (pv s) x zs h \<Longrightarrow> h \<notin> set zs \<Longrightarrow> \<forall>a \<in> set zs. P a = Some (p a) \<Longrightarrow>
     find_from s P h (nx s x) = Some (case List.find p zs of None \<Rightarrow> h | Some a \<Rightarrow> a)"
proof (induction zs arbitrary: x)
  case Nil
  then show ?case by (simp add: find_from.simps)
next
  case (Cons z zs)
  then have "z \<in> dom s" using dseg_dom [of s x "z # zs" h] by auto
  moreover have "z \<noteq> h" using Cons.prems by auto
  ultimately show ?case
    using Cons by (cases "p z") (simp_all add: find_from.simps [of s P h "Some z"])
qed

lemma find_list:
  assumes "is_list s h xs" "\<forall>a \<in> set xs. P a = Some (p a)"
  shows "cc_list_find s P h = Some (case List.find p xs of None \<Rightarrow> h | Some a \<Rightarrow> a)"
  using assms find_from_seg [of s h xs h P p] is_list_head_dom [of s h xs]
  by (simp add: cc_list_find_def is_list_def)

lemma each_from_seg:
  "dseg (nx s) (pv s) x zs h \<Longrightarrow> h \<notin> set zs \<Longrightarrow> each_from s body h (nx s x) st = foldM body zs st"
proof (induction zs arbitrary: x st)
  case Nil
  then show ?case by (simp add: each_from.simps)
next
  case (Cons z zs)
  then have "z \<in> dom s" using dseg_dom [of s x "z # zs" h] by auto
  moreover have "z \<noteq> h" using Cons.prems by auto
  ultimately show ?case
    using Cons by (simp add: each_from.simps [of s body h "Some z"])
qed

lemma for_each_list:
  assumes "is_list s h xs"
  shows "cc_list_for_each s body h st = foldM body xs st"
  using assms each_from_seg [of s h xs h body st] is_list_head_dom [of s h xs]
  by (simp add: cc_list_for_each_def is_list_def)

text \<open>
  The rule of the deleting loop: \<open>R ys st\<close> relates the entries still to visit to the
  state.  The body may change the ring as long as the entries behind the current one
  keep their order.
\<close>

lemma safe_from_rule:
  assumes body: "\<And>x ys st. R (x # ys) st \<Longrightarrow> \<exists>st'. body x st = Some st' \<and> R ys st'"
    and chain: "\<And>x ys st. R (x # ys) st \<Longrightarrow> x \<noteq> h \<and> nx (lnk st) x = Some (hd (ys @ [h]))"
    and live: "\<And>ys st. R ys st \<Longrightarrow> hd (ys @ [h]) \<in> dom (lnk st)"
  shows "R xs st \<Longrightarrow>
    \<exists>st'. safe_from lnk body h (Some (hd (xs @ [h]))) (nx (lnk st) (hd (xs @ [h]))) st = Some st' \<and> R [] st'"
proof (induction xs arbitrary: st)
  case Nil
  then show ?case by (simp add: safe_from.simps)
next
  case (Cons x xs)
  from body [OF Cons.prems] obtain st' where st': "body x st = Some st'" "R xs st'" by blast
  from chain [OF Cons.prems] live [OF st'(2)] Cons.IH [OF st'(2)] st' show ?case
    by (simp add: safe_from.simps [of lnk body h "Some x"])
qed

lemma for_each_safe_rule:
  assumes body: "\<And>x ys st. R (x # ys) st \<Longrightarrow> \<exists>st'. body x st = Some st' \<and> R ys st'"
    and chain: "\<And>x ys st. R (x # ys) st \<Longrightarrow> x \<noteq> h \<and> nx (lnk st) x = Some (hd (ys @ [h]))"
    and live: "\<And>ys st. R ys st \<Longrightarrow> hd (ys @ [h]) \<in> dom (lnk st)"
    and start: "R xs st" "h \<in> dom (lnk st)" "nx (lnk st) h = Some (hd (xs @ [h]))"
  shows "\<exists>st'. cc_list_for_each_safe lnk body h st = Some st' \<and> R [] st'"
  using safe_from_rule [of R body h lnk xs st, OF body chain live] start live [OF start(1)]
  by (simp add: cc_list_for_each_safe_def)

text \<open>
  The same for a loop whose body leaves the entries behind the current one in the list: \<open>pre\<close>
  are the visited entries that stayed.
\<close>

lemma for_each_safe_list:
  assumes body: "\<And>x xs st. R (x # xs) st \<Longrightarrow> \<exists>st'. body x st = Some st' \<and> R xs st'"
    and lst: "\<And>xs st. R xs st \<Longrightarrow> \<exists>pre. is_list (lnk st) h (pre @ xs)"
    and start: "R xs st" "is_list (lnk st) h xs"
  shows "\<exists>st'. cc_list_for_each_safe lnk body h st = Some st' \<and> R [] st'"
proof (rule for_each_safe_rule [of R, OF body])
  fix x ys st assume "R (x # ys) st"
  from lst [OF this] obtain pre where l: "is_list (lnk st) h (pre @ x # ys)" by blast
  from is_list_distinct [OF l] is_list_nx_elem [OF l] show "x \<noteq> h \<and> nx (lnk st) x = Some (hd (ys @ [h]))" by auto
next
  fix ys st assume "R ys st"
  from lst [OF this] is_list_first_dom [of "lnk st" h] show "hd (ys @ [h]) \<in> dom (lnk st)" by blast
next
  show "R xs st" by (rule start)
  show "h \<in> dom (lnk st)" by (rule is_list_head_dom [OF start(2)])
  show "nx (lnk st) h = Some (hd (xs @ [h]))" by (rule is_list_nx_head [OF start(2)])
qed

subsection \<open>The checker accepts exactly the rings\<close>

lemma dseg_distinct:
  assumes "dseg N P h zs h" "h \<notin> set zs"
  shows "distinct zs"
proof (rule ccontr)
  assume "\<not> distinct zs"
  then obtain as x bs cs where z: "zs = as @ [x] @ bs @ [x] @ cs"
    using not_distinct_decomp by blast
  from assms(1) have "dseg N P x (bs @ x # cs) h" "dseg N P x cs h"
    by (simp_all add: z dseg_append)
  moreover from assms(2) have "h \<notin> set (bs @ x # cs)" "h \<notin> set cs" by (simp_all add: z)
  ultimately have "bs @ x # cs = cs" by (rule dseg_unique)
  then show False by (metis append_Nil append_eq_append_conv_if length_Cons length_append not_add_less2 lessI)
qed

lemma check_from_seg:
  "dseg (nx s) (pv s) p zs h \<Longrightarrow> h \<notin> set zs \<Longrightarrow> check_from s h p (nx s p) = Some (Inr (last (p # zs)))"
proof (induction zs arbitrary: p)
  case Nil
  then show ?case by (simp add: check_from.simps)
next
  case (Cons z zs)
  then have "z \<in> dom s" using dseg_dom [of s p "z # zs" h] by auto
  with Cons show ?case by (auto simp: check_from.simps [of s h p])
qed

lemma check_from_ring:
  assumes "check_from s h p n = Some r"
  shows "\<forall>q. r = Inr q \<longrightarrow> nx s p = n \<longrightarrow> pv s h = Some q \<longrightarrow>
    (\<exists>zs. dseg (nx s) (pv s) p zs h \<and> h \<notin> set zs)"
proof (rule check_from.raw_induct [where P = "\<lambda>s h p n r. \<forall>q. r = Inr q \<longrightarrow> nx s p = n \<longrightarrow>
    pv s h = Some q \<longrightarrow> (\<exists>zs. dseg (nx s) (pv s) p zs h \<and> h \<notin> set zs)", OF _ assms])
  fix cf :: "'a store \<Rightarrow> 'a \<Rightarrow> 'a \<Rightarrow> 'a option \<Rightarrow> ('a + 'a) option"
  fix s h p n r
  assume IH: "\<And>s h p n r. cf s h p n = Some r \<Longrightarrow> \<forall>q. r = Inr q \<longrightarrow> nx s p = n \<longrightarrow>
      pv s h = Some q \<longrightarrow> (\<exists>zs. dseg (nx s) (pv s) p zs h \<and> h \<notin> set zs)"
    and eq: "do { a \<leftarrow> n; if a = h then Some (Inr p) else do { ap \<leftarrow> get_prev s (Some a);
       if ap \<noteq> Some p then Some (Inl a)
       else do { n' \<leftarrow> get_next s (Some a); cf s h a n' } } } = Some r"
  show "\<forall>q. r = Inr q \<longrightarrow> nx s p = n \<longrightarrow> pv s h = Some q \<longrightarrow>
      (\<exists>zs. dseg (nx s) (pv s) p zs h \<and> h \<notin> set zs)"
  proof (intro allI impI)
    fix q assume q: "r = Inr q" "nx s p = n" "pv s h = Some q"
    from eq obtain a where a: "n = Some a" by (auto simp: bind_conv)
    show "\<exists>zs. dseg (nx s) (pv s) p zs h \<and> h \<notin> set zs"
    proof (cases "a = h")
      case True
      with eq q a show ?thesis by (intro exI [of _ "[]"]) simp
    next
      case False
      with eq q a have c: "pv s a = Some p" "cf s h a (nx s a) = Some r"
        by (auto simp: bind_conv get_prev_iff get_next_iff split: if_splits)
      from IH [OF c(2)] q obtain zs where "dseg (nx s) (pv s) a zs h" "h \<notin> set zs" by auto
      with False c q a show ?thesis by (intro exI [of _ "a # zs"]) auto
    qed
  qed
qed

lemma check_node_result:
  fixes s :: "'a store"
  assumes "cc_list_check_node s h b = Some (Some x)"
  shows "x = h"
proof -
  from assms obtain r :: "'a + 'a" where "(case r of Inl bad \<Rightarrow> corrupt b | Inr p \<Rightarrow> do { np \<leftarrow> get_prev s (Some h);
      if np \<noteq> Some p then corrupt b else Some (Some h) }) = Some (Some x)"
    unfolding cc_list_check_node_def bind_conv by blast
  then show ?thesis
    by (cases r) (auto simp: corrupt_def bind_conv split: if_splits)
qed

lemma check_node_ring: "cc_list_check_node s h b = Some (Some h) \<longleftrightarrow> (\<exists>xs. is_list s h xs)"
proof
  assume "cc_list_check_node s h b = Some (Some h)"
  then obtain r where r: "check_from s h h (nx s h) = Some r"
      "(case r of Inl bad \<Rightarrow> corrupt b | Inr p \<Rightarrow> do { np \<leftarrow> get_prev s (Some h);
         if np \<noteq> Some p then corrupt b else Some (Some h) }) = Some (Some h)"
    unfolding cc_list_check_node_def bind_conv get_next_iff by blast
  then obtain q where q: "check_from s h h (nx s h) = Some (Inr q)" "pv s h = Some q"
    by (cases r) (auto simp: corrupt_def bind_conv get_prev_iff split: if_splits)
  from check_from_ring [OF q(1)] q(2) obtain zs where "dseg (nx s) (pv s) h zs h" "h \<notin> set zs"
    by auto
  then have "is_list s h zs" using dseg_distinct [of "nx s" "pv s" h zs] by (simp add: is_list_def)
  then show "\<exists>xs. is_list s h xs" ..
next
  assume "\<exists>xs. is_list s h xs"
  then obtain xs where L: "is_list s h xs" ..
  then have "check_from s h h (nx s h) = Some (Inr (last (h # xs)))"
    by (intro check_from_seg) (simp_all add: is_list_def)
  then show "cc_list_check_node s h b = Some (Some h)"
    using is_list_pv_head [OF L] is_list_head_dom [OF L]
    by (simp add: cc_list_check_node_def del: last.simps)
qed

text \<open>
  The checker returns: on a finite store whose links all lead to live nodes every step
  visits a new node, since \<open>prev\<close> takes each visited node back to its predecessor.
\<close>

definition closed_store :: "'a store \<Rightarrow> bool" where
  "closed_store s \<longleftrightarrow> finite (dom s) \<and> (\<forall>a \<in> dom s. \<exists>b \<in> dom s. nx s a = Some b)"

lemma closed_store_next: "closed_store s \<Longrightarrow> a \<in> dom s \<Longrightarrow> \<exists>b \<in> dom s. nx s a = Some b"
  by (simp add: closed_store_def)

definition visited :: "'a store \<Rightarrow> 'a \<Rightarrow> 'a list \<Rightarrow> bool" where
  "visited s h path \<longleftrightarrow> path \<noteq> [] \<and> hd path = h \<and> distinct path \<and> set path \<subseteq> dom s \<and>
     (\<forall>i. Suc i < length path \<longrightarrow> pv s (path ! Suc i) = Some (path ! i))"

lemma visited_snoc:
  assumes "visited s h path" "a \<in> dom s" "a \<noteq> h" "pv s a = Some (last path)"
  shows "visited s h (path @ [a])"
proof -
  have "a \<notin> set path"
  proof
    assume "a \<in> set path"
    then obtain i where i: "i < length path" "path ! i = a" by (auto simp: in_set_conv_nth)
    show False
    proof (cases i)
      case 0
      with assms i hd_conv_nth [of path] show False by (simp add: visited_def)
    next
      case (Suc j)
      with assms i have "path ! j = last path" by (auto simp: visited_def)
      with assms i Suc have "j = length path - 1"
        by (auto simp: visited_def last_conv_nth nth_eq_iff_index_eq)
      with i Suc show False by simp
    qed
  qed
  moreover have "pv s ((path @ [a]) ! Suc i) = Some ((path @ [a]) ! i)"
    if "Suc i < length (path @ [a])" for i
  proof (cases "Suc i = length path")
    case True
    then have "i = length path - 1" "i < length path" by simp_all
    moreover have "path \<noteq> []" using assms by (simp add: visited_def)
    ultimately have "(path @ [a]) ! i = last path" by (simp add: nth_append last_conv_nth)
    moreover have "(path @ [a]) ! Suc i = a" using True by (simp add: nth_append)
    ultimately show ?thesis using assms by simp
  next
    case False
    with that assms show ?thesis by (auto simp: visited_def nth_append)
  qed
  ultimately show ?thesis using assms by (auto simp: visited_def)
qed

lemma check_from_returns:
  assumes "closed_store s"
  shows "visited s h path \<Longrightarrow> n \<in> dom s \<Longrightarrow> \<exists>r. check_from s h (last path) (Some n) = Some r"
proof (induction "card (dom s) - length path" arbitrary: path n rule: less_induct)
  case less
  show ?case
  proof (cases "n = h \<or> pv s n \<noteq> Some (last path)")
    case True
    with less.prems show ?thesis by (auto simp: check_from.simps [of s h "last path" "Some n"])
  next
    case False
    then have v: "visited s h (path @ [n])" using visited_snoc [OF less.prems] by simp
    have fin: "finite (dom s)" using assms by (simp add: closed_store_def)
    from v have "length (path @ [n]) \<le> card (dom s)"
      using card_mono [OF fin, of "set (path @ [n])"] distinct_card [of "path @ [n]"]
      by (auto simp: visited_def)
    then have dec: "card (dom s) - length (path @ [n]) < card (dom s) - length path" by simp
    obtain b where b: "b \<in> dom s" "nx s n = Some b"
      using closed_store_next [OF assms] less.prems by blast
    from less.hyps [OF dec v b(1)] obtain r where "check_from s h n (Some b) = Some r" by auto
    with False b less.prems show ?thesis by (simp add: check_from.simps [of s h "last path" "Some n"])
  qed
qed

lemma check_node_returns:
  assumes "closed_store s" "h \<in> dom s"
  shows "\<exists>r. cc_list_check_node s h False = Some r"
proof -
  obtain b where b: "b \<in> dom s" "nx s h = Some b"
    using closed_store_next [OF assms] by blast
  have "visited s h [h]" using assms by (simp add: visited_def)
  from check_from_returns [OF assms(1) this b(1)] obtain r where
    "check_from s h h (Some b) = Some r" by auto
  with b assms show ?thesis
    by (cases r) (auto simp: cc_list_check_node_def corrupt_def)
qed

subsection \<open>Ends of a list, and joining two lists\<close>

lemma top_list: "is_list s h xs \<Longrightarrow> cc_list_top s h = Some (if xs = [] then None else Some (hd xs))"
  using is_list_nx_head [of s h xs] is_list_head_dom [of s h xs]
  by (cases xs) (simp_all add: cc_list_top_def empty_list)

lemma tail_list: "is_list s h xs \<Longrightarrow> cc_list_tail s h = Some (if xs = [] then None else Some (last xs))"
  using is_list_pv_head [of s h xs] is_list_head_dom [of s h xs]
  by (cases xs rule: rev_cases) (simp_all add: cc_list_tail_def empty_list)

lemma pop_list_Cons:
  assumes L: "is_list s h (x # xs)"
  obtains s' where "cc_list_pop s h = Some (Some x, s')" "is_list s' h xs" "dom s' = dom s"
    "\<And>a. a \<notin> insert h (set xs) \<Longrightarrow> s' a = s a"
proof (rule del_list [of s h "[]" x xs])
  show "is_list s h ([] @ x # xs)" using L by simp
next
  fix s' assume "cc_list_del s x = Some s'" "is_list s' h ([] @ xs)" "dom s' = dom s"
    "\<And>a. a \<notin> insert h (set ([] @ xs)) \<Longrightarrow> s' a = s a"
  then show thesis
    using is_list_nx_head [OF L] is_list_head_dom [OF L]
    by (intro that [of s']) (simp_all add: cc_list_pop_def empty_list [OF L])
qed

text \<open>Sewing the head and the entries of one ring into the end, or the start, of another.\<close>

lemma relink_append:
  assumes "is_list s t xs" "is_list s f ys" "insert t (set xs) \<inter> insert f (set ys) = {}"
    and "nx s' = (nx s)(last (f # ys) := Some t, last (t # xs) := Some f)"
    and "pv s' = (pv s)(t := Some (last (f # ys)), f := Some (last (t # xs)))"
  shows "is_list s' t (xs @ f # ys)"
  using assms
  by (cases xs rule: rev_cases; cases ys rule: rev_cases) (auto simp: is_list_def dseg_append)

lemma relink_prepend:
  assumes "is_list s t xs" "is_list s f ys" "insert t (set xs) \<inter> insert f (set ys) = {}"
    and "nx s' = (nx s)(t := Some f, last (f # ys) := Some (hd (xs @ [t])))"
    and "pv s' = (pv s)(f := Some t, hd (xs @ [t]) := Some (last (f # ys)))"
  shows "is_list s' t (f # ys @ xs)"
  using assms
  by (cases xs; cases ys rule: rev_cases) (auto simp: is_list_def dseg_append)

text \<open>
  Once the rings are sewn together, the head of the emptied list is an entry like any
  other: it is unlinked and initialised again.
\<close>

lemma unlink_head:
  assumes "is_list s t (us @ f # vs)"
  obtains s' where "(do { s \<leftarrow> cc_list_del s f; cc_list_head_init s f }) = Some s'"
    "is_list s' t (us @ vs)" "is_list s' f []" "dom s' = dom s"
    "\<And>a. a \<notin> insert t (insert f (set (us @ vs))) \<Longrightarrow> s' a = s a"
proof (rule del_list [OF assms])
  fix s1 assume 1: "cc_list_del s f = Some s1" "is_list s1 t (us @ vs)" "dom s1 = dom s"
    "\<And>a. a \<notin> insert t (set (us @ vs)) \<Longrightarrow> s1 a = s a"
  have "f \<in> dom s1" using is_list_elem_dom [OF assms, of f] 1 by simp
  have f: "f \<notin> insert t (set (us @ vs))" using is_list_distinct [OF assms] by auto
  show thesis
  proof (rule head_init_list [OF \<open>f \<in> dom s1\<close>])
    fix s2 assume 2: "cc_list_head_init s1 f = Some s2" "is_list s2 f []" "dom s2 = dom s1"
      "\<And>a. a \<noteq> f \<Longrightarrow> s2 a = s1 a"
    have "is_list s2 t (us @ vs) = is_list s1 t (us @ vs)"
      using f 2(4) by (intro is_list_frame) metis
    with 1 2 show thesis by (intro that [of s2]) simp_all
  qed
qed

lemma append_list:
  assumes T: "is_list s t xs" and F: "is_list s f ys"
    and d: "insert t (set xs) \<inter> insert f (set ys) = {}"
  obtains s' where "cc_list_append_list s t f = Some s'" "is_list s' t (xs @ ys)" "is_list s' f []"
    "dom s' = dom s" "\<And>a. a \<notin> insert t (set xs) \<union> insert f (set ys) \<Longrightarrow> s' a = s a"
proof -
  let ?lf = "last (f # ys)" let ?lt = "last (t # xs)"
  define s1 where
    "s1 = upd_prev (upd_next (upd_next (upd_prev s t (Some ?lf)) ?lf (Some t)) ?lt (Some f)) f (Some ?lt)"
  have l: "pv s f = Some ?lf" "pv s t = Some ?lt" "f \<in> dom s" "t \<in> dom s" "?lf \<in> dom s" "?lt \<in> dom s"
    using is_list_pv_head [OF F] is_list_pv_head [OF T] is_list_head_dom [OF F] is_list_head_dom [OF T]
      is_list_last_dom [of s f ys "[]"] is_list_last_dom [of s t xs "[]"] F T
    by (simp_all del: last.simps)
  have m: "?lf \<in> insert f (set ys)" "?lt \<in> insert t (set xs)"
    using last_in_set [of "f # ys"] last_in_set [of "t # xs"] by simp_all
  have ring: "is_list s1 t (xs @ f # ys)"
    using l by (intro relink_append [OF T F d]) (simp_all add: s1_def del: last.simps)
  have fr: "s1 a = s a" if "a \<notin> insert t (set xs) \<union> insert f (set ys)" for a
  proof -
    have "a \<noteq> ?lf" "a \<noteq> ?lt" using that m by (metis UnI1 UnI2)+
    with that show ?thesis by (simp add: s1_def del: last.simps)
  qed
  have sew: "cc_list_append_list s t f = do { s \<leftarrow> cc_list_del s1 f; cc_list_head_init s f }"
    using l by (simp add: cc_list_append_list_def s1_def del: last.simps)
  show thesis
  proof (rule unlink_head [OF ring])
    fix s2 assume "(do { s \<leftarrow> cc_list_del s1 f; cc_list_head_init s f }) = Some s2"
      "is_list s2 t (xs @ ys)" "is_list s2 f []" "dom s2 = dom s1"
      "\<And>a. a \<notin> insert t (insert f (set (xs @ ys))) \<Longrightarrow> s2 a = s1 a"
    with sew fr show thesis by (intro that [of s2]) (simp_all add: s1_def)
  qed
qed

lemma prepend_list:
  assumes T: "is_list s t xs" and F: "is_list s f ys"
    and d: "insert t (set xs) \<inter> insert f (set ys) = {}"
  obtains s' where "cc_list_prepend_list s t f = Some s'" "is_list s' t (ys @ xs)" "is_list s' f []"
    "dom s' = dom s" "\<And>a. a \<notin> insert t (set xs) \<union> insert f (set ys) \<Longrightarrow> s' a = s a"
proof -
  let ?lf = "last (f # ys)" let ?h = "hd (xs @ [t])"
  define s1 where
    "s1 = upd_next (upd_prev (upd_prev (upd_next s t (Some f)) f (Some t)) ?h (Some ?lf)) ?lf (Some ?h)"
  have l: "pv s f = Some ?lf" "nx s t = Some ?h" "f \<in> dom s" "t \<in> dom s" "?lf \<in> dom s" "?h \<in> dom s"
    using is_list_pv_head [OF F] is_list_nx_head [OF T] is_list_head_dom [OF F] is_list_head_dom [OF T]
      is_list_last_dom [of s f ys "[]"] is_list_first_dom [of s t "[]" xs] F T
    by (simp_all del: last.simps)
  have m: "?lf \<in> insert f (set ys)" "?h \<in> insert t (set xs)"
    using last_in_set [of "f # ys"] hd_in_set [of "xs @ [t]"] by simp_all
  have ring: "is_list s1 t ([] @ f # ys @ xs)"
    using l relink_prepend [OF T F d, of s1] by (simp add: s1_def fun_upd_twist del: last.simps)
  have fr: "s1 a = s a" if "a \<notin> insert t (set xs) \<union> insert f (set ys)" for a
  proof -
    have "a \<noteq> ?lf" "a \<noteq> ?h" using that m by (metis UnI1 UnI2)+
    with that show ?thesis by (simp add: s1_def del: last.simps)
  qed
  have sew: "cc_list_prepend_list s t f = do { s \<leftarrow> cc_list_del s1 f; cc_list_head_init s f }"
    using l by (simp add: cc_list_prepend_list_def s1_def del: last.simps)
  show thesis
  proof (rule unlink_head [OF ring])
    fix s2 assume "(do { s \<leftarrow> cc_list_del s1 f; cc_list_head_init s f }) = Some s2"
      "is_list s2 t ([] @ ys @ xs)" "is_list s2 f []" "dom s2 = dom s1"
      "\<And>a. a \<notin> insert t (insert f (set ([] @ ys @ xs))) \<Longrightarrow> s2 a = s1 a"
    with sew fr show thesis by (intro that [of s2]) (simp_all add: s1_def)
  qed
qed

subsection \<open>Properties\<close>

text \<open>C20: \<open>cc_list_add_tail\<close> on a consistent ring, with a live node
  that is not in it, succeeds, appends the node to the sequence the ring holds, and writes
  to no node outside the ring and the new node.\<close>

theorem cc_list_add_tail_refines:
  assumes "is_list s h xs" "n \<in> dom s" "n \<notin> insert h (set xs)"
  shows "\<exists>s'. cc_list_add_tail s h n = Some s' \<and> is_list s' h (xs @ [n]) \<and> dom s' = dom s \<and>
    (\<forall>a. a \<notin> insert n (insert h (set xs)) \<longrightarrow> s' a = s a)"
  using assms by (rule add_tail_list) blast

text \<open>C19: \<open>cc_list_del_from\<close> of an entry of a consistent ring passes
  its assertion, removes exactly that entry and writes only to the remaining ring.\<close>

theorem cc_list_del_from_refines:
  assumes "is_list s h (ys @ n # zs)"
  shows "\<exists>s'. cc_list_del_from s h n = Some s' \<and> is_list s' h (ys @ zs) \<and> dom s' = dom s \<and>
    (\<forall>a. a \<notin> insert h (set (ys @ zs)) \<longrightarrow> s' a = s a)"
  using assms by (rule del_from_list) blast

text \<open>\<open>cc_list_append_list\<close> moves all entries of one ring behind
  those of a disjoint one and leaves the first one empty.\<close>

theorem cc_list_append_list_refines:
  assumes "is_list s t xs" "is_list s f ys" "insert t (set xs) \<inter> insert f (set ys) = {}"
  shows "\<exists>s'. cc_list_append_list s t f = Some s' \<and> is_list s' t (xs @ ys) \<and> is_list s' f [] \<and>
    dom s' = dom s"
  using assms by (rule append_list) blast

text \<open>C30: \<open>list_check\<close> answers with its argument, and not with NULL,
  exactly when the store holds a consistent ring at that head.\<close>

theorem list_check_accepts_rings:
  "list_check s h b = Some (Some h) \<longleftrightarrow> (\<exists>xs. is_list s h xs)"
proof -
  have "list_check s h b = Some (Some h) \<longleftrightarrow> cc_list_check_node s h b = Some (Some h)"
  proof (cases "cc_list_check_node s h b")
    case (Some r)
    then show ?thesis using check_node_result [of s h b]
      by (cases r) (auto simp: list_check_def)
  qed (simp add: list_check_def)
  then show ?thesis by (simp only: check_node_ring)
qed

text \<open>C32: without an abort string \<open>list_check\<close> returns on every finite store
  whose \<open>next\<close> links lead to live nodes, corrupt or not: its loop cannot run forever.\<close>

theorem list_check_returns:
  assumes "closed_store s" "h \<in> dom s"
  shows "\<exists>r. list_check s h False = Some r"
proof -
  from check_node_returns [OF assms] obtain r where "cc_list_check_node s h False = Some r" ..
  then show ?thesis by (cases r) (simp_all add: list_check_def)
qed

text \<open>Concrete rings on which the properties above are applied.\<close>

definition ring01 :: "nat store" where
  "ring01 = [0 \<mapsto> \<lparr>nxt = Some 1, prv = Some 1\<rparr>, 1 \<mapsto> \<lparr>nxt = Some 0, prv = Some 0\<rparr>,
     2 \<mapsto> \<lparr>nxt = None, prv = None\<rparr>, 3 \<mapsto> \<lparr>nxt = Some 4, prv = Some 4\<rparr>,
     4 \<mapsto> \<lparr>nxt = Some 3, prv = Some 3\<rparr>]"

lemma ring01_lists: "is_list ring01 0 [1]" "is_list ring01 3 [4]" "2 \<in> dom ring01"
  by (simp_all add: is_list_def nx_def pv_def ring01_def)

definition bad_ring :: "nat store" where
  "bad_ring = [0 \<mapsto> \<lparr>nxt = Some 1, prv = Some 2\<rparr>, 1 \<mapsto> \<lparr>nxt = Some 2, prv = Some 0\<rparr>,
     2 \<mapsto> \<lparr>nxt = Some 1, prv = Some 1\<rparr>]"

lemma bad_ring_closed: "closed_store bad_ring" "0 \<in> dom bad_ring"
  by (auto simp: closed_store_def nx_def bad_ring_def)

theorem cc_list_add_tail_refines_witness:
  "\<exists>s'. cc_list_add_tail ring01 0 2 = Some s' \<and> is_list s' 0 [1, 2]"
  using cc_list_add_tail_refines [OF ring01_lists(1) ring01_lists(3)] by auto

theorem cc_list_del_from_refines_witness:
  "\<exists>s'. cc_list_del_from ring01 0 1 = Some s' \<and> is_list s' 0 []"
  using cc_list_del_from_refines [of ring01 0 "[]" 1 "[]"] ring01_lists(1) by auto

theorem cc_list_append_list_refines_witness:
  "\<exists>s'. cc_list_append_list ring01 0 3 = Some s' \<and> is_list s' 0 [1, 4] \<and> is_list s' 3 []"
  using cc_list_append_list_refines [OF ring01_lists(1, 2)] by auto

theorem list_check_returns_witness: "\<exists>r. list_check bad_ring 0 False = Some r"
  by (rule list_check_returns [OF bad_ring_closed])

end
