(* ===== verification/List_Families.thy ===== *)
theory List_Families
  imports Cc_List
begin

text \<open>
  The interface between the linked lists and the node and ESSID tables, which keep many
  lists in one store: families of lists with disjoint footprints, the laws the tables rely
  on as a locale, the facts they need proved once inside it, and its interpretation on the
  list operations of \<open>cc_list.h\<close>.
\<close>

subsection \<open>Families of lists\<close>

text \<open>
  The library keeps many lists in one store.  A family \<open>L\<close> says which heads there are and
  what each list holds; the footprints of different lists are disjoint.
\<close>

type_synonym 'a family = "'a \<rightharpoonup> 'a list"

definition foot :: "'a family \<Rightarrow> 'a set" where
  "foot L = {a. \<exists>h xs. L h = Some xs \<and> a \<in> insert h (set xs)}"

definition apart :: "'a family \<Rightarrow> bool" where
  "apart L \<longleftrightarrow> (\<forall>h xs k ys. L h = Some xs \<longrightarrow> L k = Some ys \<longrightarrow> h \<noteq> k \<longrightarrow>
     insert h (set xs) \<inter> insert k (set ys) = {})"

lemma apartD: "apart L \<Longrightarrow> L h = Some xs \<Longrightarrow> L k = Some ys \<Longrightarrow> h \<noteq> k \<Longrightarrow>
    insert h (set xs) \<inter> insert k (set ys) = {}"
  unfolding apart_def by blast

lemma footI: "L h = Some xs \<Longrightarrow> a \<in> insert h (set xs) \<Longrightarrow> a \<in> foot L"
  by (auto simp: foot_def)

lemma foot_upd_subset: "foot (L(h \<mapsto> xs)) \<subseteq> insert h (set xs) \<union> foot L"
  by (auto simp: foot_def split: if_splits)

lemma apart_upd:
  assumes "apart L" "\<And>k ys. L k = Some ys \<Longrightarrow> k \<noteq> h \<Longrightarrow> insert h (set xs) \<inter> insert k (set ys) = {}"
  shows "apart (L(h \<mapsto> xs))"
  unfolding apart_def
proof (intro allI impI)
  fix g us k vs
  assume g: "(L(h \<mapsto> xs)) g = Some us" and k: "(L(h \<mapsto> xs)) k = Some vs" and "g \<noteq> k"
  show "insert g (set us) \<inter> insert k (set vs) = {}"
  proof (cases "g = h")
    case True
    with g k \<open>g \<noteq> k\<close> have "us = xs" "L k = Some vs" "k \<noteq> h" by auto
    with assms(2) True show ?thesis by simp
  next
    case False
    with g have lg: "L g = Some us" by simp
    show ?thesis
    proof (cases "k = h")
      case True
      with k have "vs = xs" by simp
      with assms(2) [OF lg False] True show ?thesis by (simp add: Int_commute)
    next
      case False
      with k have "L k = Some vs" by simp
      from assms(1) lg this \<open>g \<noteq> k\<close> show ?thesis by (rule apartD)
    qed
  qed
qed

definition family :: "(('a \<rightharpoonup> 'c) \<Rightarrow> 'a \<Rightarrow> 'a list \<Rightarrow> bool) \<Rightarrow> ('a \<rightharpoonup> 'c) \<Rightarrow> 'a family \<Rightarrow> bool" where
  "family rep s L \<longleftrightarrow> apart L \<and> (\<forall>h xs. L h = Some xs \<longrightarrow> rep s h xs)"

text \<open>
  What a client of linked lists relies on: the operations it calls, and what each of them
  does to the list it is given and leaves alone elsewhere.
\<close>

locale linked_lists =
  fixes head_init :: "('a \<rightharpoonup> 'c) \<Rightarrow> 'a \<Rightarrow> ('a \<rightharpoonup> 'c) option"
    and add_tail :: "('a \<rightharpoonup> 'c) \<Rightarrow> 'a \<Rightarrow> 'a \<Rightarrow> ('a \<rightharpoonup> 'c) option"
    and del_from :: "('a \<rightharpoonup> 'c) \<Rightarrow> 'a \<Rightarrow> 'a \<Rightarrow> ('a \<rightharpoonup> 'c) option"
    and rep :: "('a \<rightharpoonup> 'c) \<Rightarrow> 'a \<Rightarrow> 'a list \<Rightarrow> bool"
  assumes rep_distinct: "rep s h xs \<Longrightarrow> distinct (h # xs)"
    and rep_live: "rep s h xs \<Longrightarrow> insert h (set xs) \<subseteq> dom s"
    and rep_frame: "(\<And>a. a \<in> insert h (set xs) \<Longrightarrow> s' a = s a) \<Longrightarrow> rep s h xs \<Longrightarrow> rep s' h xs"
    and head_init_law: "h \<in> dom s \<Longrightarrow>
      \<exists>s'. head_init s h = Some s' \<and> rep s' h [] \<and> dom s' = dom s \<and> (\<forall>a. a \<noteq> h \<longrightarrow> s' a = s a)"
    and add_tail_law: "rep s h xs \<Longrightarrow> n \<in> dom s \<Longrightarrow> n \<notin> insert h (set xs) \<Longrightarrow>
      \<exists>s'. add_tail s h n = Some s' \<and> rep s' h (xs @ [n]) \<and> dom s' = dom s \<and>
        (\<forall>a. a \<notin> insert n (insert h (set xs)) \<longrightarrow> s' a = s a)"
    and del_from_law: "rep s h (ys @ n # zs) \<Longrightarrow>
      \<exists>s'. del_from s h n = Some s' \<and> rep s' h (ys @ zs) \<and> dom s' = dom s \<and>
        (\<forall>a. a \<notin> insert h (set (ys @ zs)) \<longrightarrow> s' a = s a)"
begin

lemma family_rep: "family rep s L \<Longrightarrow> L h = Some xs \<Longrightarrow> rep s h xs"
  by (simp add: family_def)

lemma family_live: "family rep s L \<Longrightarrow> a \<in> foot L \<Longrightarrow> a \<in> dom s"
proof -
  assume "family rep s L" "a \<in> foot L"
  then obtain h xs where "rep s h xs" "a \<in> insert h (set xs)"
    unfolding family_def foot_def by blast
  then show "a \<in> dom s" using rep_live by (metis subsetD)
qed

lemma family_frame:
  assumes "family rep s L" "\<And>a. a \<in> foot L \<Longrightarrow> s' a = s a"
  shows "family rep s' L"
  unfolding family_def
proof (intro conjI allI impI)
  show "apart L" using assms(1) by (simp add: family_def)
next
  fix h xs assume "L h = Some xs"
  then show "rep s' h xs"
    using assms by (intro rep_frame [of h xs s' s] assms(2)) (auto simp: family_def intro: footI)
qed

text \<open>Changing one list of a family, when the change stays clear of the others.\<close>

lemma family_upd:
  assumes F: "family rep s L" and r: "rep s' h xs"
    and fr: "\<And>k ys a. L k = Some ys \<Longrightarrow> k \<noteq> h \<Longrightarrow> a \<in> insert k (set ys) \<Longrightarrow> s' a = s a"
    and ap: "\<And>k ys. L k = Some ys \<Longrightarrow> k \<noteq> h \<Longrightarrow> insert h (set xs) \<inter> insert k (set ys) = {}"
  shows "family rep s' (L(h \<mapsto> xs))"
  unfolding family_def
proof (intro conjI allI impI)
  show "apart (L(h \<mapsto> xs))" using F ap by (intro apart_upd) (auto simp: family_def)
next
  fix k ys assume k: "(L(h \<mapsto> xs)) k = Some ys"
  show "rep s' k ys"
  proof (cases "k = h")
    case True
    with k r show ?thesis by simp
  next
    case False
    with k have "L k = Some ys" by simp
    with False F fr show ?thesis by (intro rep_frame [of k ys s' s]) (auto simp: family_def)
  qed
qed

lemma family_init:
  assumes F: "family rep s L" and h: "h \<in> dom s" "h \<notin> foot L"
  shows "\<exists>s'. head_init s h = Some s' \<and> family rep s' (L(h \<mapsto> [])) \<and> dom s' = dom s"
proof -
  from head_init_law [OF h(1)] obtain s' where s': "head_init s h = Some s'" "rep s' h []"
    "dom s' = dom s" "\<forall>a. a \<noteq> h \<longrightarrow> s' a = s a" by blast
  have "family rep s' (L(h \<mapsto> []))"
    using F s'(2)
  proof (rule family_upd)
    fix k ys a assume "L k = Some ys" "a \<in> insert k (set ys)"
    then have "a \<noteq> h" using h footI by metis
    then show "s' a = s a" using s'(4) by simp
  next
    fix k ys assume "L k = Some ys"
    then have "h \<notin> insert k (set ys)" using h footI by metis
    then show "insert h (set []) \<inter> insert k (set ys) = {}" by simp
  qed
  with s' show ?thesis by blast
qed

lemma family_add_tail:
  assumes F: "family rep s L" and h: "L h = Some xs" and n: "n \<in> dom s" "n \<notin> foot L"
  shows "\<exists>s'. add_tail s h n = Some s' \<and> family rep s' (L(h \<mapsto> xs @ [n])) \<and> dom s' = dom s"
proof -
  have nf: "n \<notin> insert k (set ys)" if "L k = Some ys" for k ys using that n footI by metis
  from add_tail_law [OF family_rep [OF F h] n(1) nf [OF h]] obtain s' where
    s': "add_tail s h n = Some s'" "rep s' h (xs @ [n])" "dom s' = dom s"
      "\<forall>a. a \<notin> insert n (insert h (set xs)) \<longrightarrow> s' a = s a" by blast
  have ap: "insert h (set xs) \<inter> insert k (set ys) = {}" if "L k = Some ys" "k \<noteq> h" for k ys
    using F h that by (intro apartD [of L]) (auto simp: family_def)
  have "family rep s' (L(h \<mapsto> xs @ [n]))"
    using F s'(2)
  proof (rule family_upd)
    fix k ys a assume k: "L k = Some ys" "k \<noteq> h" and a: "a \<in> insert k (set ys)"
    from a nf [OF k(1)] ap [OF k] have "a \<notin> insert n (insert h (set xs))" by blast
    then show "s' a = s a" using s'(4) by blast
  next
    fix k ys assume k: "L k = Some ys" "k \<noteq> h"
    from nf [OF k(1)] ap [OF k] show "insert h (set (xs @ [n])) \<inter> insert k (set ys) = {}" by auto
  qed
  with s' show ?thesis by blast
qed

lemma family_del_from:
  assumes F: "family rep s L" and h: "L h = Some (ys @ n # zs)"
  shows "\<exists>s'. del_from s h n = Some s' \<and> family rep s' (L(h \<mapsto> ys @ zs)) \<and> dom s' = dom s"
proof -
  from del_from_law [OF family_rep [OF F h]] obtain s' where
    s': "del_from s h n = Some s'" "rep s' h (ys @ zs)" "dom s' = dom s"
      "\<forall>a. a \<notin> insert h (set (ys @ zs)) \<longrightarrow> s' a = s a" by blast
  have ap: "insert h (set (ys @ n # zs)) \<inter> insert k (set us) = {}" if "L k = Some us" "k \<noteq> h" for k us
    using F h that by (intro apartD [of L]) (auto simp: family_def)
  have "family rep s' (L(h \<mapsto> ys @ zs))"
    using F s'(2)
  proof (rule family_upd)
    fix k us a assume k: "L k = Some us" "k \<noteq> h" and a: "a \<in> insert k (set us)"
    from a ap [OF k] have "a \<notin> insert h (set (ys @ zs))" by auto
    then show "s' a = s a" using s'(4) by blast
  next
    fix k us assume "L k = Some us" "k \<noteq> h"
    from ap [OF this] show "insert h (set (ys @ zs)) \<inter> insert k (set us) = {}" by auto
  qed
  with s' show ?thesis by blast
qed

lemma family_distinct: "family rep s L \<Longrightarrow> L h = Some xs \<Longrightarrow> distinct xs \<and> h \<notin> set xs"
  using rep_distinct [of s h xs] family_rep [of s L h xs] by simp

text \<open>Membership decides the list: a node is an entry of at most one list.\<close>

lemma family_member_unique:
  assumes "family rep s L" "L h = Some xs" "L k = Some ys" "a \<in> set xs" "a \<in> set ys"
  shows "h = k"
  using assms apartD [of L h xs k ys] by (auto simp: family_def)

lemma family_forget: "family rep s L \<Longrightarrow> family rep s (L(h := None))"
  by (auto simp: family_def apart_def)

end

interpretation cc: linked_lists cc_list_head_init cc_list_add_tail cc_list_del_from is_list
proof unfold_locales
  fix s s' :: "'a store" and h n :: 'a and xs ys zs :: "'a list"
  show "is_list s h xs \<Longrightarrow> distinct (h # xs)" by (simp add: is_list_def)
  show "is_list s h xs \<Longrightarrow> insert h (set xs) \<subseteq> dom s" by (rule is_list_dom)
  show "(\<And>a. a \<in> insert h (set xs) \<Longrightarrow> s' a = s a) \<Longrightarrow> is_list s h xs \<Longrightarrow> is_list s' h xs"
    using is_list_frame [of h xs s' s] by blast
  show "h \<in> dom s \<Longrightarrow> \<exists>s'. cc_list_head_init s h = Some s' \<and> is_list s' h [] \<and> dom s' = dom s \<and>
      (\<forall>a. a \<noteq> h \<longrightarrow> s' a = s a)"
    by (erule head_init_list) blast
  show "is_list s h xs \<Longrightarrow> n \<in> dom s \<Longrightarrow> n \<notin> insert h (set xs) \<Longrightarrow>
      \<exists>s'. cc_list_add_tail s h n = Some s' \<and> is_list s' h (xs @ [n]) \<and> dom s' = dom s \<and>
        (\<forall>a. a \<notin> insert n (insert h (set xs)) \<longrightarrow> s' a = s a)"
    by (erule (2) add_tail_list) blast
  show "is_list s h (ys @ n # zs) \<Longrightarrow>
      \<exists>s'. cc_list_del_from s h n = Some s' \<and> is_list s' h (ys @ zs) \<and> dom s' = dom s \<and>
        (\<forall>a. a \<notin> insert h (set (ys @ zs)) \<longrightarrow> s' a = s a)"
    by (erule del_from_list) blast
qed

end
