(* ===== verification/List_Offsets.thy ===== *)
theory List_Offsets
  imports Cc_List
begin

text \<open>
  \<open>include/uwifi/cc_container_of.h\<close> and the loops of \<open>include/uwifi/cc_list.h\<close> as the macros are
  written: over pointers to the containing structures, from which the address of the embedded list
  node is computed by an offset.  An address is a word of 64 bits, and NULL is 0.  \<open>Cc_List\<close>
  has the loops over the addresses of the list nodes; here they are shown to be the same.
\<close>

subsection \<open>Pointers and offsets\<close>

definition container_of :: "u64 \<Rightarrow> u64 \<Rightarrow> u64" where
  "container_of member_ptr off = member_ptr - off"

definition ptr_word :: "u64 option \<Rightarrow> u64" where
  "ptr_word p = (case p of None \<Rightarrow> 0 | Some a \<Rightarrow> a)"

definition word_ptr :: "u64 \<Rightarrow> u64 option" where
  "word_ptr w = (if w = 0 then None else Some w)"

definition cc_list_node_to_off :: "u64 option \<Rightarrow> u64 \<Rightarrow> u64" where
  "cc_list_node_to_off node off = ptr_word node - off"

definition cc_list_node_from_off :: "u64 \<Rightarrow> u64 \<Rightarrow> u64 option" where
  "cc_list_node_from_off ptr off = word_ptr (ptr + off)"

lemma from_to_off: "p \<noteq> Some 0 \<Longrightarrow> cc_list_node_from_off (cc_list_node_to_off p off) off = p"
  by (cases p) (simp_all add: cc_list_node_from_off_def cc_list_node_to_off_def ptr_word_def word_ptr_def)

lemma to_off_container: "cc_list_node_to_off (Some a) off = container_of a off"
  by (simp add: cc_list_node_to_off_def ptr_word_def container_of_def)

subsection \<open>The loops\<close>

partial_function (option) each_off_from ::
    "u64 store \<Rightarrow> (u64 \<Rightarrow> 's \<Rightarrow> 's option) \<Rightarrow> u64 \<Rightarrow> u64 \<Rightarrow> u64 \<Rightarrow> 's \<Rightarrow> 's option" where
  "each_off_from s body h off i st =
    (if cc_list_node_from_off i off = Some h then Some st
     else do {
       st \<leftarrow> body i st;
       n \<leftarrow> get_next s (cc_list_node_from_off i off);
       each_off_from s body h off (cc_list_node_to_off n off) st })"

definition cc_list_for_each_off ::
    "u64 store \<Rightarrow> (u64 \<Rightarrow> 's \<Rightarrow> 's option) \<Rightarrow> u64 \<Rightarrow> u64 \<Rightarrow> 's \<Rightarrow> 's option" where
  "cc_list_for_each_off s body h off st = do {
     n \<leftarrow> get_next s (Some h);
     each_off_from s body h off (cc_list_node_to_off n off) st }"

text \<open>The body may change the links, which \<open>lnk\<close> finds in the state.\<close>

partial_function (option) safe_off_from ::
    "('s \<Rightarrow> u64 store) \<Rightarrow> (u64 \<Rightarrow> 's \<Rightarrow> 's option) \<Rightarrow> u64 \<Rightarrow> u64 \<Rightarrow> u64 \<Rightarrow> u64 \<Rightarrow> 's \<Rightarrow> 's option" where
  "safe_off_from lnk body h off i i' st =
    (if cc_list_node_from_off i off = Some h then Some st
     else do {
       st \<leftarrow> body i st;
       n \<leftarrow> get_next (lnk st) (cc_list_node_from_off i' off);
       safe_off_from lnk body h off i' (cc_list_node_to_off n off) st })"

definition cc_list_for_each_safe_off ::
    "('s \<Rightarrow> u64 store) \<Rightarrow> (u64 \<Rightarrow> 's \<Rightarrow> 's option) \<Rightarrow> u64 \<Rightarrow> u64 \<Rightarrow> 's \<Rightarrow> 's option" where
  "cc_list_for_each_safe_off lnk body h off st = do {
     n \<leftarrow> get_next (lnk st) (Some h);
     let i = cc_list_node_to_off n off;
     n \<leftarrow> get_next (lnk st) (cc_list_node_from_off i off);
     safe_off_from lnk body h off i (cc_list_node_to_off n off) st }"

subsection \<open>The loops over containers are those over list nodes\<close>

text \<open>
  NULL is never the address of live memory.  A pointer of the store may then be anything else,
  NULL included: both loops fail on it.
\<close>

lemma option_eqI: "(\<And>r. x = Some r \<Longrightarrow> y = Some r) \<Longrightarrow> (\<And>r. y = Some r \<Longrightarrow> x = Some r) \<Longrightarrow> x = y"
  by (cases x; cases y) auto

lemma get_next_null: "s 0 = None \<Longrightarrow> get_next s (Some 0) = None" "get_next s None = None"
  by (simp_all add: get_next_def)

lemma get_next_off:
  assumes "s 0 = None"
  shows "get_next s (cc_list_node_from_off (cc_list_node_to_off p off) off) = get_next s p"
  using assms from_to_off [of p off]
  by (cases "p = Some 0") (simp_all add: get_next_null cc_list_node_from_off_def cc_list_node_to_off_def ptr_word_def word_ptr_def)

lemma get_next_live: "s 0 = None \<Longrightarrow> get_next s p = Some n \<Longrightarrow> \<exists>a. p = Some a \<and> a \<noteq> 0"
  by (cases p) (auto simp: get_next_def bind_conv)

lemma from_off_head: "h \<noteq> 0 \<Longrightarrow> cc_list_node_from_off (cc_list_node_to_off p off) off = Some h \<longleftrightarrow> p = Some h"
  by (cases p) (auto simp: cc_list_node_from_off_def cc_list_node_to_off_def ptr_word_def word_ptr_def)

lemma each_off_from_to:
  assumes n0: "s 0 = None" and h: "h \<noteq> 0" and run: "each_off_from s body h off i st = Some r" and i: "i = cc_list_node_to_off p off"
  shows "each_from s (\<lambda>a. body (container_of a off)) h p st = Some r"
proof -
  let ?P = "\<lambda>s' body' h' off' i st r. s' = s \<longrightarrow> body' = body \<longrightarrow> h' = h \<longrightarrow> off' = off \<longrightarrow>
    (\<forall>p. i = cc_list_node_to_off p off \<longrightarrow> each_from s (\<lambda>a. body (container_of a off)) h p st = Some r)"
  have "?P s body h off i st r"
  proof (rule each_off_from.raw_induct [where P = ?P, OF _ run])
    fix f s' body' h' off' i st r
    assume IH: "\<And>s' body' h' off' i st r. f s' body' h' off' i st = Some r \<Longrightarrow> ?P s' body' h' off' i st r"
      and step: "(if cc_list_node_from_off i off' = Some h' then Some st
       else do {
         st \<leftarrow> body' i st;
         n \<leftarrow> get_next s' (cc_list_node_from_off i off');
         f s' body' h' off' (cc_list_node_to_off n off') st }) = Some r"
    show "?P s' body' h' off' i st r"
    proof (intro impI allI)
      fix p assume a: "s' = s" "body' = body" "h' = h" "off' = off" "i = cc_list_node_to_off p off"
      show "each_from s (\<lambda>a. body (container_of a off)) h p st = Some r"
      proof (cases "p = Some h")
        case True
        with step a from_off_head [OF h, of p off] show ?thesis by (subst each_from.simps) simp
      next
        case False
        with step a from_off_head [OF h, of p off] obtain st' n where
          b: "body i st = Some st'" "get_next s p = Some n" "f s body h off (cc_list_node_to_off n off) st' = Some r"
          by (auto simp: bind_conv get_next_off [where s = s, OF n0])
        from get_next_live [where s = s, OF n0 b(2)] obtain a where "p = Some a" by blast
        with False IH [OF b(3)] b(1,2) a(5) show ?thesis by (subst each_from.simps) (simp add: to_off_container)
      qed
    qed
  qed
  with i show ?thesis by simp
qed

lemma each_from_to_off:
  assumes n0: "s 0 = None" and h: "h \<noteq> 0" and run: "each_from s (\<lambda>a. body (container_of a off)) h p st = Some r"
  shows "each_off_from s body h off (cc_list_node_to_off p off) st = Some r"
proof -
  let ?P = "\<lambda>s' body' h' p st r. s' = s \<longrightarrow> body' = (\<lambda>a. body (container_of a off)) \<longrightarrow> h' = h \<longrightarrow>
    each_off_from s body h off (cc_list_node_to_off p off) st = Some r"
  have "?P s (\<lambda>a. body (container_of a off)) h p st r"
  proof (rule each_from.raw_induct [where P = ?P, OF _ run])
    fix f s' body' h' p st r
    assume IH: "\<And>s' body' h' p st r. f s' body' h' p st = Some r \<Longrightarrow> ?P s' body' h' p st r"
      and step: "do {
        a \<leftarrow> p;
        if a = h' then Some st
        else do {
          st \<leftarrow> body' a st;
          n \<leftarrow> get_next s' (Some a);
          f s' body' h' n st } } = Some r"
    show "?P s' body' h' p st r"
    proof (intro impI)
      assume a: "s' = s" "body' = (\<lambda>a. body (container_of a off))" "h' = h"
      from step obtain x where x: "p = Some x" by (auto simp: bind_conv)
      show "each_off_from s body h off (cc_list_node_to_off p off) st = Some r"
      proof (cases "x = h")
        case True
        with step a x from_off_head [OF h, of p off] show ?thesis by (subst each_off_from.simps) simp
      next
        case False
        with step a x obtain st' n where
          b: "body (container_of x off) st = Some st'" "get_next s p = Some n" "f s body' h n st' = Some r"
          by (auto simp: bind_conv)
        from False x IH [OF b(3)] a b(1,2) from_off_head [OF h, of p off] show ?thesis
          by (subst each_off_from.simps) (simp add: to_off_container [symmetric] get_next_off [where s = s, OF n0])
      qed
    qed
  qed
  then show ?thesis by simp
qed

lemma safe_off_from_to:
  assumes n0: "lnk st 0 = None" and keep: "\<And>a st st'. lnk st 0 = None \<Longrightarrow> body a st = Some st' \<Longrightarrow> lnk st' 0 = None"
    and h: "h \<noteq> 0" and run: "safe_off_from lnk body h off i i' st = Some r"
    and i: "i = cc_list_node_to_off (Some a) off" "i' = cc_list_node_to_off q off" "a \<noteq> 0"
  shows "safe_from lnk (\<lambda>a. body (container_of a off)) h (Some a) q st = Some r"
proof -
  let ?P = "\<lambda>lnk' body' h' off' i i' st r. lnk' = lnk \<longrightarrow> body' = body \<longrightarrow> h' = h \<longrightarrow> off' = off \<longrightarrow> lnk st 0 = None \<longrightarrow>
    (\<forall>a q. i = cc_list_node_to_off (Some a) off \<longrightarrow> i' = cc_list_node_to_off q off \<longrightarrow> a \<noteq> 0 \<longrightarrow>
      safe_from lnk (\<lambda>a. body (container_of a off)) h (Some a) q st = Some r)"
  have "?P lnk body h off i i' st r"
  proof (rule safe_off_from.raw_induct [where P = ?P, OF _ run])
    fix f lnk' body' h' off' i i' st r
    assume IH: "\<And>lnk' body' h' off' i i' st r. f lnk' body' h' off' i i' st = Some r \<Longrightarrow> ?P lnk' body' h' off' i i' st r"
      and step: "(if cc_list_node_from_off i off' = Some h' then Some st
       else do {
         st \<leftarrow> body' i st;
         n \<leftarrow> get_next (lnk' st) (cc_list_node_from_off i' off');
         f lnk' body' h' off' i' (cc_list_node_to_off n off') st }) = Some r"
    show "?P lnk' body' h' off' i i' st r"
    proof (intro impI allI)
      fix a q assume e: "lnk' = lnk" "body' = body" "h' = h" "off' = off" and n: "lnk st 0 = None" and i: "i = cc_list_node_to_off (Some a) off"
        "i' = cc_list_node_to_off q off" "a \<noteq> 0"
      show "safe_from lnk (\<lambda>a. body (container_of a off)) h (Some a) q st = Some r"
      proof (cases "a = h")
        case True
        with step e i from_off_head [OF h, of "Some a" off] show ?thesis by (subst safe_from.simps) simp
      next
        case False
        with step e i from_off_head [OF h, of "Some a" off] obtain st' n' where
          b: "body i st = Some st'" and g: "get_next (lnk st') (cc_list_node_from_off i' off) = Some n'"
            and f: "f lnk body h off i' (cc_list_node_to_off n' off) st' = Some r"
          by (auto simp: bind_conv)
        from keep [OF n b] have n': "lnk st' 0 = None" .
        have g': "get_next (lnk st') q = Some n'" using g i(2) by (simp add: get_next_off [where s = "lnk st'", OF n'])
        from get_next_live [where s = "lnk st'", OF n' g'] obtain c where "q = Some c" "c \<noteq> 0" by blast
        with False IH [OF f] b g' n' i(1,2) show ?thesis by (subst safe_from.simps) (simp add: to_off_container)
      qed
    qed
  qed
  with i n0 show ?thesis by simp
qed

lemma safe_from_to_off:
  assumes n0: "lnk st 0 = None" and keep: "\<And>a st st'. lnk st 0 = None \<Longrightarrow> body a st = Some st' \<Longrightarrow> lnk st' 0 = None"
    and h: "h \<noteq> 0" and run: "safe_from lnk (\<lambda>a. body (container_of a off)) h p q st = Some r"
  shows "safe_off_from lnk body h off (cc_list_node_to_off p off) (cc_list_node_to_off q off) st = Some r"
proof -
  let ?P = "\<lambda>lnk' body' h' p q st r. lnk' = lnk \<longrightarrow> body' = (\<lambda>a. body (container_of a off)) \<longrightarrow> h' = h \<longrightarrow> lnk st 0 = None \<longrightarrow>
    safe_off_from lnk body h off (cc_list_node_to_off p off) (cc_list_node_to_off q off) st = Some r"
  have "?P lnk (\<lambda>a. body (container_of a off)) h p q st r"
  proof (rule safe_from.raw_induct [where P = ?P, OF _ run])
    fix f lnk' body' h' p q st r
    assume IH: "\<And>lnk' body' h' p q st r. f lnk' body' h' p q st = Some r \<Longrightarrow> ?P lnk' body' h' p q st r"
      and step: "do {
        a \<leftarrow> p;
        if a = h' then Some st
        else do {
          st \<leftarrow> body' a st;
          n \<leftarrow> get_next (lnk' st) q;
          f lnk' body' h' q n st } } = Some r"
    show "?P lnk' body' h' p q st r"
    proof (intro impI)
      assume e: "lnk' = lnk" "body' = (\<lambda>a. body (container_of a off))" "h' = h" and n: "lnk st 0 = None"
      from step obtain x where x: "p = Some x" by (auto simp: bind_conv)
      show "safe_off_from lnk body h off (cc_list_node_to_off p off) (cc_list_node_to_off q off) st = Some r"
      proof (cases "x = h")
        case True
        with step e x from_off_head [OF h, of p off] show ?thesis by (subst safe_off_from.simps) simp
      next
        case False
        with step e x obtain st' n' where
          b: "body (container_of x off) st = Some st'" "get_next (lnk st') q = Some n'" "f lnk body' h q n' st' = Some r"
          by (auto simp: bind_conv)
        from keep [OF n b(1)] have n': "lnk st' 0 = None" .
        from False x IH [OF b(3)] e b(1,2) n' from_off_head [OF h, of p off] show ?thesis
          by (subst safe_off_from.simps)
            (simp add: to_off_container [symmetric] get_next_off [where s = "lnk st'", OF n'])
      qed
    qed
  qed
  with n0 show ?thesis by simp
qed

lemma for_each_safe_off_eq:
  assumes n0: "lnk st 0 = None" and keep: "\<And>a st st'. lnk st 0 = None \<Longrightarrow> body a st = Some st' \<Longrightarrow> lnk st' 0 = None"
  shows "cc_list_for_each_safe_off lnk body h off st = cc_list_for_each_safe lnk (\<lambda>a. body (container_of a off)) h st"
proof (cases "h = 0")
  case True
  with n0 show ?thesis by (simp add: cc_list_for_each_safe_off_def cc_list_for_each_safe_def get_next_null)
next
  case False
  have e: "safe_off_from lnk body h off (cc_list_node_to_off (Some a) off) (cc_list_node_to_off q off) st =
      safe_from lnk (\<lambda>a. body (container_of a off)) h (Some a) q st" if "a \<noteq> 0" for a q
  proof (rule option_eqI)
    show "safe_from lnk (\<lambda>a. body (container_of a off)) h (Some a) q st = Some r"
      if "safe_off_from lnk body h off (cc_list_node_to_off (Some a) off) (cc_list_node_to_off q off) st = Some r" for r
      by (rule safe_off_from_to [where body = body, OF n0 _ False that refl refl \<open>a \<noteq> 0\<close>]) (rule keep)
    show "safe_off_from lnk body h off (cc_list_node_to_off (Some a) off) (cc_list_node_to_off q off) st = Some r"
      if "safe_from lnk (\<lambda>a. body (container_of a off)) h (Some a) q st = Some r" for r
      by (rule safe_from_to_off [where body = body, OF n0 _ False that]) (rule keep)
  qed
  have "safe_off_from lnk body h off (cc_list_node_to_off p off) (cc_list_node_to_off q off) st =
      safe_from lnk (\<lambda>a. body (container_of a off)) h p q st" if "get_next (lnk st) p = Some q" for p q
    using get_next_live [where s = "lnk st", OF n0 that] e by blast
  then show ?thesis
    by (simp add: cc_list_for_each_safe_off_def cc_list_for_each_safe_def Let_def
        get_next_off [where s = "lnk st", OF n0] cong: Option.bind_cong)
qed

text \<open>C31: The loops \<open>cc_list_for_each\<close> and \<open>cc_list_for_each_safe\<close> over the
  containing structures visit exactly the containers of the list nodes, in the order of the list,
  and return exactly when the loops over the nodes do: the pointer arithmetic of the macros loses
  nothing, whatever the offset, as long as NULL is not the address of a live list node; the body of
  the safe loop has to keep this.\<close>

theorem for_each_off_eq:
  assumes n0: "s 0 = None" and l0: "lnk st' 0 = None"
    and keep: "\<forall>a st st'. lnk st 0 = None \<longrightarrow> body' a st = Some st' \<longrightarrow> lnk st' 0 = None"
  shows "cc_list_for_each_off s body h off st = cc_list_for_each s (\<lambda>a. body (container_of a off)) h st \<and>
    cc_list_for_each_safe_off lnk body' h off st' = cc_list_for_each_safe lnk (\<lambda>a. body' (container_of a off)) h st'"
proof
  show "cc_list_for_each_safe_off lnk body' h off st' = cc_list_for_each_safe lnk (\<lambda>a. body' (container_of a off)) h st'"
    by (rule for_each_safe_off_eq [where lnk = lnk and st = st', OF l0]) (use keep in blast)
  show "cc_list_for_each_off s body h off st = cc_list_for_each s (\<lambda>a. body (container_of a off)) h st"
  proof (cases "h = 0")
    case True
    with n0 show ?thesis by (simp add: cc_list_for_each_off_def cc_list_for_each_def get_next_null)
  next
    case False
    have "each_off_from s body h off (cc_list_node_to_off p off) st = each_from s (\<lambda>a. body (container_of a off)) h p st" for p
      by (rule option_eqI) (auto intro: each_off_from_to [where s = s, OF n0 False] each_from_to_off [where s = s, OF n0 False])
    then show ?thesis by (simp add: cc_list_for_each_off_def cc_list_for_each_def)
  qed
qed

text \<open>
  A list of two structures at 100 and 200 whose list nodes are 24 bytes behind their start: the
  loop collects the structures, and the safe loop can empty the list.
\<close>

definition two_items :: "u64 store" where
  "two_items = [8 \<mapsto> \<lparr>nxt = Some 124, prv = Some 224\<rparr>, 124 \<mapsto> \<lparr>nxt = Some 224, prv = Some 8\<rparr>,
     224 \<mapsto> \<lparr>nxt = Some 8, prv = Some 124\<rparr>]"

lemma two_items_list: "is_list two_items 8 [124, 224]"
  by (simp add: is_list_def two_items_def nx_def pv_def)

lemma for_each_off_eq_witness:
  "cc_list_for_each_off two_items (\<lambda>i xs. Some (xs @ [i])) 8 24 [] = Some [100, 200]"
proof -
  have z: "two_items 0 = None" by (simp add: two_items_def)
  have "\<forall>a s s'. s 0 = None \<longrightarrow> Some (s(a := None)) = Some s' \<longrightarrow> s' 0 = (None :: u64 cc_list_node option)" by auto
  from for_each_off_eq [where lnk = "\<lambda>s. s" and s = two_items and st' = two_items, OF z z this,
      of "\<lambda>i xs. Some (xs @ [i])" 8 24 "[]"]
  show ?thesis by (simp add: for_each_list [OF two_items_list] container_of_def)
qed

end
