(* ===== verification/Util.thy ===== *)
theory Util
  imports Prelude
begin

text \<open>
  \<open>util/util.c\<close> with the macros and the inline function of \<open>include/uwifi/util.h\<close>.
  \<open>unsigned long\<close> has 64 bits, as on the Linux targets of the library.  Log output is not
  modelled; what is printed on standard output is a string.
\<close>

subsection \<open>MAC addresses\<close>

text \<open>A MAC address is a list of six bytes; the macros read all six by index.\<close>

definition MAC_NOT_EMPTY :: "bytes \<Rightarrow> bool" where
  "MAC_NOT_EMPTY mac \<longleftrightarrow> mac ! 0 \<noteq> 0 \<or> mac ! 1 \<noteq> 0 \<or> mac ! 2 \<noteq> 0 \<or> mac ! 3 \<noteq> 0 \<or>
     mac ! 4 \<noteq> 0 \<or> mac ! 5 \<noteq> 0"

definition MAC_EMPTY :: "bytes \<Rightarrow> bool" where
  "MAC_EMPTY mac \<longleftrightarrow> mac ! 0 = 0 \<and> mac ! 1 = 0 \<and> mac ! 2 = 0 \<and> mac ! 3 = 0 \<and>
     mac ! 4 = 0 \<and> mac ! 5 = 0"

definition MAC_BCAST :: "bytes \<Rightarrow> bool" where
  "MAC_BCAST mac \<longleftrightarrow> mac ! 0 = 0xff \<and> mac ! 1 = 0xff \<and> mac ! 2 = 0xff \<and>
     mac ! 3 = 0xff \<and> mac ! 4 = 0xff \<and> mac ! 5 = 0xff"

lemma MAC_EMPTY_iff [simp]: "MAC_EMPTY mac \<longleftrightarrow> \<not> MAC_NOT_EMPTY mac"
  by (auto simp: MAC_EMPTY_def MAC_NOT_EMPTY_def)

lemma six_bytes: "length mac = 6 \<Longrightarrow> mac = [mac ! 0, mac ! 1, mac ! 2, mac ! 3, mac ! 4, mac ! 5]"
  by (auto simp: list_eq_iff_nth_eq less_Suc_eq numeral_eq_Suc)

lemma MAC_NOT_EMPTY_iff: "length mac = 6 \<Longrightarrow> MAC_NOT_EMPTY mac \<longleftrightarrow> mac \<noteq> replicate 6 0"
  by (subst six_bytes [of mac]) (auto simp: MAC_NOT_EMPTY_def numeral_eq_Suc)

lemma MAC_BCAST_iff: "length mac = 6 \<Longrightarrow> MAC_BCAST mac \<longleftrightarrow> mac = replicate 6 0xff"
  by (subst six_bytes [of mac]) (auto simp: MAC_BCAST_def numeral_eq_Suc)

text \<open>\<open>%02x\<close> of a byte, and \<open>mac_sprint\<close>: six of them separated by colons.\<close>

definition hex_digit :: "nat \<Rightarrow> char" where
  "hex_digit d = ''0123456789abcdef'' ! d"

definition fmt_02x :: "u8 \<Rightarrow> string" where
  "fmt_02x b = [hex_digit (unat b div 16), hex_digit (unat b mod 16)]"

definition mac_sprint :: "bytes \<Rightarrow> string" where
  "mac_sprint mac = fmt_02x (mac ! 0) @ '':'' @ fmt_02x (mac ! 1) @ '':'' @ fmt_02x (mac ! 2) @ '':'' @
     fmt_02x (mac ! 3) @ '':'' @ fmt_02x (mac ! 4) @ '':'' @ fmt_02x (mac ! 5)"

text \<open>
  \<open>string_to_mac\<close> calls \<open>sscanf\<close> with six \<open>%2hhx\<close> conversions and literal colons.  The
  conversion skips white space and then takes the longest prefix, of at most two
  characters, of a hexadecimal number as \<open>strtoul\<close> reads it (a sign, a \<open>0x\<close> prefix or
  digits); a prefix with no digit is a matching failure.  The bytes converted before a
  failure are stored.
\<close>

definition hex_val :: "char \<Rightarrow> nat option" where
  "hex_val c = (let k = (of_char c :: nat) in
     if 48 \<le> k \<and> k \<le> 57 then Some (k - 48)
     else if 97 \<le> k \<and> k \<le> 102 then Some (k - 87)
     else if 65 \<le> k \<and> k \<le> 70 then Some (k - 55)
     else None)"

definition is_space :: "char \<Rightarrow> bool" where
  "is_space c = (let k = (of_char c :: nat) in k = 32 \<or> (9 \<le> k \<and> k \<le> 13))"

definition sign_of :: "char \<Rightarrow> bool option" where
  "sign_of c = (let k = (of_char c :: nat) in if k = 45 then Some True else if k = 43 then Some False else None)"

definition scan_2hhx :: "string \<Rightarrow> (u8 \<times> string) option" where
  "scan_2hhx inp = (case dropWhile is_space inp of
       [] \<Rightarrow> None
     | c # cs \<Rightarrow>
         (case sign_of c of
            Some neg \<Rightarrow>
              (case cs of
                 [] \<Rightarrow> None
               | d # ds \<Rightarrow> map_option (\<lambda>v. (if neg then - word_of_nat v else word_of_nat v, ds)) (hex_val d))
          | None \<Rightarrow>
              (case hex_val c of
                 None \<Rightarrow> None
               | Some v \<Rightarrow>
                   (case cs of
                      [] \<Rightarrow> Some (word_of_nat v, [])
                    | d # ds \<Rightarrow>
                        (case hex_val d of
                           Some w \<Rightarrow> Some (word_of_nat (16 * v + w), ds)
                         | None \<Rightarrow>
                             if v = 0 \<and> (d = CHR ''x'' \<or> d = CHR ''X'') then None
                             else Some (word_of_nat v, d # ds))))))"

fun scan_mac :: "nat \<Rightarrow> string \<Rightarrow> bytes" where
  "scan_mac 0 inp = []"
| "scan_mac (Suc n) inp =
     (case scan_2hhx inp of
        None \<Rightarrow> []
      | Some (b, rest) \<Rightarrow>
          b # (case rest of
                 [] \<Rightarrow> []
               | c # cs \<Rightarrow> if c = CHR '':'' then scan_mac n cs else []))"

text \<open>The result and the contents of \<open>mac\<close> afterwards; \<open>None\<close> is a NULL argument.\<close>

definition string_to_mac :: "string option \<Rightarrow> bytes option \<Rightarrow> bool \<times> bytes option" where
  "string_to_mac str mac = (case (str, mac) of
       (Some inp, Some m) \<Rightarrow>
         (let bs = scan_mac 6 inp in (length bs = 6, Some (bs @ drop (length bs) m)))
     | _ \<Rightarrow> (False, mac))"

text \<open>A printed address is read back, whatever the target buffer held.\<close>

lemma hex_digit_scans:
  assumes "d < 16"
  shows "hex_val (hex_digit d) = Some d \<and> \<not> is_space (hex_digit d) \<and> sign_of (hex_digit d) = None"
proof -
  have "\<forall>d \<in> set [0..<16]. hex_val (hex_digit d) = Some d \<and> \<not> is_space (hex_digit d) \<and>
      sign_of (hex_digit d) = None"
    by code_simp
  with assms show ?thesis by simp
qed

lemma scan_fmt_02x: "scan_2hhx (fmt_02x b @ rest) = Some (b, rest)"
proof -
  have b: "unat b < 256" using unsigned_less [of b] by simp
  then have "unat b div 16 < 16" "unat b mod 16 < 16" by simp_all
  note d = this [THEN hex_digit_scans]
  have "16 * (unat b div 16) + unat b mod 16 = unat b" by simp
  then show ?thesis using d by (simp add: scan_2hhx_def fmt_02x_def)
qed

lemma scan_fmt_02x_0: "scan_2hhx (fmt_02x b) = Some (b, [])"
  using scan_fmt_02x [of b "[]"] by simp

text \<open>An address printed by \<open>mac_sprint\<close> is accepted by
  \<open>string_to_mac\<close> and read back byte for byte, with trailing input ignored.\<close>

theorem string_to_mac_sprint:
  assumes "length mac = 6" "length buf = 6"
  shows "string_to_mac (Some (mac_sprint mac @ rest)) (Some buf) = (True, Some mac)"
proof -
  have "scan_mac 6 (mac_sprint mac @ rest) = [mac ! 0, mac ! 1, mac ! 2, mac ! 3, mac ! 4, mac ! 5]"
    by (cases rest) (simp_all add: mac_sprint_def numeral_eq_Suc scan_fmt_02x scan_fmt_02x_0)
  with six_bytes [OF assms(1)] assms show ?thesis
    by (simp add: string_to_mac_def)
qed

lemma string_to_mac_sprint_witness:
  "string_to_mac (Some (mac_sprint [0, 0x1b, 0x2c, 0xff, 0x10, 9])) (Some [1, 2, 3, 4, 5, 6]) =
     (True, Some [0, 0x1b, 0x2c, 0xff, 0x10, 9])"
  using string_to_mac_sprint [of "[0, 0x1b, 0x2c, 0xff, 0x10, 9]" "[1, 2, 3, 4, 5, 6]" "[]"] by simp

subsection \<open>Printing\<close>

text \<open>\<open>%d\<close>.\<close>

fun fmt_nat :: "nat \<Rightarrow> string" where
  "fmt_nat n = (if n < 10 then [''0123456789'' ! n] else fmt_nat (n div 10) @ [''0123456789'' ! (n mod 10)])"

declare fmt_nat.simps [simp del]

definition fmt_d :: "int \<Rightarrow> string" where
  "fmt_d i = (if i < 0 then CHR ''-'' # fmt_nat (nat (- i)) else fmt_nat (nat i))"

lemma fmt_nat_length: "n < 10 ^ k \<Longrightarrow> 0 < k \<Longrightarrow> length (fmt_nat n) \<le> k"
proof (induction k arbitrary: n)
  case (Suc k)
  show ?case
  proof (cases "n < 10")
    case True
    then show ?thesis by (simp add: fmt_nat.simps [of n])
  next
    case False
    with Suc.prems(1) have "n div 10 < 10 ^ k" "0 < k" by (auto intro!: Nat.gr0I)
    with Suc.IH [of "n div 10"] False show ?thesis by (simp add: fmt_nat.simps [of n])
  qed
qed simp

text \<open>\<open>dump_hex\<close>, whose output is the result.\<close>

definition dump_text :: "nat \<Rightarrow> u8 \<Rightarrow> string" where
  "dump_text i b = (if i mod 2 = 0 then '' '' else []) @ (if i mod 16 = 0 then [CHR 0x0A] else []) @ fmt_02x b"

definition dump_byte :: "bytes \<Rightarrow> nat \<Rightarrow> string \<Rightarrow> string option" where
  "dump_byte data i out = do { b \<leftarrow> rd data i; Some (out @ dump_text i b) }"

definition dump_hex :: "bytes \<Rightarrow> int \<Rightarrow> string option \<Rightarrow> string option" where
  "dump_hex data len txt = do {
     out \<leftarrow> foldM (dump_byte data) [0..<nat len] (case txt of None \<Rightarrow> [] | Some t \<Rightarrow> t @ '': '');
     Some (out @ [CHR 0x0A]) }"

lemma dump_bytes:
  "foldM (dump_byte data) [0..<n] out =
    (if n \<le> length data then Some (out @ concat (map (\<lambda>i. dump_text i (data ! i)) [0..<n])) else None)"
  by (induction n) (auto simp: foldM_append dump_byte_def rd_def)

lemma dump_hex_eq:
  "dump_hex data len txt =
    (if nat len \<le> length data
     then Some ((case txt of None \<Rightarrow> [] | Some t \<Rightarrow> t @ '': '') @
                concat (map (\<lambda>i. dump_text i (data ! i)) [0..<nat len]) @ [CHR 0x0A])
     else None)"
  by (simp add: dump_hex_def dump_bytes)

subsection \<open>Bit sets\<close>

definition TOGGLE_BITSET :: "'a::len word \<Rightarrow> 'a word \<Rightarrow> 'a word" where
  "TOGGLE_BITSET x m = (if flag_set x m then x AND NOT m else x OR m)"

lemma TOGGLE_BITSET_all_or_none:
  "TOGGLE_BITSET x m AND m = (if flag_set x m then 0 else m)"
  by (auto simp: TOGGLE_BITSET_def flag_set_def bit_eq_iff bit_simps)

subsection \<open>Powers of two\<close>

definition is_power_of_2 :: "u64 \<Rightarrow> bool" where
  "is_power_of_2 n \<longleftrightarrow> n \<noteq> 0 \<and> n AND (n - 1) = 0"

text \<open>\<open>for (n = 0; !(x & 1); n++) x = x >> 1;\<close>\<close>

partial_function (option) ilog2_from :: "int \<Rightarrow> nat \<Rightarrow> nat option" where
  "ilog2_from x n = (if odd x then Some n else ilog2_from (x div 2) (Suc n))"

definition ilog2 :: "int \<Rightarrow> nat option" where
  "ilog2 x = ilog2_from x 0"

lemma ilog2_from_pow: "odd m \<Longrightarrow> ilog2_from (m * 2 ^ k) n = Some (n + k)"
proof (induction k arbitrary: n)
  case 0
  then show ?case by (simp add: ilog2_from.simps)
next
  case (Suc k)
  have "m * 2 ^ Suc k div 2 = m * 2 ^ k" "even (m * 2 ^ Suc k)" by simp_all
  then have "ilog2_from (m * 2 ^ Suc k) n = ilog2_from (m * 2 ^ k) (Suc n)"
    by (subst ilog2_from.simps) simp
  with Suc.IH [OF Suc.prems, of "Suc n"] show ?case by simp
qed

lemma ilog2_from_nonzero:
  assumes "ilog2_from x n = Some r"
  shows "x \<noteq> 0"
proof -
  have step: "x \<noteq> 0" if "\<And>x n r. f x n = Some r \<Longrightarrow> x \<noteq> 0"
      "(if odd x then Some n else f (x div 2) (Suc n)) = Some r"
    for f :: "int \<Rightarrow> nat \<Rightarrow> nat option" and x n r
  proof (cases "odd x")
    case False
    with that have "x div 2 \<noteq> 0" by simp
    then show ?thesis by (cases "x = 0") simp_all
  qed auto
  show ?thesis
  proof (rule ilog2_from.raw_induct [of "\<lambda>x n r. x \<noteq> 0" "(x, n)" r, unfolded prod.case])
    fix f :: "int \<Rightarrow> nat \<Rightarrow> nat option" and x n r
    assume "\<And>n b y. f n b = Some y \<Longrightarrow> n \<noteq> 0"
      "(if odd x then Some n else f (x div 2) (Suc n)) = Some r"
    then show "x \<noteq> 0" by (rule step)
  qed (rule assms)
qed

lemma ilog2_0: "ilog2 0 = None"
  using ilog2_from_nonzero [of 0 0] by (cases "ilog2_from 0 0") (auto simp: ilog2_def)

lemma odd_part: "x \<noteq> 0 \<Longrightarrow> \<exists>m k. odd m \<and> x = m * 2 ^ k" for x :: int
proof (induction "nat \<bar>x\<bar>" arbitrary: x rule: less_induct)
  case less
  show ?case
  proof (cases "odd x")
    case True
    then show ?thesis by (intro exI [of _ x] exI [of _ 0]) simp
  next
    case False
    then obtain y where y: "x = 2 * y" by (auto elim: evenE)
    with less.prems have "y \<noteq> 0" "nat \<bar>y\<bar> < nat \<bar>x\<bar>" by auto
    with less.hyps [of y] obtain m k where "odd m" "y = m * 2 ^ k" by blast
    with y show ?thesis by (intro exI [of _ m] exI [of _ "Suc k"]) simp
  qed
qed

lemma ilog2_returns: "x \<noteq> 0 \<Longrightarrow> \<exists>n m. ilog2 x = Some n \<and> odd m \<and> x = m * 2 ^ n"
  using odd_part [of x] ilog2_from_pow [of _ _ 0] by (auto simp: ilog2_def)

lemma ilog2_None_iff: "ilog2 x = None \<longleftrightarrow> x = 0"
  using ilog2_returns [of x] ilog2_0 by (cases "x = 0") auto

lemma ilog2_exp: "ilog2 (2 ^ k) = Some k"
  using ilog2_from_pow [of 1 k 0] by (simp add: ilog2_def)

lemma is_power_of_2_exp: "k < 64 \<Longrightarrow> is_power_of_2 (2 ^ k)"
proof -
  assume "k < 64"
  have "(2 :: u64) ^ k AND (2 ^ k - 1) = 0"
    by (rule bit_word_eqI) (auto simp: bit_simps simp flip: mask_eq_exp_minus_1)
  with \<open>k < 64\<close> show ?thesis by (simp add: is_power_of_2_def)
qed

lemma and_pred_odd_part:
  assumes "odd m"
  shows "drop_bit k ((m * 2 ^ k) AND (m * 2 ^ k - 1)) = m - (1::nat)"
proof -
  from assms obtain j where m: "m = 2 * j + 1" by (elim oddE)
  have "m * 2 ^ k - 1 = (m - 1) * 2 ^ k + (2 ^ k - 1)"
    using m by (simp add: algebra_simps)
  moreover have "((m - 1) * 2 ^ k + (2 ^ k - 1)) div 2 ^ k = m - 1"
    using div_mult_self3 [of "2 ^ k" "m - 1" "2 ^ k - 1"] by simp
  ultimately have "drop_bit k (m * 2 ^ k - 1) = m - 1"
    by (simp only: drop_bit_eq_div)
  moreover have "drop_bit k (m * 2 ^ k) = m" by (simp add: drop_bit_eq_div)
  ultimately have "drop_bit k ((m * 2 ^ k) AND (m * 2 ^ k - 1)) = m AND (m - 1)"
    by (simp only: drop_bit_and)
  also have "\<dots> = m - 1" unfolding m by (subst and_rec) simp
  finally show ?thesis .
qed

lemma is_power_of_2_iff: "is_power_of_2 n \<longleftrightarrow> (\<exists>k < 64. n = 2 ^ k)"
proof
  assume p: "is_power_of_2 n"
  then have "n \<noteq> 0" by (simp add: is_power_of_2_def)
  then have n0: "int (unat n) \<noteq> 0" by (metis of_nat_eq_0_iff unat_eq_zero)
  from odd_part [OF n0] obtain i k where i: "odd i" "int (unat n) = i * 2 ^ k" by blast
  define m where "m = nat i"
  have "0 < i" using i n0 by (metis of_nat_0_le_iff less_le mult_eq_0_iff zero_less_mult_pos2 zero_less_power zero_less_numeral)
  then have m: "odd m" "unat n = m * 2 ^ k"
    using i \<open>0 < i\<close> nat_mult_distrib [of i "2 ^ k"] nat_int [of "unat n"]
    by (simp_all add: m_def even_nat_iff nat_power_eq del: nat_int)
  have "unat n AND (unat n - 1) = 0"
  proof -
    have "unat n AND (unat n - 1) = unat (n AND (n - 1))"
      using \<open>n \<noteq> 0\<close> by (simp add: unsigned_and_eq unat_minus_one)
    then show ?thesis using p by (simp add: is_power_of_2_def)
  qed
  then have "m - 1 = 0" using and_pred_odd_part [OF m(1), of k] m(2) by (simp del: drop_bit_and)
  with m(1) have "m = 1" by (cases m) auto
  with m have u: "unat n = 2 ^ k" by simp
  have "k < 64"
  proof (rule ccontr)
    assume "\<not> k < 64"
    then have "(2::nat) ^ 64 \<le> 2 ^ k" by (intro power_increasing) auto
    moreover have "unat n < 2 ^ LENGTH(64)" by (rule unsigned_less)
    ultimately show False using u by simp
  qed
  moreover have "n = 2 ^ k"
  proof -
    have "n = word_of_nat (unat n)" by simp
    then show ?thesis by (simp only: u of_nat_power of_nat_numeral)
  qed
  ultimately show "\<exists>k < 64. n = 2 ^ k" by blast
qed (auto simp: is_power_of_2_exp)

end
