(* ===== verification/Average.thy ===== *)
theory Average
  imports Util
begin

text \<open>
  The exponentially weighted moving average of \<open>util/average.c\<close> and \<open>average.h\<close>.  The three
  fields are \<open>unsigned long\<close>: sums and shifts wrap at 64 bits.  The shift counts are set by
  \<open>ewma_init\<close> from the base-2 logarithm of an \<open>int\<close>, so they stay below the width.
\<close>

record ewma =
  internal :: u64
  factor :: u64
  weight :: u64

text \<open>
  \<open>ewma_init\<close>: the power-of-two test only produces a log message.  The conversion of the
  \<open>unsigned long\<close> arguments to the \<open>int\<close> parameter of \<open>ilog2\<close> keeps their low 32 bits.
\<close>

definition ewma_init :: "u64 \<Rightarrow> u64 \<Rightarrow> ewma option" where
  "ewma_init f w = do {
     lw \<leftarrow> ilog2 (i32 (ucast w));
     lf \<leftarrow> ilog2 (i32 (ucast f));
     Some \<lparr>internal = 0, factor = word_of_nat lf, weight = word_of_nat lw\<rparr> }"

definition ewma_add :: "ewma \<Rightarrow> u64 \<Rightarrow> ewma" where
  "ewma_add avg val = avg\<lparr>internal :=
     (if internal avg \<noteq> 0
      then drop_bit (unat (weight avg))
             ((push_bit (unat (weight avg)) (internal avg) - internal avg) +
               push_bit (unat (factor avg)) val)
      else push_bit (unat (factor avg)) val)\<rparr>"

definition ewma_read :: "ewma \<Rightarrow> u64" where
  "ewma_read avg = drop_bit (unat (factor avg)) (internal avg)"

subsection \<open>Without overflow the average is computed exactly\<close>

lemma ewma_add_params [simp]: "factor (ewma_add a v) = factor a" "weight (ewma_add a v) = weight a"
  by (simp_all add: ewma_add_def)

lemma unat_push_bit_64: "unat (w :: u64) * 2 ^ n < 2 ^ 64 \<Longrightarrow> unat (push_bit n w) = unat w * 2 ^ n"
  unfolding unsigned_push_bit_eq by (simp add: push_bit_eq_mult take_bit_nat_eq_self)

lemma unat_plus_64: "unat (a :: u64) + unat b < 2 ^ 64 \<Longrightarrow> unat (a + b) = unat a + unat b"
  by (simp add: unat_word_ariths)

lemma unat_minus_64: "unat (b :: u64) \<le> unat a \<Longrightarrow> unat (a - b) = unat a - unat b"
  by (simp add: unat_sub word_le_nat_alt)

lemma unat_drop_bit_64: "unat (drop_bit n (a :: u64)) = unat a div 2 ^ n"
  unfolding unat_drop_bit_eq by (simp add: drop_bit_eq_div)

lemma scale_pred: "x * (2 ^ w - 1) + x = x * (2 ^ w :: nat)"
  by (simp add: diff_mult_distrib2)

lemma ewma_add_exact:
  fixes a v
  defines "f \<equiv> unat (factor a)" and "w \<equiv> unat (weight a)" and "i \<equiv> unat (internal a)"
  assumes i: "i \<le> B" and v: "unat v * 2 ^ f \<le> B" and B: "B * 2 ^ w < 2 ^ 64"
  shows "unat (internal (ewma_add a v)) =
    (if i = 0 then unat v * 2 ^ f else (i * (2 ^ w - 1) + unat v * 2 ^ f) div 2 ^ w)"
proof -
  have "B \<le> B * 2 ^ w" by simp
  with B v have vf: "unat (push_bit f v) = unat v * 2 ^ f"
    by (intro unat_push_bit_64) linarith
  have "i * 2 ^ w \<le> B * 2 ^ w" using i by simp
  with B have iw: "unat (push_bit w (internal a)) = i * 2 ^ w"
    unfolding i_def by (intro unat_push_bit_64) linarith
  have d: "unat (push_bit w (internal a) - internal a) = i * (2 ^ w - 1)"
    using unat_minus_64 [of "internal a" "push_bit w (internal a)"] iw
    by (simp add: i_def diff_mult_distrib2)
  have "i * (2 ^ w - 1) \<le> B * (2 ^ w - 1)" using i by (rule mult_le_mono1)
  with v have "i * (2 ^ w - 1) + unat v * 2 ^ f \<le> B * (2 ^ w - 1) + B" by linarith
  also have "\<dots> = B * 2 ^ w" by (rule scale_pred)
  finally have s: "unat (push_bit w (internal a) - internal a + push_bit f v) =
      i * (2 ^ w - 1) + unat v * 2 ^ f"
    using B d vf by (subst unat_plus_64) simp_all
  have "internal a = 0 \<longleftrightarrow> i = 0" by (simp add: i_def unat_eq_zero)
  then show ?thesis
    using vf s by (simp add: ewma_add_def f_def [symmetric] w_def [symmetric] unat_drop_bit_64)
qed

text \<open>
  The invariant: the scaled average is unset, or lies between the scaled bounds of the
  samples seen so far.
\<close>

definition ewma_within :: "nat \<Rightarrow> nat \<Rightarrow> ewma \<Rightarrow> bool" where
  "ewma_within lo hi a \<longleftrightarrow> internal a = 0 \<or>
     (lo * 2 ^ unat (factor a) \<le> unat (internal a) \<and> unat (internal a) \<le> hi * 2 ^ unat (factor a))"

text \<open>The documented limit on the values: \<open>ULONG_MAX/(factor*weight)\<close>.\<close>

definition ewma_fits :: "nat \<Rightarrow> ewma \<Rightarrow> bool" where
  "ewma_fits hi a \<longleftrightarrow> hi * 2 ^ unat (factor a) * 2 ^ unat (weight a) < 2 ^ 64"

lemma ewma_add_bounds:
  assumes a: "ewma_within lo hi a" "ewma_fits hi a" and v: "lo \<le> unat v" "unat v \<le> hi"
  shows "lo * 2 ^ unat (factor a) \<le> unat (internal (ewma_add a v)) \<and>
    unat (internal (ewma_add a v)) \<le> hi * 2 ^ unat (factor a)"
proof -
  define f w i where "f = unat (factor a)" and "w = unat (weight a)" and "i = unat (internal a)"
  have vb: "lo * 2 ^ f \<le> unat v * 2 ^ f" "unat v * 2 ^ f \<le> hi * 2 ^ f" using v by simp_all
  have ih: "i \<le> hi * 2 ^ f" using a by (auto simp: ewma_within_def f_def i_def)
  have ex: "unat (internal (ewma_add a v)) =
      (if i = 0 then unat v * 2 ^ f else (i * (2 ^ w - 1) + unat v * 2 ^ f) div 2 ^ w)"
    using ewma_add_exact [of a "hi * 2 ^ f" v] ih vb a
    by (simp add: f_def w_def i_def ewma_fits_def)
  show ?thesis
  proof (cases "i = 0")
    case True
    with ex vb show ?thesis by (simp add: f_def)
  next
    case False
    then have "lo * 2 ^ f \<le> i" using a by (auto simp: ewma_within_def f_def i_def unat_eq_zero)
    then have "lo * 2 ^ f * (2 ^ w - 1) \<le> i * (2 ^ w - 1)" by (rule mult_le_mono1)
    moreover have "i * (2 ^ w - 1) \<le> hi * 2 ^ f * (2 ^ w - 1)" using ih by (rule mult_le_mono1)
    ultimately have "lo * 2 ^ f * 2 ^ w \<le> i * (2 ^ w - 1) + unat v * 2 ^ f"
      "i * (2 ^ w - 1) + unat v * 2 ^ f \<le> hi * 2 ^ f * 2 ^ w"
      using vb scale_pred [of "lo * 2 ^ f" w] scale_pred [of "hi * 2 ^ f" w] by linarith+
    then have "lo * 2 ^ f \<le> (i * (2 ^ w - 1) + unat v * 2 ^ f) div 2 ^ w"
      "(i * (2 ^ w - 1) + unat v * 2 ^ f) div 2 ^ w \<le> hi * 2 ^ f"
      by (simp_all add: less_eq_div_iff_mult_less_eq div_le_mono
          div_le_mono [THEN order_trans] del: mult_le_cancel2)
    with ex False show ?thesis by (simp add: f_def)
  qed
qed


text \<open>Adding all samples of a list.\<close>

definition ewma_run :: "ewma \<Rightarrow> u64 list \<Rightarrow> ewma" where
  "ewma_run a vs = fold (\<lambda>v a. ewma_add a v) vs a"

lemma ewma_run_params [simp]:
  "factor (ewma_run a vs) = factor a" "weight (ewma_run a vs) = weight a"
  by (induction vs arbitrary: a) (simp_all add: ewma_run_def)

lemma ewma_run_snoc: "ewma_run a (vs @ [v]) = ewma_add (ewma_run a vs) v"
  by (simp add: ewma_run_def)

lemma ewma_run_within:
  "ewma_within lo hi a \<Longrightarrow> ewma_fits hi a \<Longrightarrow> \<forall>v \<in> set vs. lo \<le> unat v \<and> unat v \<le> hi \<Longrightarrow>
     ewma_within lo hi (ewma_run a vs)"
proof (induction vs arbitrary: a)
  case Nil
  then show ?case by (simp add: ewma_run_def)
next
  case (Cons v vs)
  then have "ewma_within lo hi (ewma_add a v)"
    using ewma_add_bounds [of lo hi a v] by (simp add: ewma_within_def)
  with Cons show ?case by (simp add: ewma_run_def ewma_fits_def)
qed

lemma i32_exp: "k < 31 \<Longrightarrow> i32 (ucast (2 ^ k :: u64)) = 2 ^ k"
proof -
  assume k: "k < 31"
  have "(ucast (2 ^ k :: u64) :: u32) = word_of_nat (2 ^ k)"
    by (rule bit_word_eqI) (use k in \<open>auto simp: bit_simps simp flip: of_nat_power\<close>)
  moreover have "i32 (word_of_nat (2 ^ k)) = int (2 ^ k)"
    using power_strict_increasing [OF k, of "2 :: nat"] by (intro i32_small) simp
  ultimately show ?thesis by (simp only: of_nat_power of_nat_numeral)
qed

text \<open>C40: \<open>ewma_init\<close> returns exactly when the low 32 bits of
  both arguments are non-zero: for a zero factor or weight the loop of \<open>ilog2\<close> never ends,
  after the error message has been logged.\<close>

theorem ewma_init_returns_iff:
  "(\<exists>a. ewma_init f w = Some a) \<longleftrightarrow> (ucast f :: u32) \<noteq> 0 \<and> (ucast w :: u32) \<noteq> 0"
proof -
  have z: "ilog2 (i32 (ucast x)) = None \<longleftrightarrow> (ucast x :: u32) = 0" for x :: u64
    by (simp add: ilog2_None_iff i32_def signed_eq_0_iff)
  show ?thesis using z [of f] z [of w] by (auto simp: ewma_init_def split: option.splits)
qed

text \<open>C34: After \<open>ewma_init\<close> with powers of two and any non-empty
  sequence of samples between \<open>lo\<close> and \<open>hi\<close>, with \<open>hi\<close> within the documented limit
  \<open>ULONG_MAX/(factor*weight)\<close>, no step overflows in a visible way: the average that
  \<open>ewma_read\<close> returns lies between \<open>lo\<close> and \<open>hi\<close>.\<close>

theorem ewma_average_bounded:
  assumes "f < 31" "w < 31" "hi * 2 ^ f * 2 ^ w < 2 ^ 64" "vs \<noteq> []"
    and vs: "\<forall>v \<in> set vs. lo \<le> unat v \<and> unat v \<le> hi"
  shows "\<exists>a. ewma_init (2 ^ f) (2 ^ w) = Some a \<and>
    lo \<le> unat (ewma_read (ewma_run a vs)) \<and> unat (ewma_read (ewma_run a vs)) \<le> hi"
proof -
  define a where "a = \<lparr>internal = 0, factor = word_of_nat f, weight = word_of_nat w\<rparr>"
  have init: "ewma_init (2 ^ f) (2 ^ w) = Some a"
    using assms(1,2) by (simp add: ewma_init_def a_def i32_exp ilog2_exp)
  have p: "unat (factor a) = f" "unat (weight a) = w" "internal a = 0"
    using assms(1,2) less_exp [of 64] by (simp_all add: a_def unsigned_of_nat take_bit_nat_eq_self)
  obtain us v where u: "vs = us @ [v]" using assms(4) by (cases vs rule: rev_cases) auto
  have "ewma_within lo hi (ewma_run a us)"
    using vs p assms(3) u by (intro ewma_run_within) (auto simp: ewma_within_def ewma_fits_def)
  then have "lo * 2 ^ f \<le> unat (internal (ewma_run a vs)) \<and> unat (internal (ewma_run a vs)) \<le> hi * 2 ^ f"
    using ewma_add_bounds [of lo hi "ewma_run a us" v] vs u p assms(3)
    by (simp add: ewma_run_snoc ewma_fits_def)
  then have "lo * 2 ^ f div 2 ^ f \<le> unat (internal (ewma_run a vs)) div 2 ^ f"
    "unat (internal (ewma_run a vs)) div 2 ^ f \<le> hi * 2 ^ f div 2 ^ f"
    by (simp_all only: div_le_mono)
  then show ?thesis using init p by (simp add: ewma_read_def unat_drop_bit_64)
qed

lemma ewma_average_bounded_witness:
  "\<exists>a. ewma_init (2 ^ 10) (2 ^ 3) = Some a \<and>
    40 \<le> unat (ewma_read (ewma_run a [50, 40, 90])) \<and> unat (ewma_read (ewma_run a [50, 40, 90])) \<le> 90"
  using ewma_average_bounded [of 10 3 90 "[50, 40, 90]" 40] by simp

end
