(* ===== verification/Wlan80211.thy ===== *)
theory Wlan80211
  imports Prelude
begin

text \<open>
  The constants and structures of \<open>include/uwifi/wlan80211.h\<close>, the packet structure and
  flags of \<open>include/uwifi/wlan_parser.h\<close>, and the enumerations of \<open>channel.h\<close> and
  \<open>wlan_util.h\<close> that the other components share.
\<close>

subsection \<open>Frame control\<close>

definition WLAN_FRAME_FC_VERSION_MASK :: u16 where "WLAN_FRAME_FC_VERSION_MASK = 0x0003"
definition WLAN_FRAME_FC_TYPE_MASK :: u16 where "WLAN_FRAME_FC_TYPE_MASK = 0x000C"
definition WLAN_FRAME_FC_STYPE_MASK :: u16 where "WLAN_FRAME_FC_STYPE_MASK = 0x00F0"
definition WLAN_FRAME_FC_STYPE_QOS :: u16 where "WLAN_FRAME_FC_STYPE_QOS = 0x0080"
definition WLAN_FRAME_FC_TO_DS :: u16 where "WLAN_FRAME_FC_TO_DS = 0x0100"
definition WLAN_FRAME_FC_FROM_DS :: u16 where "WLAN_FRAME_FC_FROM_DS = 0x0200"
definition WLAN_FRAME_FC_MORE_FRAG :: u16 where "WLAN_FRAME_FC_MORE_FRAG = 0x0400"
definition WLAN_FRAME_FC_RETRY :: u16 where "WLAN_FRAME_FC_RETRY = 0x0800"
definition WLAN_FRAME_FC_POWER_MGMT :: u16 where "WLAN_FRAME_FC_POWER_MGMT = 0x1000"
definition WLAN_FRAME_FC_MORE_DATA :: u16 where "WLAN_FRAME_FC_MORE_DATA = 0x2000"
definition WLAN_FRAME_FC_PROTECTED :: u16 where "WLAN_FRAME_FC_PROTECTED = 0x4000"
definition WLAN_FRAME_FC_ORDER :: u16 where "WLAN_FRAME_FC_ORDER = 0x8000"

definition WLAN_FRAME_FC_MASK :: u16 where
  "WLAN_FRAME_FC_MASK = WLAN_FRAME_FC_TYPE_MASK OR WLAN_FRAME_FC_STYPE_MASK"

lemmas fc_masks = WLAN_FRAME_FC_VERSION_MASK_def WLAN_FRAME_FC_TYPE_MASK_def
  WLAN_FRAME_FC_STYPE_MASK_def WLAN_FRAME_FC_STYPE_QOS_def WLAN_FRAME_FC_MASK_def

definition WLAN_FRAME_TYPE :: "u16 \<Rightarrow> u16" where
  "WLAN_FRAME_TYPE fc = drop_bit 2 (fc AND WLAN_FRAME_FC_TYPE_MASK)"

definition WLAN_FRAME_STYPE :: "u16 \<Rightarrow> u16" where
  "WLAN_FRAME_STYPE fc = drop_bit 4 (fc AND WLAN_FRAME_FC_STYPE_MASK)"

definition WLAN_FRAME_FC :: "u16 \<Rightarrow> u16 \<Rightarrow> u16" where
  "WLAN_FRAME_FC t s = (push_bit 2 t OR push_bit 4 s) AND WLAN_FRAME_FC_MASK"

abbreviation (input) WLAN_FRAME_TYPE_MGMT :: u16 where "WLAN_FRAME_TYPE_MGMT \<equiv> 0x0"
abbreviation (input) WLAN_FRAME_TYPE_CTRL :: u16 where "WLAN_FRAME_TYPE_CTRL \<equiv> 0x1"
abbreviation (input) WLAN_FRAME_TYPE_DATA :: u16 where "WLAN_FRAME_TYPE_DATA \<equiv> 0x2"
abbreviation (input) WLAN_FRAME_TYPE_EXTE :: u16 where "WLAN_FRAME_TYPE_EXTE \<equiv> 0x3"

definition WLAN_FRAME_IS_MGMT :: "u16 \<Rightarrow> bool" where
  "WLAN_FRAME_IS_MGMT fc \<longleftrightarrow> WLAN_FRAME_TYPE fc = WLAN_FRAME_TYPE_MGMT"

definition WLAN_FRAME_IS_CTRL :: "u16 \<Rightarrow> bool" where
  "WLAN_FRAME_IS_CTRL fc \<longleftrightarrow> WLAN_FRAME_TYPE fc = WLAN_FRAME_TYPE_CTRL"

definition WLAN_FRAME_IS_DATA :: "u16 \<Rightarrow> bool" where
  "WLAN_FRAME_IS_DATA fc \<longleftrightarrow> WLAN_FRAME_TYPE fc = WLAN_FRAME_TYPE_DATA"

definition WLAN_FRAME_IS_QOS :: "u16 \<Rightarrow> bool" where
  "WLAN_FRAME_IS_QOS fc \<longleftrightarrow> fc AND WLAN_FRAME_FC_STYPE_MASK = WLAN_FRAME_FC_STYPE_QOS"

text \<open>The frame types, by type and subtype.\<close>

definition WLAN_FRAME_ASSOC_REQ :: u16 where "WLAN_FRAME_ASSOC_REQ = WLAN_FRAME_FC WLAN_FRAME_TYPE_MGMT 0x0"
definition WLAN_FRAME_ASSOC_RESP :: u16 where "WLAN_FRAME_ASSOC_RESP = WLAN_FRAME_FC WLAN_FRAME_TYPE_MGMT 0x1"
definition WLAN_FRAME_REASSOC_REQ :: u16 where "WLAN_FRAME_REASSOC_REQ = WLAN_FRAME_FC WLAN_FRAME_TYPE_MGMT 0x2"
definition WLAN_FRAME_REASSOC_RESP :: u16 where "WLAN_FRAME_REASSOC_RESP = WLAN_FRAME_FC WLAN_FRAME_TYPE_MGMT 0x3"
definition WLAN_FRAME_PROBE_REQ :: u16 where "WLAN_FRAME_PROBE_REQ = WLAN_FRAME_FC WLAN_FRAME_TYPE_MGMT 0x4"
definition WLAN_FRAME_PROBE_RESP :: u16 where "WLAN_FRAME_PROBE_RESP = WLAN_FRAME_FC WLAN_FRAME_TYPE_MGMT 0x5"
definition WLAN_FRAME_TIMING :: u16 where "WLAN_FRAME_TIMING = WLAN_FRAME_FC WLAN_FRAME_TYPE_MGMT 0x6"
definition WLAN_FRAME_BEACON :: u16 where "WLAN_FRAME_BEACON = WLAN_FRAME_FC WLAN_FRAME_TYPE_MGMT 0x8"
definition WLAN_FRAME_ATIM :: u16 where "WLAN_FRAME_ATIM = WLAN_FRAME_FC WLAN_FRAME_TYPE_MGMT 0x9"
definition WLAN_FRAME_DISASSOC :: u16 where "WLAN_FRAME_DISASSOC = WLAN_FRAME_FC WLAN_FRAME_TYPE_MGMT 0xa"
definition WLAN_FRAME_AUTH :: u16 where "WLAN_FRAME_AUTH = WLAN_FRAME_FC WLAN_FRAME_TYPE_MGMT 0xb"
definition WLAN_FRAME_DEAUTH :: u16 where "WLAN_FRAME_DEAUTH = WLAN_FRAME_FC WLAN_FRAME_TYPE_MGMT 0xc"
definition WLAN_FRAME_ACTION :: u16 where "WLAN_FRAME_ACTION = WLAN_FRAME_FC WLAN_FRAME_TYPE_MGMT 0xd"
definition WLAN_FRAME_ACTION_NOACK :: u16 where "WLAN_FRAME_ACTION_NOACK = WLAN_FRAME_FC WLAN_FRAME_TYPE_MGMT 0xe"
definition WLAN_FRAME_BEAM_REP :: u16 where "WLAN_FRAME_BEAM_REP = WLAN_FRAME_FC WLAN_FRAME_TYPE_CTRL 0x4"
definition WLAN_FRAME_VHT_NDP :: u16 where "WLAN_FRAME_VHT_NDP = WLAN_FRAME_FC WLAN_FRAME_TYPE_CTRL 0x5"
definition WLAN_FRAME_CTRL_EXT :: u16 where "WLAN_FRAME_CTRL_EXT = WLAN_FRAME_FC WLAN_FRAME_TYPE_CTRL 0x6"
definition WLAN_FRAME_CTRL_WRAP :: u16 where "WLAN_FRAME_CTRL_WRAP = WLAN_FRAME_FC WLAN_FRAME_TYPE_CTRL 0x7"
definition WLAN_FRAME_BLKACK_REQ :: u16 where "WLAN_FRAME_BLKACK_REQ = WLAN_FRAME_FC WLAN_FRAME_TYPE_CTRL 0x8"
definition WLAN_FRAME_BLKACK :: u16 where "WLAN_FRAME_BLKACK = WLAN_FRAME_FC WLAN_FRAME_TYPE_CTRL 0x9"
definition WLAN_FRAME_PSPOLL :: u16 where "WLAN_FRAME_PSPOLL = WLAN_FRAME_FC WLAN_FRAME_TYPE_CTRL 0xa"
definition WLAN_FRAME_RTS :: u16 where "WLAN_FRAME_RTS = WLAN_FRAME_FC WLAN_FRAME_TYPE_CTRL 0xb"
definition WLAN_FRAME_CTS :: u16 where "WLAN_FRAME_CTS = WLAN_FRAME_FC WLAN_FRAME_TYPE_CTRL 0xc"
definition WLAN_FRAME_ACK :: u16 where "WLAN_FRAME_ACK = WLAN_FRAME_FC WLAN_FRAME_TYPE_CTRL 0xd"
definition WLAN_FRAME_CF_END :: u16 where "WLAN_FRAME_CF_END = WLAN_FRAME_FC WLAN_FRAME_TYPE_CTRL 0xe"
definition WLAN_FRAME_CF_END_ACK :: u16 where "WLAN_FRAME_CF_END_ACK = WLAN_FRAME_FC WLAN_FRAME_TYPE_CTRL 0xf"
definition WLAN_FRAME_DATA :: u16 where "WLAN_FRAME_DATA = WLAN_FRAME_FC WLAN_FRAME_TYPE_DATA 0x0"
definition WLAN_FRAME_DATA_CF_ACK :: u16 where "WLAN_FRAME_DATA_CF_ACK = WLAN_FRAME_FC WLAN_FRAME_TYPE_DATA 0x1"
definition WLAN_FRAME_DATA_CF_POLL :: u16 where "WLAN_FRAME_DATA_CF_POLL = WLAN_FRAME_FC WLAN_FRAME_TYPE_DATA 0x2"
definition WLAN_FRAME_DATA_CF_ACKPOLL :: u16 where "WLAN_FRAME_DATA_CF_ACKPOLL = WLAN_FRAME_FC WLAN_FRAME_TYPE_DATA 0x3"
definition WLAN_FRAME_NULL :: u16 where "WLAN_FRAME_NULL = WLAN_FRAME_FC WLAN_FRAME_TYPE_DATA 0x4"
definition WLAN_FRAME_CF_ACK :: u16 where "WLAN_FRAME_CF_ACK = WLAN_FRAME_FC WLAN_FRAME_TYPE_DATA 0x5"
definition WLAN_FRAME_CF_POLL :: u16 where "WLAN_FRAME_CF_POLL = WLAN_FRAME_FC WLAN_FRAME_TYPE_DATA 0x6"
definition WLAN_FRAME_CF_ACKPOLL :: u16 where "WLAN_FRAME_CF_ACKPOLL = WLAN_FRAME_FC WLAN_FRAME_TYPE_DATA 0x7"
definition WLAN_FRAME_QDATA :: u16 where "WLAN_FRAME_QDATA = WLAN_FRAME_FC WLAN_FRAME_TYPE_DATA 0x8"
definition WLAN_FRAME_QDATA_CF_ACK :: u16 where "WLAN_FRAME_QDATA_CF_ACK = WLAN_FRAME_FC WLAN_FRAME_TYPE_DATA 0x9"
definition WLAN_FRAME_QDATA_CF_POLL :: u16 where "WLAN_FRAME_QDATA_CF_POLL = WLAN_FRAME_FC WLAN_FRAME_TYPE_DATA 0xa"
definition WLAN_FRAME_QDATA_CF_ACKPOLL :: u16 where "WLAN_FRAME_QDATA_CF_ACKPOLL = WLAN_FRAME_FC WLAN_FRAME_TYPE_DATA 0xb"
definition WLAN_FRAME_QOS_NULL :: u16 where "WLAN_FRAME_QOS_NULL = WLAN_FRAME_FC WLAN_FRAME_TYPE_DATA 0xc"
definition WLAN_FRAME_QOS_CF_POLL :: u16 where "WLAN_FRAME_QOS_CF_POLL = WLAN_FRAME_FC WLAN_FRAME_TYPE_DATA 0xe"
definition WLAN_FRAME_QOS_CF_ACKPOLL :: u16 where "WLAN_FRAME_QOS_CF_ACKPOLL = WLAN_FRAME_FC WLAN_FRAME_TYPE_DATA 0xf"
definition WLAN_FRAME_DMG_BEACON :: u16 where "WLAN_FRAME_DMG_BEACON = WLAN_FRAME_FC WLAN_FRAME_TYPE_EXTE 0x0"

text \<open>The numeric values of the constants.\<close>

lemma WLAN_FRAME_FC_vals [fc_vals]:
  "WLAN_FRAME_ASSOC_REQ = 0x0"
  "WLAN_FRAME_ASSOC_RESP = 0x10"
  "WLAN_FRAME_REASSOC_REQ = 0x20"
  "WLAN_FRAME_REASSOC_RESP = 0x30"
  "WLAN_FRAME_PROBE_REQ = 0x40"
  "WLAN_FRAME_PROBE_RESP = 0x50"
  "WLAN_FRAME_TIMING = 0x60"
  "WLAN_FRAME_BEACON = 0x80"
  "WLAN_FRAME_ATIM = 0x90"
  "WLAN_FRAME_DISASSOC = 0xa0"
  "WLAN_FRAME_AUTH = 0xb0"
  "WLAN_FRAME_DEAUTH = 0xc0"
  "WLAN_FRAME_ACTION = 0xd0"
  "WLAN_FRAME_ACTION_NOACK = 0xe0"
  "WLAN_FRAME_BEAM_REP = 0x44"
  "WLAN_FRAME_VHT_NDP = 0x54"
  "WLAN_FRAME_CTRL_EXT = 0x64"
  "WLAN_FRAME_CTRL_WRAP = 0x74"
  "WLAN_FRAME_BLKACK_REQ = 0x84"
  "WLAN_FRAME_BLKACK = 0x94"
  "WLAN_FRAME_PSPOLL = 0xa4"
  "WLAN_FRAME_RTS = 0xb4"
  "WLAN_FRAME_CTS = 0xc4"
  "WLAN_FRAME_ACK = 0xd4"
  "WLAN_FRAME_CF_END = 0xe4"
  "WLAN_FRAME_CF_END_ACK = 0xf4"
  "WLAN_FRAME_DATA = 0x8"
  "WLAN_FRAME_DATA_CF_ACK = 0x18"
  "WLAN_FRAME_DATA_CF_POLL = 0x28"
  "WLAN_FRAME_DATA_CF_ACKPOLL = 0x38"
  "WLAN_FRAME_NULL = 0x48"
  "WLAN_FRAME_CF_ACK = 0x58"
  "WLAN_FRAME_CF_POLL = 0x68"
  "WLAN_FRAME_CF_ACKPOLL = 0x78"
  "WLAN_FRAME_QDATA = 0x88"
  "WLAN_FRAME_QDATA_CF_ACK = 0x98"
  "WLAN_FRAME_QDATA_CF_POLL = 0xa8"
  "WLAN_FRAME_QDATA_CF_ACKPOLL = 0xb8"
  "WLAN_FRAME_QOS_NULL = 0xc8"
  "WLAN_FRAME_QOS_CF_POLL = 0xe8"
  "WLAN_FRAME_QOS_CF_ACKPOLL = 0xf8"
  "WLAN_FRAME_DMG_BEACON = 0xc"
  by (simp_all add: WLAN_FRAME_ASSOC_REQ_def WLAN_FRAME_ASSOC_RESP_def WLAN_FRAME_REASSOC_REQ_def WLAN_FRAME_REASSOC_RESP_def WLAN_FRAME_PROBE_REQ_def WLAN_FRAME_PROBE_RESP_def WLAN_FRAME_TIMING_def WLAN_FRAME_BEACON_def WLAN_FRAME_ATIM_def WLAN_FRAME_DISASSOC_def WLAN_FRAME_AUTH_def WLAN_FRAME_DEAUTH_def WLAN_FRAME_ACTION_def WLAN_FRAME_ACTION_NOACK_def WLAN_FRAME_BEAM_REP_def WLAN_FRAME_VHT_NDP_def WLAN_FRAME_CTRL_EXT_def WLAN_FRAME_CTRL_WRAP_def WLAN_FRAME_BLKACK_REQ_def WLAN_FRAME_BLKACK_def WLAN_FRAME_PSPOLL_def WLAN_FRAME_RTS_def WLAN_FRAME_CTS_def WLAN_FRAME_ACK_def WLAN_FRAME_CF_END_def WLAN_FRAME_CF_END_ACK_def WLAN_FRAME_DATA_def WLAN_FRAME_DATA_CF_ACK_def WLAN_FRAME_DATA_CF_POLL_def WLAN_FRAME_DATA_CF_ACKPOLL_def WLAN_FRAME_NULL_def WLAN_FRAME_CF_ACK_def WLAN_FRAME_CF_POLL_def WLAN_FRAME_CF_ACKPOLL_def WLAN_FRAME_QDATA_def WLAN_FRAME_QDATA_CF_ACK_def WLAN_FRAME_QDATA_CF_POLL_def WLAN_FRAME_QDATA_CF_ACKPOLL_def WLAN_FRAME_QOS_NULL_def WLAN_FRAME_QOS_CF_POLL_def WLAN_FRAME_QOS_CF_ACKPOLL_def WLAN_FRAME_DMG_BEACON_def
    WLAN_FRAME_FC_def fc_masks)

lemma fc_flag_vals [fc_vals]:
  "WLAN_FRAME_FC_TO_DS = 0x0100" "WLAN_FRAME_FC_FROM_DS = 0x0200" "WLAN_FRAME_FC_RETRY = 0x0800"
  "WLAN_FRAME_FC_PROTECTED = 0x4000" "WLAN_FRAME_FC_ORDER = 0x8000" "WLAN_FRAME_FC_MASK = 0x00FC"
  "WLAN_FRAME_FC_TYPE_MASK = 0x000C" "WLAN_FRAME_FC_STYPE_MASK = 0x00F0"
  "WLAN_FRAME_FC_STYPE_QOS = 0x0080"
  by (simp_all add: fc_masks WLAN_FRAME_FC_TO_DS_def WLAN_FRAME_FC_FROM_DS_def WLAN_FRAME_FC_RETRY_def
      WLAN_FRAME_FC_PROTECTED_def WLAN_FRAME_FC_ORDER_def)

definition WLAN_FRAME_QOS_TID_MASK :: u16 where "WLAN_FRAME_QOS_TID_MASK = 0x7"
definition WLAN_FRAME_SEQ_MASK :: u16 where "WLAN_FRAME_SEQ_MASK = 0xFFF0"
definition WLAN_FRAME_SEQ_FRAG_MASK :: u16 where "WLAN_FRAME_SEQ_FRAG_MASK = 0x000F"

subsection \<open>Capabilities and information elements\<close>

definition WLAN_CAPAB_ESS :: u16 where "WLAN_CAPAB_ESS = 0x0001"
definition WLAN_CAPAB_IBSS :: u16 where "WLAN_CAPAB_IBSS = 0x0002"
definition WLAN_CAPAB_PRIVACY :: u16 where "WLAN_CAPAB_PRIVACY = 0x0010"

abbreviation (input) WLAN_IE_ID_SSID :: u8 where "WLAN_IE_ID_SSID \<equiv> 0"
abbreviation (input) WLAN_IE_ID_DSSS_PARAM :: u8 where "WLAN_IE_ID_DSSS_PARAM \<equiv> 3"
abbreviation (input) WLAN_IE_ID_HT_CAPAB :: u8 where "WLAN_IE_ID_HT_CAPAB \<equiv> 45"
abbreviation (input) WLAN_IE_ID_RSN :: u8 where "WLAN_IE_ID_RSN \<equiv> 48"
abbreviation (input) WLAN_IE_ID_HT_OPER :: u8 where "WLAN_IE_ID_HT_OPER \<equiv> 61"
abbreviation (input) WLAN_IE_ID_VHT_CAPAB :: u8 where "WLAN_IE_ID_VHT_CAPAB \<equiv> 191"
abbreviation (input) WLAN_IE_ID_VHT_OPER :: u8 where "WLAN_IE_ID_VHT_OPER \<equiv> 192"
abbreviation (input) WLAN_IE_ID_VHT_OMN :: u8 where "WLAN_IE_ID_VHT_OMN \<equiv> 199"
abbreviation (input) WLAN_IE_ID_VENDOR :: u8 where "WLAN_IE_ID_VENDOR \<equiv> 221"

definition WLAN_IE_HT_CAPAB_INFO_CHAN_WIDTH_40 :: u16 where
  "WLAN_IE_HT_CAPAB_INFO_CHAN_WIDTH_40 = 0x0002"

definition WLAN_IE_HT_OPER_INFO_CHAN_OFFSET :: u8 where
  "WLAN_IE_HT_OPER_INFO_CHAN_OFFSET = 0x0003"

definition WLAN_IE_VHT_CAPAB_INFO_CHAN_WIDTH :: u32 where
  "WLAN_IE_VHT_CAPAB_INFO_CHAN_WIDTH = 0x0000000c"

definition WLAN_MAX_SSID_LEN :: nat where "WLAN_MAX_SSID_LEN = 34"
definition WLAN_MAC_LEN :: nat where "WLAN_MAC_LEN = 6"

lemma len_vals [simp]: "WLAN_MAX_SSID_LEN = 34" "WLAN_MAC_LEN = 6"
  by (simp_all add: WLAN_MAX_SSID_LEN_def WLAN_MAC_LEN_def)

subsection \<open>Channel widths\<close>

datatype uwifi_chan_width =
    CHAN_WIDTH_UNSPEC
  | CHAN_WIDTH_20_NOHT
  | CHAN_WIDTH_20
  | CHAN_WIDTH_40
  | CHAN_WIDTH_80
  | CHAN_WIDTH_160
  | CHAN_WIDTH_8080

text \<open>The order of the enumerators, which the code compares.\<close>

primrec width_num :: "uwifi_chan_width \<Rightarrow> nat" where
  "width_num CHAN_WIDTH_UNSPEC = 0"
| "width_num CHAN_WIDTH_20_NOHT = 1"
| "width_num CHAN_WIDTH_20 = 2"
| "width_num CHAN_WIDTH_40 = 3"
| "width_num CHAN_WIDTH_80 = 4"
| "width_num CHAN_WIDTH_160 = 5"
| "width_num CHAN_WIDTH_8080 = 6"

lemma width_num_inj: "width_num a = width_num b \<Longrightarrow> a = b"
  by (cases a; cases b) simp_all

instantiation uwifi_chan_width :: linorder
begin

definition less_eq_uwifi_chan_width :: "uwifi_chan_width \<Rightarrow> uwifi_chan_width \<Rightarrow> bool" where
  "less_eq_uwifi_chan_width a b \<longleftrightarrow> width_num a \<le> width_num b"

definition less_uwifi_chan_width :: "uwifi_chan_width \<Rightarrow> uwifi_chan_width \<Rightarrow> bool" where
  "less_uwifi_chan_width a b \<longleftrightarrow> width_num a < width_num b"

instance
  by standard (auto simp: less_eq_uwifi_chan_width_def less_uwifi_chan_width_def dest: width_num_inj)

end

lemmas width_order [simp] = less_eq_uwifi_chan_width_def less_uwifi_chan_width_def

datatype uwifi_80211_std =
    IEEE80211_UNKNOWN
  | IEEE80211_B
  | IEEE80211_G
  | IEEE80211_A
  | IEEE80211_N
  | IEEE80211_AC

text \<open>The enumerator \<open>IEEE80211_\<close> of the source has the name \<open>IEEE80211_UNKNOWN\<close> here.\<close>

primrec std_num :: "uwifi_80211_std \<Rightarrow> nat" where
  "std_num IEEE80211_UNKNOWN = 0"
| "std_num IEEE80211_B = 1"
| "std_num IEEE80211_G = 2"
| "std_num IEEE80211_A = 3"
| "std_num IEEE80211_N = 4"
| "std_num IEEE80211_AC = 5"

lemma std_num_inj: "std_num a = std_num b \<Longrightarrow> a = b"
  by (cases a; cases b) simp_all

instantiation uwifi_80211_std :: linorder
begin

definition less_eq_uwifi_80211_std :: "uwifi_80211_std \<Rightarrow> uwifi_80211_std \<Rightarrow> bool" where
  "less_eq_uwifi_80211_std a b \<longleftrightarrow> std_num a \<le> std_num b"

definition less_uwifi_80211_std :: "uwifi_80211_std \<Rightarrow> uwifi_80211_std \<Rightarrow> bool" where
  "less_uwifi_80211_std a b \<longleftrightarrow> std_num a < std_num b"

instance
  by standard (auto simp: less_eq_uwifi_80211_std_def less_uwifi_80211_std_def dest: std_num_inj)

end

lemmas std_order [simp] = less_eq_uwifi_80211_std_def less_uwifi_80211_std_def

subsection \<open>Packets\<close>

definition PHY_FLAG_SHORTPRE :: u32 where "PHY_FLAG_SHORTPRE = 1"
definition PHY_FLAG_BADFCS :: u32 where "PHY_FLAG_BADFCS = 2"
definition PHY_FLAG_A :: u32 where "PHY_FLAG_A = 4"
definition PHY_FLAG_B :: u32 where "PHY_FLAG_B = 8"
definition PHY_FLAG_G :: u32 where "PHY_FLAG_G = 16"
definition PHY_FLAG_MODE_MASK :: u32 where "PHY_FLAG_MODE_MASK = 0x1C"

definition WLAN_MODE_AP :: u32 where "WLAN_MODE_AP = 1"
definition WLAN_MODE_IBSS :: u32 where "WLAN_MODE_IBSS = 2"
definition WLAN_MODE_STA :: u32 where "WLAN_MODE_STA = 4"
definition WLAN_MODE_PROBE :: u32 where "WLAN_MODE_PROBE = 8"
definition WLAN_MODE_4ADDR :: u32 where "WLAN_MODE_4ADDR = 16"
definition WLAN_MODE_UNKNOWN :: u32 where "WLAN_MODE_UNKNOWN = 32"

lemmas mode_vals = WLAN_MODE_AP_def WLAN_MODE_IBSS_def WLAN_MODE_STA_def WLAN_MODE_PROBE_def
  WLAN_MODE_4ADDR_def WLAN_MODE_UNKNOWN_def

text \<open>
  Strings held in C arrays of fixed size are the byte arrays themselves; one-bit fields
  are Booleans.
\<close>

record uwifi_packet =
  pkt_types :: u32
  phy_signal :: int
  phy_rate :: u32
  phy_rate_idx :: u8
  phy_rate_flags :: u8
  phy_freq :: u32
  phy_flags :: u32
  phy_injected :: bool
  wlan_len :: u32
  wlan_fromds :: bool
  wlan_tods :: bool
  wlan_type :: u16
  wlan_ta :: bytes
  wlan_ra :: bytes
  wlan_bssid :: bytes
  wlan_essid :: bytes
  wlan_tsf :: u64
  wlan_bintval :: u32
  wlan_mode :: u32
  wlan_channel :: u8
  wlan_chan_width :: uwifi_chan_width
  wlan_tx_streams :: u8
  wlan_rx_streams :: u8
  wlan_qos_class :: u8
  wlan_nav :: u32
  wlan_seqno :: u32
  wlan_wep :: bool
  wlan_retry :: bool
  wlan_wpa :: bool
  wlan_rsn :: bool
  wlan_ht40plus :: bool
  bat_version :: u8
  bat_packet_type :: u8
  bat_gw :: bool
  ip_src :: u32
  ip_dst :: u32
  tcpudp_port :: u32
  olsr_type :: u32
  olsr_neigh :: u32
  olsr_tc :: u32
  pkt_duration :: u32
  pkt_chan_idx :: int
  wlan_retries :: int

text \<open>A packet structure filled with zero bytes.\<close>

definition zero_packet :: uwifi_packet where
  "zero_packet = \<lparr>pkt_types = 0, phy_signal = 0, phy_rate = 0, phy_rate_idx = 0, phy_rate_flags = 0,
     phy_freq = 0, phy_flags = 0, phy_injected = False, wlan_len = 0, wlan_fromds = False,
     wlan_tods = False, wlan_type = 0, wlan_ta = replicate 6 0, wlan_ra = replicate 6 0,
     wlan_bssid = replicate 6 0, wlan_essid = replicate 34 0, wlan_tsf = 0, wlan_bintval = 0,
     wlan_mode = 0, wlan_channel = 0, wlan_chan_width = CHAN_WIDTH_UNSPEC, wlan_tx_streams = 0,
     wlan_rx_streams = 0, wlan_qos_class = 0, wlan_nav = 0, wlan_seqno = 0, wlan_wep = False,
     wlan_retry = False, wlan_wpa = False, wlan_rsn = False, wlan_ht40plus = False,
     bat_version = 0, bat_packet_type = 0, bat_gw = False, ip_src = 0, ip_dst = 0,
     tcpudp_port = 0, olsr_type = 0, olsr_neigh = 0, olsr_tc = 0, pkt_duration = 0,
     pkt_chan_idx = 0, wlan_retries = 0\<rparr>"

end
