(* ===== verification/Wlan_Util.thy ===== *)
theory Wlan_Util
  imports Wlan80211
begin

text \<open>
  \<open>core/wlan_util.c\<close>: names of frame types, rate tables, stream counts of the HT and VHT
  capabilities, the 802.11 standard of a channel, rate or frame, and the conversion
  between channel numbers and frequencies.  C \<open>int\<close> parameters are HOL \<open>int\<close> values; the
  division of \<open>int\<close> truncates towards zero (\<open>sdiv\<close>).
\<close>

subsection \<open>Frame names\<close>

datatype pkt_name = pkt_name (stype_char: char) (stype_name: string) (stype_fc: u16) (stype_desc: string)

definition stype_names :: "pkt_name list list" where
  "stype_names = [
    [pkt_name CHR ''a'' ''ASOCRQ'' WLAN_FRAME_ASSOC_REQ ''Association request'',
     pkt_name CHR ''A'' ''ASOCRP'' WLAN_FRAME_ASSOC_RESP ''Association response'',
     pkt_name CHR ''o'' ''REASRQ'' WLAN_FRAME_REASSOC_REQ ''Reassociation request'',
     pkt_name CHR ''O'' ''REASRP'' WLAN_FRAME_REASSOC_RESP ''Reassociation response'',
     pkt_name CHR ''p'' ''PROBRQ'' WLAN_FRAME_PROBE_REQ ''Probe request'',
     pkt_name CHR ''P'' ''PROBRP'' WLAN_FRAME_PROBE_RESP ''Probe response'',
     pkt_name CHR ''T'' ''TIMING'' WLAN_FRAME_TIMING ''Timing Advertisement'',
     pkt_name CHR ''-'' ''-RESV-'' 0x0070 ''RESERVED'',
     pkt_name CHR ''b'' ''BEACON'' WLAN_FRAME_BEACON ''Beacon'',
     pkt_name CHR ''t'' ''ATIM'' WLAN_FRAME_ATIM ''ATIM'',
     pkt_name CHR ''S'' ''DISASC'' WLAN_FRAME_DISASSOC ''Disassociation'',
     pkt_name CHR ''u'' ''AUTH'' WLAN_FRAME_AUTH ''Authentication'',
     pkt_name CHR ''U'' ''DEAUTH'' WLAN_FRAME_DEAUTH ''Deauthentication'',
     pkt_name CHR ''X'' ''ACTION'' WLAN_FRAME_ACTION ''Action'',
     pkt_name CHR ''x'' ''ACTNOA'' WLAN_FRAME_ACTION_NOACK ''Action No Ack'',
     pkt_name CHR ''-'' ''-RESV-'' 0x0070 ''RESERVED''],
    [pkt_name CHR ''-'' ''-RESV-'' 0x0004 ''RESERVED'',
     pkt_name CHR ''-'' ''-RESV-'' 0x0014 ''RESERVED'',
     pkt_name CHR ''-'' ''-RESV-'' 0x0024 ''RESERVED'',
     pkt_name CHR ''-'' ''-RESV-'' 0x0034 ''RESERVED'',
     pkt_name CHR ''B'' ''BEAMRP'' WLAN_FRAME_BEAM_REP ''Beamforming Report Poll'',
     pkt_name CHR ''v'' ''VHTNDP'' WLAN_FRAME_VHT_NDP ''VHT NDP Announcement'',
     pkt_name CHR ''-'' ''-RESV-'' 0x0064 ''RESERVED'',
     pkt_name CHR ''w'' ''CTWRAP'' WLAN_FRAME_CTRL_WRAP ''Control Wrapper'',
     pkt_name CHR ''l'' ''BACKRQ'' WLAN_FRAME_BLKACK_REQ ''Block Ack Request'',
     pkt_name CHR ''L'' ''BACK'' WLAN_FRAME_BLKACK ''Block Ack'',
     pkt_name CHR ''s'' ''PSPOLL'' WLAN_FRAME_PSPOLL ''PS-Poll'',
     pkt_name CHR ''R'' ''RTS'' WLAN_FRAME_RTS ''RTS'',
     pkt_name CHR ''C'' ''CTS'' WLAN_FRAME_CTS ''CTS'',
     pkt_name CHR ''k'' ''ACK'' WLAN_FRAME_ACK ''ACK'',
     pkt_name CHR ''e'' ''CFEND'' WLAN_FRAME_CF_END ''CF-End'',
     pkt_name CHR ''E'' ''CFENDK'' WLAN_FRAME_CF_END_ACK ''CF-End + CF-Ack''],
    [pkt_name CHR ''D'' ''DATA'' WLAN_FRAME_DATA ''Data'',
     pkt_name CHR ''F'' ''DCFACK'' WLAN_FRAME_DATA_CF_ACK ''Data + CF-Ack'',
     pkt_name CHR ''g'' ''DCFPLL'' WLAN_FRAME_DATA_CF_POLL ''Data + CF-Poll'',
     pkt_name CHR ''G'' ''DCFKPL'' WLAN_FRAME_DATA_CF_ACKPOLL ''Data + CF-Ack + CF-Poll'',
     pkt_name CHR ''n'' ''NULL'' WLAN_FRAME_NULL ''Null (no data)'',
     pkt_name CHR ''h'' ''CFACK'' WLAN_FRAME_CF_ACK ''CF-Ack (no data)'',
     pkt_name CHR ''H'' ''CFPOLL'' WLAN_FRAME_CF_POLL ''CF-Poll (no data)'',
     pkt_name CHR ''j'' ''CFCKPL'' WLAN_FRAME_CF_ACKPOLL ''CF-Ack + CF-Poll (no data)'',
     pkt_name CHR ''Q'' ''QDATA'' WLAN_FRAME_QDATA ''QoS Data'',
     pkt_name CHR ''q'' ''QDCFCK'' WLAN_FRAME_QDATA_CF_ACK ''QoS Data + CF-Ack'',
     pkt_name CHR ''K'' ''QDCFPL'' WLAN_FRAME_QDATA_CF_POLL ''QoS Data + CF-Poll'',
     pkt_name CHR ''y'' ''QDCFKP'' WLAN_FRAME_QDATA_CF_ACKPOLL ''QoS Data + CF-Ack + CF-Poll'',
     pkt_name CHR ''N'' ''QDNULL'' WLAN_FRAME_QOS_NULL ''QoS Null (no data)'',
     pkt_name CHR ''-'' ''-RESV-'' 0x00D0 ''RESERVED'',
     pkt_name CHR ''Y'' ''QCFPLL'' WLAN_FRAME_QOS_CF_POLL ''QoS CF-Poll (no data)'',
     pkt_name CHR ''z'' ''QCFKPL'' WLAN_FRAME_QOS_CF_ACKPOLL ''QoS CF-Ack + CF-Poll (no data)'']]"

definition unknow :: pkt_name where "unknow = pkt_name CHR ''?'' ''UNKNOW'' 0 ''Unknown''"
definition badfcs :: pkt_name where "badfcs = pkt_name CHR ''*'' ''BADFCS'' 0 ''Bad FCS''"

definition wlan_get_packet_struct :: "u16 \<Rightarrow> pkt_name" where
  "wlan_get_packet_struct type =
     (let t = WLAN_FRAME_TYPE type in
      if type = 1 then badfcs
      else if t = 3 then unknow
      else stype_names ! unat (WLAN_FRAME_TYPE type) ! unat (WLAN_FRAME_STYPE type))"

definition wlan_get_packet_type_char :: "u16 \<Rightarrow> char" where
  "wlan_get_packet_type_char type = stype_char (wlan_get_packet_struct type)"

definition wlan_get_packet_type_name :: "u16 \<Rightarrow> string" where
  "wlan_get_packet_type_name type = stype_name (wlan_get_packet_struct type)"

lemma fc_field_bound: "unat (drop_bit k (f AND m) :: u16) \<le> unat m div 2 ^ k"
proof -
  have "unat (f AND m) \<le> unat m" using word_and_le1 [of f m] by (simp add: word_le_nat_alt)
  then show ?thesis unfolding unat_drop_bit_eq by (simp add: drop_bit_eq_div div_le_mono)
qed

lemma type_bound: "unat (WLAN_FRAME_TYPE f) \<le> 3"
  using fc_field_bound [of 2 f "0xC"] by (simp add: WLAN_FRAME_TYPE_def fc_vals)

lemma stype_bound: "unat (WLAN_FRAME_STYPE f) \<le> 15"
  using fc_field_bound [of 4 f "0xF0"] by (simp add: WLAN_FRAME_STYPE_def fc_vals)

text \<open>The two fields make up the masked frame control value.\<close>

lemma FC_TYPE_STYPE: "WLAN_FRAME_FC (WLAN_FRAME_TYPE f) (WLAN_FRAME_STYPE f) = f AND WLAN_FRAME_FC_MASK"
proof -
  have b: "bit (0xC :: int) n \<longleftrightarrow> n = 2 \<or> n = 3"
    "bit (0xF0 :: int) n \<longleftrightarrow> n = 4 \<or> n = 5 \<or> n = 6 \<or> n = 7"
    "bit (0xFC :: int) n \<longleftrightarrow> n = 2 \<or> n = 3 \<or> n = 4 \<or> n = 5 \<or> n = 6 \<or> n = 7" for n
    by (auto simp: bit_numeral_rec bit_1_iff split: nat.splits)
  show ?thesis
    unfolding WLAN_FRAME_FC_def WLAN_FRAME_TYPE_def WLAN_FRAME_STYPE_def fc_vals
    by (rule bit_word_eqI, simp add: bit_simps b) (auto simp: numeral_2_eq_2 numeral_3_eq_3)
qed

subsection \<open>Rates\<close>

text \<open>Rates are in units of 100 kbps.\<close>

definition wlan_rate_to_index :: "int \<Rightarrow> int" where
  "wlan_rate_to_index rate =
    (if rate = 540 then 12 else if rate = 480 then 11 else if rate = 360 then 10
     else if rate = 240 then 9 else if rate = 180 then 8 else if rate = 120 then 7
     else if rate = 110 then 6 else if rate = 90 then 5 else if rate = 60 then 4
     else if rate = 55 then 3 else if rate = 20 then 2 else if rate = 10 then 1 else 0)"

definition wlan_rate_to_rate :: "int \<Rightarrow> int" where
  "wlan_rate_to_rate idx =
    (if idx = 12 then 540 else if idx = 11 then 480 else if idx = 10 then 360
     else if idx = 9 then 240 else if idx = 8 then 180 else if idx = 7 then 120
     else if idx = 6 then 110 else if idx = 5 then 90 else if idx = 4 then 60
     else if idx = 3 then 55 else if idx = 2 then 20 else if idx = 1 then 10 else 0)"

definition wlan_ht_mcs_to_rate :: "int \<Rightarrow> bool \<Rightarrow> bool \<Rightarrow> int" where
  "wlan_ht_mcs_to_rate mcs ht20 lgi =
    (if mcs = 0 then (if ht20 then (if lgi then 65 else 72) else (if lgi then 135 else 150))
     else if mcs = 1 then (if ht20 then (if lgi then 130 else 144) else (if lgi then 270 else 300))
     else if mcs = 2 then (if ht20 then (if lgi then 195 else 217) else (if lgi then 405 else 450))
     else if mcs = 3 then (if ht20 then (if lgi then 260 else 289) else (if lgi then 540 else 600))
     else if mcs = 4 then (if ht20 then (if lgi then 390 else 433) else (if lgi then 810 else 900))
     else if mcs = 5 then (if ht20 then (if lgi then 520 else 578) else (if lgi then 1080 else 1200))
     else if mcs = 6 then (if ht20 then (if lgi then 585 else 650) else (if lgi then 1215 else 1350))
     else if mcs = 7 then (if ht20 then (if lgi then 650 else 722) else (if lgi then 1350 else 1500))
     else if mcs = 8 then (if ht20 then (if lgi then 130 else 144) else (if lgi then 270 else 300))
     else if mcs = 9 then (if ht20 then (if lgi then 260 else 289) else (if lgi then 540 else 600))
     else if mcs = 10 then (if ht20 then (if lgi then 390 else 433) else (if lgi then 810 else 900))
     else if mcs = 11 then (if ht20 then (if lgi then 520 else 578) else (if lgi then 1080 else 1200))
     else if mcs = 12 then (if ht20 then (if lgi then 780 else 867) else (if lgi then 1620 else 1800))
     else if mcs = 13 then (if ht20 then (if lgi then 1040 else 1156) else (if lgi then 2160 else 2400))
     else if mcs = 14 then (if ht20 then (if lgi then 1170 else 1300) else (if lgi then 2430 else 2700))
     else if mcs = 15 then (if ht20 then (if lgi then 1300 else 1444) else (if lgi then 2700 else 3000))
     else if mcs = 16 then (if ht20 then (if lgi then 195 else 217) else (if lgi then 405 else 450))
     else if mcs = 17 then (if ht20 then (if lgi then 39 else 433) else (if lgi then 810 else 900))
     else if mcs = 18 then (if ht20 then (if lgi then 585 else 650) else (if lgi then 1215 else 1350))
     else if mcs = 19 then (if ht20 then (if lgi then 78 else 867) else (if lgi then 1620 else 1800))
     else if mcs = 20 then (if ht20 then (if lgi then 1170 else 1300) else (if lgi then 2430 else 2700))
     else if mcs = 21 then (if ht20 then (if lgi then 1560 else 1733) else (if lgi then 3240 else 3600))
     else if mcs = 22 then (if ht20 then (if lgi then 1755 else 1950) else (if lgi then 3645 else 4050))
     else if mcs = 23 then (if ht20 then (if lgi then 1950 else 2167) else (if lgi then 4050 else 4500))
     else if mcs = 24 then (if ht20 then (if lgi then 260 else 288) else (if lgi then 540 else 600))
     else if mcs = 25 then (if ht20 then (if lgi then 520 else 576) else (if lgi then 1080 else 1200))
     else if mcs = 26 then (if ht20 then (if lgi then 780 else 868) else (if lgi then 1620 else 1800))
     else if mcs = 27 then (if ht20 then (if lgi then 1040 else 1156) else (if lgi then 2160 else 2400))
     else if mcs = 28 then (if ht20 then (if lgi then 1560 else 1732) else (if lgi then 3240 else 3600))
     else if mcs = 29 then (if ht20 then (if lgi then 2080 else 2312) else (if lgi then 4320 else 4800))
     else if mcs = 30 then (if ht20 then (if lgi then 2340 else 2600) else (if lgi then 4860 else 5400))
     else if mcs = 31 then (if ht20 then (if lgi then 2600 else 2888) else (if lgi then 5400 else 6000))
     else 0)"

text \<open>
  The VHT rate \<open>10.0 * streams * wf * mf / (sgi ? 3.6 : 4.0)\<close>.  The modulation factor is the
  single-precision number nearest to the decimal constant; every one is a multiple of
  \<open>2\<^sup>-\<^sup>2\<^sup>1\<close> and is kept scaled by \<open>2097152 = 2\<^sup>2\<^sup>1\<close> (6.67 is 13988004).  For the stream counts of
  the callers, which are \<open>unsigned char\<close>, the product is below \<open>2\<^sup>5\<^sup>3\<close> and exact, and
  the truncated quotient is the exact one: the quotient by 3.6 is an integer or farther
  from every integer than the rounding errors of the constant and of the division reach.
\<close>

definition vht_mf :: "int \<Rightarrow> int option" where
  "vht_mf mcs =
    (if mcs = 0 then Some 1048576 else if mcs = 1 then Some 2097152 else if mcs = 2 then Some 3145728
     else if mcs = 3 then Some 4194304 else if mcs = 4 then Some 6291456 else if mcs = 5 then Some 8388608
     else if mcs = 6 then Some 9437184 else if mcs = 7 then Some 10485760 else if mcs = 8 then Some 12582912
     else if mcs = 9 then Some 13988004 else None)"

definition vht_wf :: "uwifi_chan_width \<Rightarrow> int option" where
  "vht_wf width = (case width of
       CHAN_WIDTH_UNSPEC \<Rightarrow> None
     | CHAN_WIDTH_20_NOHT \<Rightarrow> None
     | CHAN_WIDTH_20 \<Rightarrow> Some 52
     | CHAN_WIDTH_40 \<Rightarrow> Some 108
     | CHAN_WIDTH_80 \<Rightarrow> Some 234
     | CHAN_WIDTH_160 \<Rightarrow> Some 468
     | CHAN_WIDTH_8080 \<Rightarrow> Some 468)"

definition wlan_vht_mcs_to_rate :: "uwifi_chan_width \<Rightarrow> int \<Rightarrow> int \<Rightarrow> bool \<Rightarrow> int" where
  "wlan_vht_mcs_to_rate width streams mcs sgi =
    (case vht_wf width of None \<Rightarrow> -1 | Some w \<Rightarrow>
     (case vht_mf mcs of None \<Rightarrow> -1 | Some mf \<Rightarrow>
       if width = CHAN_WIDTH_20 \<and> mcs = 9 \<and> streams \<noteq> 3 then -1
       else if width = CHAN_WIDTH_80 \<and> mcs = 6 \<and> streams = 3 then -1
       else if width = CHAN_WIDTH_160 \<and> mcs = 9 \<and> streams = 3 then -1
       else if width < CHAN_WIDTH_80 \<and> streams > 4 then -1
       else if width = CHAN_WIDTH_80 \<and> mcs = 9 \<and> streams = 6 then -1
       else if width = CHAN_WIDTH_80 \<and> mcs = 6 \<and> streams = 7 then -1
       else if sgi then (10 * streams * w * mf * 10) sdiv (36 * 2097152)
       else (10 * streams * w * mf) sdiv (4 * 2097152)))"

definition wlan_max_phy_rate :: "uwifi_chan_width \<Rightarrow> u8 \<Rightarrow> int" where
  "wlan_max_phy_rate width streams_rx = (case width of
       CHAN_WIDTH_UNSPEC \<Rightarrow> 540
     | CHAN_WIDTH_20_NOHT \<Rightarrow> 540
     | CHAN_WIDTH_20 \<Rightarrow> wlan_ht_mcs_to_rate (uint streams_rx * 8 - 1) True False
     | CHAN_WIDTH_40 \<Rightarrow> wlan_ht_mcs_to_rate (uint streams_rx * 8 - 1) False False
     | CHAN_WIDTH_80 \<Rightarrow> wlan_vht_mcs_to_rate width (uint streams_rx) 9 True
     | CHAN_WIDTH_160 \<Rightarrow> wlan_vht_mcs_to_rate width (uint streams_rx) 9 True
     | CHAN_WIDTH_8080 \<Rightarrow> wlan_vht_mcs_to_rate width (uint streams_rx) 9 True)"

subsection \<open>Capabilities\<close>

definition wlan_chan_width_from_vht_capab :: "u32 \<Rightarrow> uwifi_chan_width" where
  "wlan_chan_width_from_vht_capab vht =
    (let k = drop_bit 2 (vht AND WLAN_IE_VHT_CAPAB_INFO_CHAN_WIDTH) in
     if k = 0 then CHAN_WIDTH_80 else if k = 1 then CHAN_WIDTH_160
     else if k = 2 then CHAN_WIDTH_8080 else CHAN_WIDTH_UNSPEC)"

text \<open>\<open>for (i = 0; i < n; i++) if (stop(i)) break;\<close> leaves \<open>i\<close> at the first stop or at \<open>n\<close>.\<close>

fun break_from :: "(nat \<Rightarrow> bool) \<Rightarrow> nat \<Rightarrow> nat \<Rightarrow> nat" where
  "break_from stop i 0 = i"
| "break_from stop i (Suc k) = (if stop i then i else break_from stop (Suc i) k)"

lemma break_from_bounds: "i \<le> break_from stop i k \<and> break_from stop i k \<le> i + k"
  by (induction stop i k rule: break_from.induct) auto

lemma break_from_before: "i \<le> j \<Longrightarrow> j < break_from stop i k \<Longrightarrow> \<not> stop j"
proof (induction stop i k rule: break_from.induct)
  case (2 stop i k)
  then show ?case by (cases "i = j") (auto split: if_splits)
qed simp

lemma break_from_at: "break_from stop i k < i + k \<Longrightarrow> stop (break_from stop i k)"
  by (induction stop i k rule: break_from.induct) auto

text \<open>
  The result is the pair of the two counts written through the pointers \<open>rx\<close> and \<open>tx\<close>;
  \<open>tx\<close> is the value held before the call.  The array must have 13 bytes (6 for VHT).
\<close>

definition wlan_ht_streams_from_mcs :: "bytes \<Rightarrow> u8 \<Rightarrow> (u8 \<times> u8) option" where
  "wlan_ht_streams_from_mcs mcs tx = do {
     m12 \<leftarrow> rd mcs 12;
     let i = break_from (\<lambda>i. mcs ! i = 0) 0 4;
     let rx = word_of_nat i;
     let tx_mcs_defined = flag_set m12 0x01;
     let tx_rx_mcs_not_equal = flag_set m12 0x02;
     let tx_max_streams = drop_bit 2 (m12 AND 0x0c) + 1;
     Some (rx, if tx_mcs_defined \<and> \<not> tx_rx_mcs_not_equal then rx
               else if tx_mcs_defined \<and> tx_rx_mcs_not_equal then tx_max_streams
               else tx) }"

text \<open>One half of the VHT map: the first of eight two-bit fields that is 3 (not supported).\<close>

definition vht_streams :: "u16 \<Rightarrow> nat" where
  "vht_streams tmp = break_from (\<lambda>i. drop_bit (i * 2) tmp AND 3 = 3) 0 8"

definition wlan_vht_streams_from_mcs :: "bytes \<Rightarrow> (u8 \<times> u8) option" where
  "wlan_vht_streams_from_mcs mcs = do {
     m0 \<leftarrow> rd mcs 0; m1 \<leftarrow> rd mcs 1;
     let rx = word_of_nat (vht_streams (ucast m0 OR push_bit 8 (ucast m1)));
     m4 \<leftarrow> rd mcs 4; m5 \<leftarrow> rd mcs 5;
     let tx = word_of_nat (vht_streams (ucast m4 OR push_bit 8 (ucast m5)));
     Some (rx, tx) }"

subsection \<open>Standards and modes\<close>

definition wlan_80211std_from_chan :: "uwifi_chan_width \<Rightarrow> int \<Rightarrow> uwifi_80211_std" where
  "wlan_80211std_from_chan width chan = (case width of
       CHAN_WIDTH_UNSPEC \<Rightarrow> if chan > 14 then IEEE80211_A else IEEE80211_B
     | CHAN_WIDTH_20_NOHT \<Rightarrow> if chan > 14 then IEEE80211_A else IEEE80211_B
     | CHAN_WIDTH_20 \<Rightarrow> IEEE80211_N
     | CHAN_WIDTH_40 \<Rightarrow> IEEE80211_N
     | CHAN_WIDTH_80 \<Rightarrow> IEEE80211_AC
     | CHAN_WIDTH_160 \<Rightarrow> IEEE80211_AC
     | CHAN_WIDTH_8080 \<Rightarrow> IEEE80211_AC)"

definition wlan_80211std_from_rate :: "int \<Rightarrow> int \<Rightarrow> uwifi_80211_std" where
  "wlan_80211std_from_rate rate_idx chan =
    (if rate_idx \<le> 6 then IEEE80211_B
     else if rate_idx \<le> 12 then (if chan > 14 then IEEE80211_A else IEEE80211_G)
     else IEEE80211_N)"

definition wlan_80211std_from_type :: "u16 \<Rightarrow> uwifi_80211_std" where
  "wlan_80211std_from_type fc =
    (if fc = WLAN_FRAME_BEAM_REP \<or> fc = WLAN_FRAME_VHT_NDP then IEEE80211_AC
     else if fc = WLAN_FRAME_TIMING \<or> fc = WLAN_FRAME_ACTION_NOACK then IEEE80211_N
     else if fc = WLAN_FRAME_ACTION \<or> fc = WLAN_FRAME_BLKACK_REQ \<or> fc = WLAN_FRAME_BLKACK \<or>
       fc = WLAN_FRAME_QDATA \<or> fc = WLAN_FRAME_QDATA_CF_ACK \<or> fc = WLAN_FRAME_QDATA_CF_POLL \<or>
       fc = WLAN_FRAME_QDATA_CF_ACKPOLL \<or> fc = WLAN_FRAME_QOS_NULL then IEEE80211_G
     else IEEE80211_UNKNOWN)"

definition wlan_80211std_str :: "uwifi_80211_std \<Rightarrow> string" where
  "wlan_80211std_str std = (case std of
       IEEE80211_UNKNOWN \<Rightarrow> ''?''
     | IEEE80211_B \<Rightarrow> ''B''
     | IEEE80211_G \<Rightarrow> ''G''
     | IEEE80211_A \<Rightarrow> ''A''
     | IEEE80211_N \<Rightarrow> ''N''
     | IEEE80211_AC \<Rightarrow> ''AC'')"

text \<open>The second test repeats the first one, as in the source.\<close>

definition wlan_mode_string :: "u32 \<Rightarrow> string" where
  "wlan_mode_string mode =
    (if flag_set mode WLAN_MODE_AP then ''AP''
     else if flag_set mode WLAN_MODE_AP then ''IBSS''
     else if flag_set mode WLAN_MODE_STA then ''STA''
     else if flag_set mode WLAN_MODE_PROBE then ''PRB''
     else ''UNK'')"

subsection \<open>Channel numbers and frequencies\<close>

definition wlan_freq2chan :: "int \<Rightarrow> int" where
  "wlan_freq2chan freq =
    (if freq = 2484 then 14
     else if freq < 2484 then (freq - 2407) sdiv 5
     else if freq \<ge> 4910 \<and> freq \<le> 4980 then (freq - 4000) sdiv 5
     else if freq \<le> 45000 then (freq - 5000) sdiv 5
     else if freq \<ge> 58320 \<and> freq \<le> 64800 then (freq - 56160) sdiv 2160
     else 0)"

definition wlan_chan2freq :: "int \<Rightarrow> int" where
  "wlan_chan2freq channel =
    (if channel = 14 then 2484
     else if channel < 14 then 2407 + channel * 5
     else 5000 + channel * 5)"

subsection \<open>The frame name table\<close>

text \<open>For every frame control value that is not an extension
  frame, the table entry found by type and subtype carries that type and subtype, unless
  it is the placeholder of a reserved subtype; the special value 1 and the extension
  frames have their own entries.\<close>

theorem packet_struct_of_type:
  "(f = 1 \<and> wlan_get_packet_struct f = badfcs) \<or>
   (f \<noteq> 1 \<and> WLAN_FRAME_TYPE f = WLAN_FRAME_TYPE_EXTE \<and> wlan_get_packet_struct f = unknow) \<or>
   (f \<noteq> 1 \<and> unat (WLAN_FRAME_TYPE f) < 3 \<and>
     (stype_fc (wlan_get_packet_struct f) = f AND WLAN_FRAME_FC_MASK \<or>
      stype_name (wlan_get_packet_struct f) = ''-RESV-''))"
proof -
  have tab: "\<forall>t \<in> set [0..<3]. \<forall>k \<in> set [0..<16].
      stype_fc (stype_names ! t ! k) = WLAN_FRAME_FC (word_of_nat t) (word_of_nat k) \<or>
      stype_name (stype_names ! t ! k) = ''-RESV-''"
    by code_simp
  have lookup: "stype_fc (stype_names ! t ! k) = WLAN_FRAME_FC (word_of_nat t) (word_of_nat k) \<or>
      stype_name (stype_names ! t ! k) = ''-RESV-''" if "t < 3" "k < 16" for t k
    using tab that by simp
  have t4: "unat (WLAN_FRAME_TYPE f) < 3 \<or> WLAN_FRAME_TYPE f = 3"
  proof (cases "unat (WLAN_FRAME_TYPE f) = 3")
    case True
    have "WLAN_FRAME_TYPE f = word_of_nat (unat (WLAN_FRAME_TYPE f))" by simp
    then show ?thesis unfolding True by simp
  qed (use type_bound [of f] in simp)
  show ?thesis
    using t4 lookup [of "unat (WLAN_FRAME_TYPE f)" "unat (WLAN_FRAME_STYPE f)"]
      stype_bound [of f] FC_TYPE_STYPE [of f]
    by (auto simp: wlan_get_packet_struct_def Let_def)
qed

subsection \<open>The rate tables\<close>

text \<open>The two rate tables are inverse to each other: an index
  found for a rate gives the rate back, and the index of the rate of each of the twelve
  indices is that index.\<close>

theorem rate_index_roundtrip:
  "(wlan_rate_to_index r = 0 \<or> wlan_rate_to_rate (wlan_rate_to_index r) = r) \<and>
   (wlan_rate_to_rate i = 0 \<or> wlan_rate_to_index (wlan_rate_to_rate i) = i) \<and>
   (wlan_rate_to_rate i \<noteq> 0 \<longleftrightarrow> 1 \<le> i \<and> i \<le> 12)"
proof -
  have "i = 1 \<or> i = 2 \<or> i = 3 \<or> i = 4 \<or> i = 5 \<or> i = 6 \<or> i = 7 \<or> i = 8 \<or> i = 9 \<or> i = 10 \<or>
      i = 11 \<or> i = 12" if "1 \<le> i" "i \<le> 12"
    using that by presburger
  then show ?thesis by (auto simp: wlan_rate_to_index_def wlan_rate_to_rate_def)
qed

lemma rate_index_roundtrip_witness:
  "wlan_rate_to_index 540 = 12 \<and> wlan_rate_to_rate 12 = 540"
  using rate_index_roundtrip [of 540 12] by (simp add: wlan_rate_to_index_def wlan_rate_to_rate_def)

text \<open>The single-stream rates of the eight modulations for the long guard interval.\<close>

definition ht_base :: "bool \<Rightarrow> nat \<Rightarrow> int" where
  "ht_base ht20 k = (if ht20 then [65, 130, 195, 260, 390, 520, 585, 650] ! k
                     else [135, 270, 405, 540, 810, 1080, 1215, 1350] ! k)"

lemma mcs_cases:
  fixes m :: int
  assumes "0 \<le> m" "m < 32" "\<forall>k \<in> set [0..<32]. P (int k)"
  shows "P m"
proof -
  have "nat m \<in> set [0..<32]" using assms(1,2) by simp
  with assms(3) have "P (int (nat m))" by blast
  with assms(1) show ?thesis by simp
qed

text \<open>The long-guard-interval half of the HT table is the number of
  streams times the single-stream rate of the modulation, except for the two 20 MHz
  entries of MCS 17 and 19, which are a factor of ten too small.\<close>

theorem ht_rate_formula:
  assumes "0 \<le> m" "m < 32"
  shows "wlan_ht_mcs_to_rate m ht20 True =
    (if ht20 \<and> (m = 17 \<or> m = 19) then (m div 8 + 1) * ht_base ht20 (nat m mod 8) div 10
     else (m div 8 + 1) * ht_base ht20 (nat m mod 8))"
proof -
  have "\<forall>k \<in> set [0..<32]. wlan_ht_mcs_to_rate (int k) True True =
      (if int k = 17 \<or> int k = 19 then (int k div 8 + 1) * ht_base True (nat (int k) mod 8) div 10
       else (int k div 8 + 1) * ht_base True (nat (int k) mod 8))"
    by code_simp
  moreover have "\<forall>k \<in> set [0..<32]. wlan_ht_mcs_to_rate (int k) False True =
      (int k div 8 + 1) * ht_base False (nat (int k) mod 8)"
    by code_simp
  ultimately show ?thesis
    using mcs_cases [OF assms] by (cases ht20) (simp_all only: simp_thms if_True if_False)
qed

lemma ht_rate_formula_witness:
  "wlan_ht_mcs_to_rate 17 True True = 39 \<and> wlan_ht_mcs_to_rate 18 True True = 585"
  using ht_rate_formula [of 17 True] ht_rate_formula [of 18 True] by (simp add: ht_base_def)

text \<open>For the widths and modulations that HT has (20 and 40 MHz,
  MCS 0 to 7, one to four streams, long guard interval) the formula for VHT rates gives the
  rate of the HT table, but for the two wrong entries of that table.\<close>

theorem vht_rate_agrees_with_ht:
  assumes "1 \<le> s" "s \<le> 4" "0 \<le> m" "m < 8"
  shows "wlan_vht_mcs_to_rate CHAN_WIDTH_40 s m False = wlan_ht_mcs_to_rate (8 * (s - 1) + m) False True \<and>
    (wlan_vht_mcs_to_rate CHAN_WIDTH_20 s m False = wlan_ht_mcs_to_rate (8 * (s - 1) + m) True True \<or>
     8 * (s - 1) + m \<in> {17, 19})"
proof -
  define r where "r = 8 * (s - 1) + m"
  have r: "0 \<le> r" "r < 32" "s = r div 8 + 1" "m = r mod 8"
    using assms unfolding r_def by presburger+
  have "\<forall>k \<in> set [0..<32]. wlan_vht_mcs_to_rate CHAN_WIDTH_40 (int k div 8 + 1) (int k mod 8) False =
      wlan_ht_mcs_to_rate (int k) False True \<and>
    (wlan_vht_mcs_to_rate CHAN_WIDTH_20 (int k div 8 + 1) (int k mod 8) False =
      wlan_ht_mcs_to_rate (int k) True True \<or> int k = 17 \<or> int k = 19)"
    by code_simp
  from mcs_cases [OF r(1,2) this] r show ?thesis by (simp flip: r_def)
qed

lemma vht_rate_agrees_with_ht_witness:
  "wlan_vht_mcs_to_rate CHAN_WIDTH_40 3 1 False = wlan_ht_mcs_to_rate 17 False True \<and>
   wlan_vht_mcs_to_rate CHAN_WIDTH_20 2 4 False = wlan_ht_mcs_to_rate 12 True True"
  using vht_rate_agrees_with_ht [of 3 1] vht_rate_agrees_with_ht [of 2 4] by simp

subsection \<open>Stream counts\<close>

lemma vht_streams_spec:
  "vht_streams tmp \<le> 8 \<and> (\<forall>i < vht_streams tmp. drop_bit (i * 2) tmp AND 3 \<noteq> 3) \<and>
   (vht_streams tmp = 8 \<or> drop_bit (vht_streams tmp * 2) tmp AND 3 = 3)"
proof -
  let ?stop = "\<lambda>i. drop_bit (i * 2) tmp AND 3 = (3 :: u16)"
  have le: "break_from ?stop 0 8 \<le> 8" using break_from_bounds [of 0 ?stop 8] by simp
  moreover have "break_from ?stop 0 8 = 8 \<or> ?stop (break_from ?stop 0 8)"
    using break_from_at [of ?stop 0 8] le by (cases "break_from ?stop 0 8 = 8") simp_all
  ultimately show ?thesis
    using break_from_before [of 0 _ ?stop 8] unfolding vht_streams_def by blast
qed

subsection \<open>Channels and frequencies\<close>

lemma sdiv_mult: "(c * 5) sdiv 5 = (c :: int)"
  by (cases "0 \<le> c") (simp_all add: signed_divide_int_def sgn_if)

text \<open>Every channel number up to 8000 is recovered from the frequency
  \<open>wlan_chan2freq\<close> assigns to it, channel 14 included.\<close>

theorem freq2chan_chan2freq:
  assumes "c \<le> 8000"
  shows "wlan_freq2chan (wlan_chan2freq c) = c"
  using assms sdiv_mult [of c] by (auto simp: wlan_freq2chan_def wlan_chan2freq_def)

lemma freq2chan_chan2freq_witness: "wlan_freq2chan (wlan_chan2freq 36) = 36"
  by (rule freq2chan_chan2freq) simp

text \<open>On the channel grids of the 2.4 GHz and the 5 GHz band
  \<open>wlan_chan2freq\<close> inverts \<open>wlan_freq2chan\<close>; the 4.9 GHz and the 60 GHz channels are not
  recovered.\<close>

theorem chan2freq_freq2chan:
  assumes "f = 2484 \<or> (\<exists>k. 1 \<le> k \<and> k \<le> 13 \<and> f = 2407 + 5 * k) \<or>
    (\<exists>k. 15 \<le> k \<and> k \<le> 8000 \<and> f = 5000 + 5 * k)"
  shows "wlan_chan2freq (wlan_freq2chan f) = f"
  using assms
proof (elim disjE exE conjE)
  fix k :: int
  assume "1 \<le> k" "k \<le> 13" "f = 2407 + 5 * k"
  then show ?thesis using sdiv_mult [of k] by (simp add: wlan_freq2chan_def wlan_chan2freq_def mult.commute)
next
  fix k :: int
  assume "15 \<le> k" "k \<le> 8000" "f = 5000 + 5 * k"
  then show ?thesis using sdiv_mult [of k] by (simp add: wlan_freq2chan_def wlan_chan2freq_def mult.commute)
qed (simp add: wlan_freq2chan_def wlan_chan2freq_def)

lemma chan2freq_freq2chan_witness: "wlan_chan2freq (wlan_freq2chan 5180) = 5180"
  by (rule chan2freq_freq2chan) presburger

end
