(* ===== verification/Channel.thy ===== *)
theory Channel
  imports Wlan_Util Util
begin

text \<open>
  \<open>core/channel.c\<close> with the structures of \<open>include/uwifi/channel.h\<close> and the interface
  structure of \<open>include/uwifi/conf.h\<close>: the table of channels, their capabilities, the check
  of channel specifications, and the scanning of channels.

  Structures of the source that use the same field name get a prefix here: \<open>cf_\<close> for
  \<open>struct uwifi_chan_freq\<close>, \<open>cs_\<close> for \<open>struct uwifi_chan_spec\<close>, \<open>bd_\<close> for \<open>struct uwifi_band\<close>.
  The arrays \<open>chan[MAX_CHANNELS]\<close> and \<open>band[MAX_BANDS]\<close> are lists of that length; an access
  outside the channel array is \<open>None\<close>.
\<close>

subsection \<open>Structures\<close>

definition MAX_BANDS :: int where "MAX_BANDS = 2"
definition MAX_CHANNELS :: int where "MAX_CHANNELS = 64"

record uwifi_chan_freq =
  cf_chan :: int
  cf_freq :: u32
  cf_max_width :: uwifi_chan_width
  cf_ht40plus :: bool
  cf_ht40minus :: bool

record uwifi_band =
  bd_num_channels :: int
  bd_max_chan_width :: uwifi_chan_width
  bd_streams_rx :: u8
  bd_streams_tx :: u8

record uwifi_channels =
  chans :: "uwifi_chan_freq list"
  num_channels :: int
  bands :: "uwifi_band list"
  num_bands :: int

record uwifi_chan_spec =
  cs_freq :: u32
  cs_width :: uwifi_chan_width
  cs_center_freq :: u32

text \<open>
  The list head \<open>wlan_nodes\<close> of the interface belongs to the heap of the node lists and is
  not a field here; the field \<open>num_channels\<close> of the interface is \<open>if_num_channels\<close>.
\<close>

record uwifi_interface =
  ifname :: string
  channel_time :: int
  channel_min :: int
  channel_max :: int
  channel_scan :: bool
  channel_scan_rounds :: int
  channel_set :: uwifi_chan_spec
  sock :: int
  last_nodetimeout :: u32
  channels :: uwifi_channels
  if_num_channels :: int
  channel_initialized :: bool
  channel_idx :: int
  channel :: uwifi_chan_spec
  last_channelchange :: u32
  if_phy :: int
  max_phy_rate :: u32
  if_type :: int
  arphdr :: int

text \<open>
  The platform under the library, which the source reaches through \<open>platform.h\<close> and
  \<open>ifctrl.h\<close>: a clock, and the driver calls that set the frequency and fill in the channel
  table.  \<open>'w\<close> is whatever these calls depend on; each call may change it.
\<close>

record 'w platform =
  plat_time_usec :: "'w \<Rightarrow> u32 \<times> 'w"
  ifctrl_iwset_freq :: "string \<Rightarrow> u32 \<Rightarrow> uwifi_chan_width \<Rightarrow> u32 \<Rightarrow> 'w \<Rightarrow> bool \<times> 'w"
  ifctrl_iwget_freqlist :: "uwifi_interface \<Rightarrow> 'w \<Rightarrow> uwifi_interface \<times> 'w"

definition zero_spec :: uwifi_chan_spec where
  "zero_spec = \<lparr>cs_freq = 0, cs_width = CHAN_WIDTH_UNSPEC, cs_center_freq = 0\<rparr>"

definition zero_chan :: uwifi_chan_freq where
  "zero_chan = \<lparr>cf_chan = 0, cf_freq = 0, cf_max_width = CHAN_WIDTH_UNSPEC, cf_ht40plus = False,
     cf_ht40minus = False\<rparr>"

definition zero_band :: uwifi_band where
  "zero_band = \<lparr>bd_num_channels = 0, bd_max_chan_width = CHAN_WIDTH_UNSPEC, bd_streams_rx = 0,
     bd_streams_tx = 0\<rparr>"

definition zero_channels :: uwifi_channels where
  "zero_channels = \<lparr>chans = replicate 64 zero_chan, num_channels = 0,
     bands = replicate 2 zero_band, num_bands = 0\<rparr>"

text \<open>\<open>channels->chan[i]\<close>.\<close>

definition chan_at :: "uwifi_channels \<Rightarrow> int \<Rightarrow> uwifi_chan_freq option" where
  "chan_at cs i = (if 0 \<le> i \<and> i < MAX_CHANNELS then Some (chans cs ! nat i) else None)"

subsection \<open>Table access\<close>

text \<open>The entries the search loops visit.\<close>

definition used :: "uwifi_channels \<Rightarrow> uwifi_chan_freq list" where
  "used cs = take (nat (num_channels cs)) (chans cs)"

definition uwifi_channel_idx_from_chan :: "uwifi_channels \<Rightarrow> int \<Rightarrow> int" where
  "uwifi_channel_idx_from_chan cs k = find_idx (\<lambda>e. cf_chan e = k) (used cs) 0"

definition uwifi_channel_idx_from_freq :: "uwifi_channels \<Rightarrow> u32 \<Rightarrow> int" where
  "uwifi_channel_idx_from_freq cs f = find_idx (\<lambda>e. cf_freq e = f) (used cs) 0"

definition uwifi_channel_get_chan :: "uwifi_channels \<Rightarrow> int \<Rightarrow> int" where
  "uwifi_channel_get_chan cs i =
    (if i \<ge> 0 \<and> i < num_channels cs \<and> i < MAX_CHANNELS then cf_chan (chans cs ! nat i) else -1)"

definition uwifi_channel_get_freq :: "uwifi_channels \<Rightarrow> int \<Rightarrow> int" where
  "uwifi_channel_get_freq cs i =
    (if i \<ge> 0 \<and> i < num_channels cs \<and> i < MAX_CHANNELS then i32 (cf_freq (chans cs ! nat i)) else -1)"

definition uwifi_channel_get_num_channels :: "uwifi_channels \<Rightarrow> int" where
  "uwifi_channel_get_num_channels cs = num_channels cs"

definition uwifi_channel_get_num_bands :: "uwifi_channels \<Rightarrow> int" where
  "uwifi_channel_get_num_bands cs = num_bands cs"

definition uwifi_channel_list_add :: "uwifi_channels \<Rightarrow> int \<Rightarrow> (bool \<times> uwifi_channels) option" where
  "uwifi_channel_list_add cs f =
    (if num_channels cs \<ge> MAX_CHANNELS then Some (False, cs)
     else do {
       e \<leftarrow> chan_at cs (num_channels cs);
       Some (True, cs\<lparr>chans := (chans cs)[nat (num_channels cs) :=
                         e\<lparr>cf_chan := wlan_freq2chan f, cf_freq := word_of_int f\<rparr>],
                      num_channels := num_channels cs + 1\<rparr>) })"

definition uwifi_channel_band_add ::
  "uwifi_channels \<Rightarrow> int \<Rightarrow> uwifi_chan_width \<Rightarrow> u8 \<Rightarrow> u8 \<Rightarrow> (bool \<times> uwifi_channels) option" where
  "uwifi_channel_band_add cs n mw srx stx =
    (if num_bands cs \<ge> MAX_BANDS then Some (False, cs)
     else if num_bands cs < 0 then None
     else Some (True, cs\<lparr>bands := (bands cs)[nat (num_bands cs) :=
                           \<lparr>bd_num_channels = n, bd_max_chan_width = mw, bd_streams_rx = srx,
                            bd_streams_tx = stx\<rparr>],
                         num_bands := num_bands cs + 1\<rparr>))"

definition uwifi_channel_idx_from_band_idx :: "uwifi_channels \<Rightarrow> int \<Rightarrow> int \<Rightarrow> int" where
  "uwifi_channel_idx_from_band_idx cs b i =
    (if b < 0 \<or> b \<ge> num_bands cs then -1
     else if i < 0 \<or> i \<ge> bd_num_channels (bands cs ! nat b) then -1
     else if b > 0 then i + bd_num_channels (bands cs ! 0)
     else i)"

text \<open>The returned pointer \<open>&channels->band[b]\<close> as the index \<open>b\<close>; \<open>None\<close> is \<open>NULL\<close>.\<close>

definition uwifi_channel_get_band :: "uwifi_channels \<Rightarrow> int \<Rightarrow> int option" where
  "uwifi_channel_get_band cs b = (if b < 0 \<or> b > num_bands cs then None else Some b)"

definition channel_get_band_from_idx :: "uwifi_channels \<Rightarrow> int \<Rightarrow> uwifi_band" where
  "channel_get_band_from_idx cs idx =
    (let b = if idx - bd_num_channels (bands cs ! 0) < 0 then 0 else 1 in bands cs ! b)"

subsection \<open>Channel specifications\<close>

definition get_center_freq_vht :: "u32 \<Rightarrow> uwifi_chan_width \<Rightarrow> u32" where
  "get_center_freq_vht f width =
    (case width of
       CHAN_WIDTH_80 \<Rightarrow>
         (if f \<ge> 5180 \<and> f \<le> 5240 then 5210
          else if f \<ge> 5260 \<and> f \<le> 5320 then 5290
          else if f \<ge> 5500 \<and> f \<le> 5560 then 5530
          else if f \<ge> 5580 \<and> f \<le> 5640 then 5610
          else if f \<ge> 5660 \<and> f \<le> 5720 then 5690
          else if f \<ge> 5745 \<and> f \<le> 5805 then 5775
          else 0)
     | CHAN_WIDTH_160 \<Rightarrow>
         (if f \<ge> 5180 \<and> f \<le> 5320 then 5250
          else if f \<ge> 5180 \<and> f \<le> 5320 then 5570
          else 0)
     | _ \<Rightarrow> 0)"

definition uwifi_channel_fix_center_freq :: "uwifi_chan_spec \<Rightarrow> bool \<Rightarrow> uwifi_chan_spec" where
  "uwifi_channel_fix_center_freq ch ht40p =
    (case cs_width ch of
       CHAN_WIDTH_20_NOHT \<Rightarrow> ch
     | CHAN_WIDTH_20 \<Rightarrow> ch
     | CHAN_WIDTH_40 \<Rightarrow> ch\<lparr>cs_center_freq := cs_freq ch + (if ht40p then 10 else - 10)\<rparr>
     | CHAN_WIDTH_80 \<Rightarrow> ch\<lparr>cs_center_freq := get_center_freq_vht (cs_freq ch) (cs_width ch)\<rparr>
     | CHAN_WIDTH_160 \<Rightarrow> ch\<lparr>cs_center_freq := get_center_freq_vht (cs_freq ch) (cs_width ch)\<rparr>
     | _ \<Rightarrow> ch)"

definition uwifi_channel_is_ht40plus :: "uwifi_chan_spec \<Rightarrow> bool" where
  "uwifi_channel_is_ht40plus ch \<longleftrightarrow> cs_width ch = CHAN_WIDTH_40 \<and> cs_center_freq ch > cs_freq ch"

definition uwifi_channel_width_from_mhz :: "int \<Rightarrow> uwifi_chan_width" where
  "uwifi_channel_width_from_mhz w =
    (if w = 20 then CHAN_WIDTH_20 else if w = 40 then CHAN_WIDTH_40 else if w = 80 then CHAN_WIDTH_80
     else if w = 160 then CHAN_WIDTH_160 else CHAN_WIDTH_UNSPEC)"

text \<open>\<open>for (int i = -max; i < max; i += 20)\<close>: every frequency visited must be in the table.\<close>

function all_in_table :: "uwifi_channels \<Rightarrow> u32 \<Rightarrow> int \<Rightarrow> int \<Rightarrow> bool" where
  "all_in_table cs center i mx =
    (if i < mx then uwifi_channel_idx_from_freq cs (center + word_of_int i) \<noteq> -1 \<and>
       all_in_table cs center (i + 20) mx
     else True)"
  by pat_completeness auto
termination by (relation "measure (\<lambda>(cs, center, i, mx). nat (mx - i))") auto

declare all_in_table.simps [simp del]

definition uwifi_channel_verify_ch :: "uwifi_chan_spec \<Rightarrow> uwifi_channels \<Rightarrow> bool" where
  "uwifi_channel_verify_ch ch cs =
    (if cs_width ch = CHAN_WIDTH_40 then
       (let d = i32 (cs_center_freq ch - cs_freq ch) in
        if d \<noteq> 10 \<and> d \<noteq> -10 then False
        else uwifi_channel_idx_from_freq cs (cs_center_freq ch + word_of_int d) \<noteq> -1)
     else if cs_width ch = CHAN_WIDTH_80 \<or> cs_width ch = CHAN_WIDTH_160 then
       (let mx = if cs_width ch = CHAN_WIDTH_80 then 30 else 70 in
        all_in_table cs (cs_center_freq ch) (- mx) mx)
     else True)"

definition uwifi_channel_verify :: "uwifi_chan_spec \<Rightarrow> uwifi_channels \<Rightarrow> bool" where
  "uwifi_channel_verify ch cs =
    (let idx = uwifi_channel_idx_from_freq cs (cs_freq ch) in
     if idx = -1 then False
     else if cs_width ch > cf_max_width (chans cs ! nat idx) then False
     else uwifi_channel_verify_ch ch cs)"

subsection \<open>Capabilities of the channels\<close>

text \<open>
  The loop over the widths: \<open>while (new_chan.width <= max_width)\<close>.  The width after
  \<open>CHAN_WIDTH_8080\<close> is no enumerator and greater than every maximum.
\<close>

definition set_width :: "int \<Rightarrow> uwifi_chan_width \<Rightarrow> uwifi_channels \<Rightarrow> uwifi_channels" where
  "set_width idx w cs = cs\<lparr>chans := (chans cs)[nat idx := (chans cs ! nat idx)\<lparr>cf_max_width := w\<rparr>]\<rparr>"

fun check_widths :: "uwifi_chan_width list \<Rightarrow> uwifi_chan_width \<Rightarrow> int \<Rightarrow> uwifi_chan_spec \<Rightarrow>
    uwifi_channels \<Rightarrow> uwifi_channels" where
  "check_widths [] mw idx ch cs = cs"
| "check_widths (w # ws) mw idx ch cs =
    (if w \<le> mw then
       (let ch' = uwifi_channel_fix_center_freq (ch\<lparr>cs_width := w\<rparr>) False in
        if \<not> uwifi_channel_verify_ch ch' cs then cs
        else check_widths ws mw idx ch' (set_width idx w cs))
     else cs)"

definition chan_check_capab :: "int \<Rightarrow> uwifi_channels \<Rightarrow> uwifi_channels" where
  "chan_check_capab idx cs =
    (let mw = bd_max_chan_width (channel_get_band_from_idx cs idx);
         ch = cf_chan (chans cs ! nat idx);
         cs = set_width idx CHAN_WIDTH_20 cs in
     if uwifi_channel_get_freq cs idx = 2484 then cs
     else
       (let ht40 = mw \<ge> CHAN_WIDTH_40;
            minus = uwifi_channel_idx_from_chan cs (ch - 4) \<noteq> -1;
            plus = uwifi_channel_idx_from_chan cs (ch + 4) \<noteq> -1;
            cs = (if ht40 then
                    cs\<lparr>chans := (chans cs)[nat idx :=
                        (chans cs ! nat idx)\<lparr>cf_ht40minus := minus, cf_ht40plus := plus\<rparr>]\<rparr>
                  else cs);
            cs = (if ht40 \<and> (minus \<or> plus) then set_width idx CHAN_WIDTH_40 cs else cs) in
        if ht40 \<and> \<not> (minus \<or> plus) then cs
        else check_widths [CHAN_WIDTH_80, CHAN_WIDTH_160, CHAN_WIDTH_8080] mw idx
               (zero_spec\<lparr>cs_freq := word_of_int (uwifi_channel_get_freq cs idx)\<rparr>) cs))"

text \<open>\<open>for (int i = 0; i < num_channels && i < MAX_CHANNELS; i++)\<close>.\<close>

definition check_all_capab :: "uwifi_channels \<Rightarrow> uwifi_channels" where
  "check_all_capab cs =
     fold (\<lambda>i cs. chan_check_capab (int i) cs) [0..<nat (min (num_channels cs) MAX_CHANNELS)] cs"


subsection \<open>Changing the channel\<close>

definition uwifi_channel_get_remaining_dwell_time :: "uwifi_interface \<Rightarrow> u32 \<Rightarrow> u32" where
  "uwifi_channel_get_remaining_dwell_time intf now =
    (if \<not> channel_scan intf then 0xffffffff
     else (let r = channel_time intf - uint (now - last_channelchange intf) in
       if r < 0 then 0 else if r > 0xffffffff then 0xffffffff else word_of_int r))"

definition uwifi_channel_change ::
  "'w platform \<Rightarrow> uwifi_interface \<Rightarrow> uwifi_chan_spec \<Rightarrow> 'w \<Rightarrow> bool \<times> uwifi_interface \<times> 'w" where
  "uwifi_channel_change P intf ch w =
    (if cs_center_freq ch = 0 \<and> \<not> (cs_width ch = CHAN_WIDTH_20_NOHT \<or> cs_width ch = CHAN_WIDTH_20)
     then (False, intf, w)
     else
       (let (now, w) = plat_time_usec P w;
            (ok, w) = ifctrl_iwset_freq P (ifname intf) (cs_freq ch) (cs_width ch) (cs_center_freq ch) w in
        if \<not> ok then (False, intf, w)
        else
          (let idx = uwifi_channel_idx_from_freq (channels intf) (cs_freq ch) in
           (True,
            intf\<lparr>channel_idx := idx, channel := ch,
                 max_phy_rate := word_of_int (wlan_max_phy_rate (cs_width ch)
                   (bd_streams_rx (channel_get_band_from_idx (channels intf) idx))),
                 last_channelchange := now\<rparr>, w))))"

text \<open>
  \<open>uwifi_channel_get_next\<close>: the interface is returned too, since an invalid \<open>channel_min\<close> is
  reset.  The array is read only where the code dereferences \<open>ch\<close>.
\<close>

definition next_start :: "uwifi_interface \<Rightarrow> uwifi_interface \<times> int \<times> bool" where
  "next_start intf =
    (if channel_min intf \<noteq> 0 \<and>
        uwifi_channel_get_chan (channels intf) (channel_idx intf) < channel_min intf then
       (let i = uwifi_channel_idx_from_chan (channels intf) (channel_min intf) in
        if i < 0 then (intf\<lparr>channel_min := 0\<rparr>, channel_idx intf, True)
        else (intf, i, True))
     else (intf, channel_idx intf, uwifi_channel_is_ht40plus (channel intf)))"

definition next_increment :: "uwifi_interface \<Rightarrow> int \<Rightarrow> int" where
  "next_increment intf idx =
    (let i = idx + 1 in
     if i \<ge> num_channels (channels intf) \<or> i \<ge> MAX_CHANNELS \<or>
        (channel_max intf \<noteq> 0 \<and> uwifi_channel_get_chan (channels intf) i > channel_max intf)
     then (if channel_min intf \<noteq> 0 then uwifi_channel_idx_from_chan (channels intf) (channel_min intf)
           else 0)
     else i)"

definition next_step :: "uwifi_interface \<Rightarrow> int \<Rightarrow> bool \<Rightarrow> (uwifi_chan_freq \<times> bool) option" where
  "next_step intf idx ht40p = do {
     stay \<leftarrow> (if cs_width (channel intf) = CHAN_WIDTH_40 \<and> \<not> ht40p
              then map_option (\<lambda>ch. if cf_ht40plus ch then Some ch else None) (chan_at (channels intf) idx)
              else Some None);
     case stay of
       Some ch \<Rightarrow> Some (ch, True)
     | None \<Rightarrow> do {
         ch \<leftarrow> chan_at (channels intf) (next_increment intf idx);
         Some (ch, \<not> cf_ht40minus ch) } }"

definition uwifi_channel_get_next ::
  "uwifi_interface \<Rightarrow> uwifi_chan_spec \<Rightarrow> (uwifi_interface \<times> uwifi_chan_spec) option" where
  "uwifi_channel_get_next intf new_chan =
    (let (intf, idx, ht40p) = next_start intf in do {
       (ch, ht40p) \<leftarrow> next_step intf idx ht40p;
       Some (intf, uwifi_channel_fix_center_freq
                     (new_chan\<lparr>cs_freq := cf_freq ch, cs_width := cf_max_width ch\<rparr>) ht40p) })"

text \<open>The loop \<open>do { tries--; \<dots> } while (ret != 1 && tries > 0)\<close>.\<close>

function auto_loop :: "'w platform \<Rightarrow> int \<Rightarrow> uwifi_interface \<Rightarrow> uwifi_chan_spec \<Rightarrow> 'w \<Rightarrow>
    (bool \<times> uwifi_interface \<times> 'w) option" where
  "auto_loop P tries intf new_chan w =
    (case uwifi_channel_get_next intf new_chan of
       None \<Rightarrow> None
     | Some (intf, new_chan) \<Rightarrow>
         (case uwifi_channel_change P intf new_chan w of (ok, intf, w) \<Rightarrow>
            if \<not> ok \<and> tries - 1 > 0 then auto_loop P (tries - 1) intf new_chan w
            else Some (ok, intf, w)))"
  by pat_completeness auto
termination by (relation "measure (\<lambda>(P, tries, intf, new_chan, w). nat tries)") auto

declare auto_loop.simps [simp del]

definition auto_tries :: "uwifi_interface \<Rightarrow> int" where
  "auto_tries intf =
    (let tries = (if channel_max intf \<noteq> 0
                  then uwifi_channel_idx_from_chan (channels intf) (channel_max intf) * 2 else -1) in
     if tries < 0 then num_channels (channels intf) * 2 else tries)"

definition uwifi_channel_auto_change ::
  "'w platform \<Rightarrow> uwifi_interface \<Rightarrow> 'w \<Rightarrow> (int \<times> uwifi_interface \<times> 'w) option" where
  "uwifi_channel_auto_change P intf w =
    (if \<not> channel_scan intf then Some (0, intf, w)
     else if channel_idx intf = -1 then Some (0, intf, w)
     else
       (let (now, w) = plat_time_usec P w in
        if uwifi_channel_get_remaining_dwell_time intf now > 0 then Some (0, intf, w)
        else do {
          (ok, intf, w) \<leftarrow> auto_loop P (auto_tries intf) intf zero_spec w;
          if \<not> ok then
            (let (now, w) = plat_time_usec P w in
             Some (-1, intf\<lparr>last_channelchange := now\<rparr>, w))
          else Some (1, intf, w) }))"

text \<open>\<open>uwifi_channel_init\<close>: the result of \<open>ifctrl_iwget_freqlist\<close> is ignored.\<close>

definition init_from_current ::
  "'w platform \<Rightarrow> uwifi_interface \<Rightarrow> 'w \<Rightarrow> (bool \<times> uwifi_interface \<times> 'w) option" where
  "init_from_current P intf w =
    (let intf = intf\<lparr>channel_idx := uwifi_channel_idx_from_freq (channels intf) (cs_freq (channel intf)),
                     channel_set := channel intf\<rparr>;
         b = channel_get_band_from_idx (channels intf) (channel_idx intf);
         intf = intf\<lparr>max_phy_rate :=
                  word_of_int (wlan_max_phy_rate (bd_max_chan_width b) (bd_streams_rx b))\<rparr> in do {
       ch \<leftarrow> chan_at (channels intf) (channel_idx intf);
       if cs_width (channel intf) \<noteq> cf_max_width ch then
         (let ht40p = (cf_max_width ch = CHAN_WIDTH_40 \<and> \<not> cf_ht40minus ch);
              intf = intf\<lparr>channel_set := uwifi_channel_fix_center_freq
                       ((channel_set intf)\<lparr>cs_width := cf_max_width ch\<rparr>) ht40p\<rparr>;
              (ok, intf, w) = uwifi_channel_change P intf (channel_set intf) w in
          Some (True, intf, w))
       else Some (True, intf, w) })"

definition uwifi_channel_init ::
  "'w platform \<Rightarrow> uwifi_interface \<Rightarrow> 'w \<Rightarrow> (bool \<times> uwifi_interface \<times> 'w) option" where
  "uwifi_channel_init P intf w =
    (let (intf, w) = ifctrl_iwget_freqlist P intf w;
         (now, w) = plat_time_usec P w;
         intf = intf\<lparr>channel_initialized := True, channel_idx := -1, last_channelchange := now\<rparr>;
         intf = intf\<lparr>channels := check_all_capab (channels intf)\<rparr> in
     if num_bands (channels intf) \<le> 0 \<or> num_channels (channels intf) \<le> 0 then Some (False, intf, w)
     else if cs_freq (channel_set intf) > 0 then
       Some (uwifi_channel_change P intf (channel_set intf) w)
     else if cs_freq (channel intf) = 0 then
       Some (True, intf\<lparr>max_phy_rate := word_of_int (wlan_max_phy_rate
                (bd_max_chan_width (bands (channels intf) ! 0)) (bd_streams_rx (bands (channels intf) ! 0))),
              channel_idx := -1\<rparr>, w)
     else init_from_current P intf w)"

subsection \<open>Strings\<close>

definition uwifi_channel_width_string :: "uwifi_chan_width \<Rightarrow> string" where
  "uwifi_channel_width_string w = (case w of
       CHAN_WIDTH_UNSPEC \<Rightarrow> ''?''
     | CHAN_WIDTH_20_NOHT \<Rightarrow> ''20 (no HT)''
     | CHAN_WIDTH_20 \<Rightarrow> ''HT20''
     | CHAN_WIDTH_40 \<Rightarrow> ''HT40''
     | CHAN_WIDTH_80 \<Rightarrow> ''VHT80''
     | CHAN_WIDTH_160 \<Rightarrow> ''VHT160''
     | CHAN_WIDTH_8080 \<Rightarrow> ''VHT80+80'')"

definition uwifi_channel_width_string_short :: "uwifi_chan_width \<Rightarrow> int \<Rightarrow> string" where
  "uwifi_channel_width_string_short w ht40p = (case w of
       CHAN_WIDTH_UNSPEC \<Rightarrow> ''?''
     | CHAN_WIDTH_20_NOHT \<Rightarrow> ''20g''
     | CHAN_WIDTH_20 \<Rightarrow> ''20''
     | CHAN_WIDTH_40 \<Rightarrow> if ht40p < 0 then ''40'' else if ht40p \<noteq> 0 then ''40+'' else ''40-''
     | CHAN_WIDTH_80 \<Rightarrow> ''80''
     | CHAN_WIDTH_160 \<Rightarrow> ''160''
     | CHAN_WIDTH_8080 \<Rightarrow> ''80+80'')"

text \<open>\<open>%-3d\<close>, and what \<open>snprintf\<close> leaves in a buffer of \<open>n\<close> bytes.\<close>

definition fmt_left3d :: "int \<Rightarrow> string" where
  "fmt_left3d i = fmt_d i @ replicate (3 - length (fmt_d i)) CHR '' ''"

definition snprintf_buf :: "nat \<Rightarrow> string \<Rightarrow> string" where
  "snprintf_buf n str = take (n - 1) str"

definition uwifi_channel_list_string :: "uwifi_channels \<Rightarrow> int \<Rightarrow> string option" where
  "uwifi_channel_list_string cs idx = do {
     ch \<leftarrow> chan_at cs idx;
     let str = fmt_left3d (cf_chan ch) @ '': '' @ fmt_d (i32 (cf_freq ch)) @ '' '' @
                 uwifi_channel_width_string (cf_max_width ch);
     Some (if cf_max_width ch \<ge> CHAN_WIDTH_40 \<and> length str > 0 \<and> length str < 32 - 3
           then str @ (if cf_ht40plus ch then ''+'' else []) @ (if cf_ht40minus ch then ''-'' else [])
           else snprintf_buf 32 str) }"

definition uwifi_channel_get_string :: "uwifi_chan_spec \<Rightarrow> string" where
  "uwifi_channel_get_string spec =
    (let str = ''CH '' @ fmt_d (wlan_freq2chan (i32 (cs_freq spec))) @ '' ('' @ fmt_d (i32 (cs_freq spec)) @
                 '' MHz) '' @ uwifi_channel_width_string (cs_width spec);
         str = (if cs_width spec = CHAN_WIDTH_40 \<and> length str > 0 \<and> length str < 64 - 2
                then str @ (if cs_center_freq spec < cs_freq spec then ''-'' else ''+'') else str) in
     if cs_width spec \<ge> CHAN_WIDTH_40 \<and> length str > 0 \<and> length str < 64 - 15
     then snprintf_buf 64 (str @ '' (center '' @ fmt_d (i32 (cs_center_freq spec)) @ '')'')
     else snprintf_buf 64 str)"

end
