(* ===== verification/Channel_Facts.thy ===== *)
theory Channel_Facts
  imports Channel
begin

text \<open>
  What the functions of the channel component guarantee: the two index functions meet the
  contract of a keyed table, every operation keeps the shape of the table, the
  capabilities that \<open>chan_check_capab\<close> enters are ones that \<open>uwifi_channel_verify\<close> accepts,
  and scanning stays inside the table and the configured limits.
\<close>

subsection \<open>The shape of the table\<close>

definition channels_wf :: "uwifi_channels \<Rightarrow> bool" where
  "channels_wf cs \<longleftrightarrow> length (chans cs) = 64 \<and> length (bands cs) = 2 \<and>
     0 \<le> num_channels cs \<and> num_channels cs \<le> MAX_CHANNELS \<and> 0 \<le> num_bands cs \<and> num_bands cs \<le> MAX_BANDS"

lemma used_length: "channels_wf cs \<Longrightarrow> length (used cs) = nat (num_channels cs)"
  by (auto simp: used_def channels_wf_def MAX_CHANNELS_def)

lemma used_nth: "channels_wf cs \<Longrightarrow> 0 \<le> i \<Longrightarrow> i < num_channels cs \<Longrightarrow> used cs ! nat i = chans cs ! nat i"
  by (auto simp: used_def channels_wf_def)

lemma used_in: "channels_wf cs \<Longrightarrow> 0 \<le> i \<Longrightarrow> i < num_channels cs \<Longrightarrow> chans cs ! nat i \<in> set (used cs)"
  using used_nth [of cs i] used_length [of cs] nth_mem [of "nat i" "used cs"] by simp

lemma find_idx_table:
  assumes "\<And>s k. idx s k = find_idx (\<lambda>e. key e = k) (entries s) 0"
  shows "keyed_table key entries idx"
proof
  fix s k i
  show "idx s k = -1 \<longleftrightarrow> k \<notin> key ` set (entries s)"
    unfolding assms find_idx_miss by auto
  assume ne: "idx s k \<noteq> -1"
  note h = find_idx_hit [OF assms [symmetric] ne]
  from h show "0 \<le> idx s k \<and> nat (idx s k) < length (entries s) \<and> key (entries s ! nat (idx s k)) = k"
    by simp
  assume "i < nat (idx s k)"
  with h show "key (entries s ! i) \<noteq> k" by simp
qed

interpretation by_chan: keyed_table cf_chan used uwifi_channel_idx_from_chan
  by (rule find_idx_table) (rule uwifi_channel_idx_from_chan_def)

interpretation by_freq: keyed_table cf_freq used uwifi_channel_idx_from_freq
  by (rule find_idx_table) (rule uwifi_channel_idx_from_freq_def)

lemma idx_from_freq_lt:
  "channels_wf cs \<Longrightarrow> -1 \<le> uwifi_channel_idx_from_freq cs f \<and> uwifi_channel_idx_from_freq cs f < num_channels cs"
  using by_freq.idx_range [of cs f] used_length [of cs] by (auto simp: channels_wf_def)

lemma idx_from_chan_lt:
  "channels_wf cs \<Longrightarrow> -1 \<le> uwifi_channel_idx_from_chan cs k \<and> uwifi_channel_idx_from_chan cs k < num_channels cs"
  using by_chan.idx_range [of cs k] used_length [of cs] by (auto simp: channels_wf_def)

lemma chan_at_used: "channels_wf cs \<Longrightarrow> 0 \<le> i \<Longrightarrow> i < num_channels cs \<Longrightarrow> chan_at cs i = Some (used cs ! nat i)"
  by (auto simp: chan_at_def used_nth channels_wf_def)

lemma get_chan_used: "channels_wf cs \<Longrightarrow> 0 \<le> i \<Longrightarrow> i < num_channels cs \<Longrightarrow>
    uwifi_channel_get_chan cs i = cf_chan (used cs ! nat i)"
  by (auto simp: uwifi_channel_get_chan_def used_nth channels_wf_def)

lemma get_freq_used: "channels_wf cs \<Longrightarrow> 0 \<le> i \<Longrightarrow> i < num_channels cs \<Longrightarrow>
    uwifi_channel_get_freq cs i = i32 (cf_freq (used cs ! nat i))"
  by (auto simp: uwifi_channel_get_freq_def used_nth channels_wf_def)


text \<open>A frequency that \<open>uwifi_channel_idx_from_freq\<close> finds is at the
  returned index, which lies in the table; \<open>-1\<close> is returned exactly for the frequencies that
  are not in the table; and with distinct frequencies the index of an entry is found again.\<close>

theorem channel_lookup_roundtrip:
  assumes "channels_wf cs"
  shows "if f \<in> cf_freq ` set (used cs)
    then (\<exists>i. uwifi_channel_idx_from_freq cs f = i \<and> 0 \<le> i \<and> i < num_channels cs \<and>
           uwifi_channel_get_freq cs i = i32 f)
    else uwifi_channel_idx_from_freq cs f = -1"
proof (cases "f \<in> cf_freq ` set (used cs)")
  case True
  then have ne: "uwifi_channel_idx_from_freq cs f \<noteq> -1" by (simp add: by_freq.idx_found)
  from by_freq.idx_hit [OF this] idx_from_freq_lt [OF assms, of f] True show ?thesis
    by (simp add: get_freq_used [OF assms])
qed (simp add: by_freq.idx_miss)

definition table2 :: uwifi_channels where
  "table2 = zero_channels\<lparr>chans := [zero_chan\<lparr>cf_chan := 1, cf_freq := 2412\<rparr>,
      zero_chan\<lparr>cf_chan := 5, cf_freq := 2432\<rparr>] @ replicate 62 zero_chan,
      num_channels := 2, bands := [zero_band\<lparr>bd_num_channels := 2, bd_max_chan_width := CHAN_WIDTH_40,
        bd_streams_rx := 2\<rparr>, zero_band], num_bands := 1\<rparr>"

lemma table2_wf: "channels_wf table2"
  by (simp add: channels_wf_def table2_def zero_channels_def MAX_CHANNELS_def MAX_BANDS_def)

lemma table2_used: "used table2 = [zero_chan\<lparr>cf_chan := 1, cf_freq := 2412\<rparr>,
      zero_chan\<lparr>cf_chan := 5, cf_freq := 2432\<rparr>]"
  by (simp add: used_def table2_def zero_channels_def)

lemma channel_lookup_roundtrip_witness:
  "uwifi_channel_idx_from_freq table2 2432 = 1 \<and> uwifi_channel_idx_from_freq table2 5180 = -1"
  using channel_lookup_roundtrip [OF table2_wf, of 2432] channel_lookup_roundtrip [OF table2_wf, of 5180]
  by (auto simp: table2_used uwifi_channel_idx_from_freq_def)

lemma list_add_appends:
  assumes wf: "channels_wf cs" and n: "num_channels cs < 64"
  obtains cs' e where "uwifi_channel_list_add cs f = Some (True, cs')" "channels_wf cs'" "used cs' = used cs @ [e]"
    "cf_freq e = word_of_int f" "cf_chan e = wlan_freq2chan f" "num_channels cs' = num_channels cs + 1"
    "bands cs' = bands cs" "num_bands cs' = num_bands cs"
proof -
  define n where "n = nat (num_channels cs)"
  have n: "n < 64" "num_channels cs = int n" "length (chans cs) = 64"
    using assms by (auto simp: n_def channels_wf_def)
  define e where "e = (chans cs ! n)\<lparr>cf_chan := wlan_freq2chan f, cf_freq := word_of_int f\<rparr>"
  define cs' where "cs' = cs\<lparr>chans := (chans cs)[n := e], num_channels := num_channels cs + 1\<rparr>"
  show thesis
  proof (rule that)
    show "uwifi_channel_list_add cs f = Some (True, cs')"
      using n by (simp add: uwifi_channel_list_add_def chan_at_def cs'_def e_def MAX_CHANNELS_def)
    show "channels_wf cs'" using wf n by (simp add: channels_wf_def cs'_def MAX_CHANNELS_def)
    show "used cs' = used cs @ [e]"
      using n by (simp add: used_def cs'_def nat_add_distrib take_Suc_conv_app_nth)
  qed (simp_all add: e_def cs'_def)
qed

text \<open>Adding a frequency to a table that is not full appends one
  entry with this frequency and its channel number, keeps the shape of the table and every
  earlier answer of the lookup, and makes the new frequency found; a full table is returned
  unchanged with the result \<open>false\<close>.\<close>

theorem channel_list_add_spec:
  assumes wf: "channels_wf cs"
  shows "\<exists>cs'. uwifi_channel_list_add cs f = Some (num_channels cs < MAX_CHANNELS, cs') \<and> channels_wf cs' \<and>
    (if num_channels cs < MAX_CHANNELS
     then map cf_freq (used cs') = map cf_freq (used cs) @ [word_of_int f] \<and>
       map cf_chan (used cs') = map cf_chan (used cs) @ [wlan_freq2chan f] \<and>
       (\<forall>g. uwifi_channel_idx_from_freq cs' g =
          (if uwifi_channel_idx_from_freq cs g \<noteq> -1 then uwifi_channel_idx_from_freq cs g
           else if g = word_of_int f then num_channels cs else -1))
     else cs' = cs)"
proof (cases "num_channels cs < MAX_CHANNELS")
  case False
  then show ?thesis using wf by (simp add: uwifi_channel_list_add_def)
next
  case True
  then have "num_channels cs < 64" by (simp add: MAX_CHANNELS_def)
  from list_add_appends [OF wf this, of f] obtain cs' e where
    add: "uwifi_channel_list_add cs f = Some (True, cs')" "channels_wf cs'" and u: "used cs' = used cs @ [e]"
    and e: "cf_freq e = word_of_int f" "cf_chan e = wlan_freq2chan f" by blast
  have n: "0 \<le> num_channels cs" using wf by (simp add: channels_wf_def)
  have idx: "\<forall>g. uwifi_channel_idx_from_freq cs' g =
      (if uwifi_channel_idx_from_freq cs g \<noteq> -1 then uwifi_channel_idx_from_freq cs g
       else if g = word_of_int f then num_channels cs else -1)"
    using by_freq.idx_append [OF u] used_length [OF wf] n e by auto
  show ?thesis using True add u e idx by (intro exI [of _ cs']) simp
qed

lemma channel_list_add_spec_witness:
  "\<exists>cs'. uwifi_channel_list_add table2 5180 = Some (True, cs') \<and> uwifi_channel_idx_from_freq cs' 5180 = 2"
proof -
  have n: "num_channels table2 = 2" by (simp add: table2_def)
  have "uwifi_channel_idx_from_freq table2 5180 = -1"
    by (simp add: uwifi_channel_idx_from_freq_def table2_used)
  with channel_list_add_spec [OF table2_wf, of 5180] n show ?thesis by (auto simp: MAX_CHANNELS_def)
qed

subsection \<open>Operations that keep the frequencies\<close>

definition same_keys :: "uwifi_channels \<Rightarrow> uwifi_channels \<Rightarrow> bool" where
  "same_keys cs cs' \<longleftrightarrow> map (\<lambda>e. (cf_chan e, cf_freq e)) (chans cs') = map (\<lambda>e. (cf_chan e, cf_freq e)) (chans cs) \<and>
     num_channels cs' = num_channels cs \<and> bands cs' = bands cs \<and> num_bands cs' = num_bands cs"

lemma same_keys_refl [simp]: "same_keys cs cs"
  by (simp add: same_keys_def)

lemma same_keys_trans: "same_keys a b \<Longrightarrow> same_keys b c \<Longrightarrow> same_keys a c"
  by (simp add: same_keys_def)

lemma same_keys_wf: "same_keys cs cs' \<Longrightarrow> channels_wf cs' = channels_wf cs"
  by (auto simp: same_keys_def channels_wf_def dest: map_eq_imp_length_eq)

lemma same_keys_used:
  assumes "same_keys cs cs'"
  shows "map cf_freq (used cs') = map cf_freq (used cs)" "map cf_chan (used cs') = map cf_chan (used cs)"
proof -
  let ?k = "\<lambda>e. (cf_chan e, cf_freq e)"
  have "map ?k (used cs') = map ?k (used cs)"
    using assms by (simp add: used_def same_keys_def take_map [symmetric])
  then have "map snd (map ?k (used cs')) = map snd (map ?k (used cs))"
    "map fst (map ?k (used cs')) = map fst (map ?k (used cs))" by simp_all
  then show "map cf_freq (used cs') = map cf_freq (used cs)" "map cf_chan (used cs') = map cf_chan (used cs)"
    by (simp_all add: comp_def)
qed

lemma same_keys_idx:
  assumes "same_keys cs cs'"
  shows "uwifi_channel_idx_from_freq cs' f = uwifi_channel_idx_from_freq cs f"
    "uwifi_channel_idx_from_chan cs' k = uwifi_channel_idx_from_chan cs k"
  using by_freq.idx_cong [OF same_keys_used(1) [OF assms]] by_chan.idx_cong [OF same_keys_used(2) [OF assms]]
  by simp_all

lemma all_in_table_cong:
  "same_keys cs cs' \<Longrightarrow> all_in_table cs' c i mx = all_in_table cs c i mx"
proof (induction cs c i mx rule: all_in_table.induct)
  case (1 cs c i mx)
  then show ?case
    by (subst (1 2) all_in_table.simps) (simp add: same_keys_idx)
qed

lemma verify_ch_cong: "same_keys cs cs' \<Longrightarrow> uwifi_channel_verify_ch ch cs' = uwifi_channel_verify_ch ch cs"
  by (simp add: uwifi_channel_verify_ch_def Let_def all_in_table_cong same_keys_idx)

lemma same_keys_update:
  "cf_chan e = cf_chan (chans cs ! i) \<Longrightarrow> cf_freq e = cf_freq (chans cs ! i) \<Longrightarrow>
     same_keys cs (cs\<lparr>chans := (chans cs)[i := e]\<rparr>)"
  by (cases "i < length (chans cs)") (simp_all add: same_keys_def map_update list_update_same_conv list_update_beyond)


subsection \<open>The capabilities that are entered are usable\<close>

text \<open>All 20 MHz channels of the VHT block around the given frequency exist.\<close>

definition vht_ok :: "uwifi_channels \<Rightarrow> u32 \<Rightarrow> uwifi_chan_width \<Rightarrow> bool" where
  "vht_ok cs f w = uwifi_channel_verify_ch \<lparr>cs_freq = f, cs_width = w,
     cs_center_freq = get_center_freq_vht f w\<rparr> cs"

lemma vht_ok_cong: "same_keys cs cs' \<Longrightarrow> vht_ok cs' f w = vht_ok cs f w"
  by (simp add: vht_ok_def verify_ch_cong)

lemma verify_fixed_vht:
  "w = CHAN_WIDTH_80 \<or> w = CHAN_WIDTH_160 \<Longrightarrow> cs_width ch = w \<Longrightarrow>
     uwifi_channel_verify_ch (uwifi_channel_fix_center_freq ch b) cs = vht_ok cs (cs_freq ch) w"
  by (auto simp: uwifi_channel_fix_center_freq_def vht_ok_def uwifi_channel_verify_ch_def)

text \<open>What the check establishes of an entry, for the maximum width \<open>mw\<close> of its band.\<close>

definition entry_ok :: "uwifi_channels \<Rightarrow> uwifi_chan_width \<Rightarrow> uwifi_chan_freq \<Rightarrow> bool" where
  "entry_ok cs mw e \<longleftrightarrow>
     CHAN_WIDTH_20 \<le> cf_max_width e \<and>
     (cf_max_width e = CHAN_WIDTH_20 \<or> cf_max_width e \<le> mw) \<and>
     (CHAN_WIDTH_80 \<le> cf_max_width e \<longrightarrow> vht_ok cs (cf_freq e) CHAN_WIDTH_80) \<and>
     (CHAN_WIDTH_160 \<le> cf_max_width e \<longrightarrow> vht_ok cs (cf_freq e) CHAN_WIDTH_160) \<and>
     (cf_freq e \<noteq> 2484 \<and> CHAN_WIDTH_40 \<le> mw \<longrightarrow>
        (cf_ht40plus e \<longleftrightarrow> uwifi_channel_idx_from_chan cs (cf_chan e + 4) \<noteq> -1) \<and>
        (cf_ht40minus e \<longleftrightarrow> uwifi_channel_idx_from_chan cs (cf_chan e - 4) \<noteq> -1) \<and>
        (CHAN_WIDTH_40 \<le> cf_max_width e \<longleftrightarrow> cf_ht40plus e \<or> cf_ht40minus e)) \<and>
     (cf_freq e = 2484 \<longrightarrow> cf_max_width e = CHAN_WIDTH_20)"

lemma entry_ok_ht40:
  "entry_ok cs mw e \<Longrightarrow> cf_freq e \<noteq> 2484 \<Longrightarrow> CHAN_WIDTH_40 \<le> mw \<Longrightarrow>
     (cf_ht40plus e \<longleftrightarrow> uwifi_channel_idx_from_chan cs (cf_chan e + 4) \<noteq> -1) \<and>
     (cf_ht40minus e \<longleftrightarrow> uwifi_channel_idx_from_chan cs (cf_chan e - 4) \<noteq> -1) \<and>
     (CHAN_WIDTH_40 \<le> cf_max_width e \<longleftrightarrow> cf_ht40plus e \<or> cf_ht40minus e)"
  unfolding entry_ok_def by blast

lemma entry_ok_cong: "same_keys cs cs' \<Longrightarrow> entry_ok cs' mw e = entry_ok cs mw e"
  by (simp add: entry_ok_def vht_ok_cong same_keys_idx)

definition upd_chan :: "int \<Rightarrow> uwifi_chan_freq \<Rightarrow> uwifi_channels \<Rightarrow> uwifi_channels" where
  "upd_chan i e cs = cs\<lparr>chans := (chans cs)[nat i := e]\<rparr>"

lemma set_width_upd: "set_width i w cs = upd_chan i ((chans cs ! nat i)\<lparr>cf_max_width := w\<rparr>) cs"
  by (simp add: set_width_def upd_chan_def)

lemma upd_chan_upd [simp]: "upd_chan i e' (upd_chan i e cs) = upd_chan i e' cs"
  by (simp add: upd_chan_def)

lemma upd_chan_nth [simp]: "nat i < length (chans cs) \<Longrightarrow> chans (upd_chan i e cs) ! nat i = e"
  by (simp add: upd_chan_def)

lemma upd_chan_length [simp]: "length (chans (upd_chan i e cs)) = length (chans cs)"
  by (simp add: upd_chan_def)

lemma same_keys_upd: "cf_chan e = cf_chan (chans cs ! nat i) \<Longrightarrow> cf_freq e = cf_freq (chans cs ! nat i) \<Longrightarrow>
    same_keys cs (upd_chan i e cs)"
  by (simp add: upd_chan_def same_keys_update)

text \<open>The loop over the three VHT widths, started from an entry of width 20 or 40.\<close>

lemma check_widths_result:
  assumes i: "nat i < length (chans cs)" and f: "cs_freq ch = cf_freq (chans cs ! nat i)"
  shows "\<exists>w. check_widths [CHAN_WIDTH_80, CHAN_WIDTH_160, CHAN_WIDTH_8080] mw i ch cs =
      upd_chan i ((chans cs ! nat i)\<lparr>cf_max_width := w\<rparr>) cs \<and>
    (w = cf_max_width (chans cs ! nat i) \<or> (CHAN_WIDTH_80 \<le> w \<and> w \<le> mw \<and>
       vht_ok cs (cf_freq (chans cs ! nat i)) CHAN_WIDTH_80 \<and>
       (CHAN_WIDTH_160 \<le> w \<longrightarrow> vht_ok cs (cf_freq (chans cs ! nat i)) CHAN_WIDTH_160)))"
proof -
  let ?e = "chans cs ! nat i"
  let ?f = "cf_freq ?e"
  have same: "same_keys cs (set_width i w cs)" for w
    by (simp add: set_width_upd same_keys_upd)
  have step: "check_widths (w # ws) mw i c cs' =
      (if w \<le> mw \<and> vht_ok cs ?f w
       then check_widths ws mw i (uwifi_channel_fix_center_freq (c\<lparr>cs_width := w\<rparr>) False) (set_width i w cs')
       else cs')"
    if "w = CHAN_WIDTH_80 \<or> w = CHAN_WIDTH_160" "cs_freq c = ?f" "same_keys cs cs'" for w ws c cs'
    using that verify_fixed_vht [of w "c\<lparr>cs_width := w\<rparr>" False cs'] vht_ok_cong [OF that(3)]
    by (simp add: Let_def)
  have fx: "cs_freq (uwifi_channel_fix_center_freq c b) = cs_freq c" for c b
    by (simp add: uwifi_channel_fix_center_freq_def split: uwifi_chan_width.split)
  have v80: "uwifi_channel_verify_ch (uwifi_channel_fix_center_freq (c\<lparr>cs_width := CHAN_WIDTH_8080\<rparr>) b) cs'" for c b cs'
    by (simp add: uwifi_channel_fix_center_freq_def uwifi_channel_verify_ch_def)
  have upd0: "upd_chan i (?e\<lparr>cf_max_width := cf_max_width ?e\<rparr>) cs = cs"
    by (simp add: upd_chan_def)
  show ?thesis
  proof (cases "CHAN_WIDTH_80 \<le> mw \<and> vht_ok cs ?f CHAN_WIDTH_80")
    case False
    then have "check_widths [CHAN_WIDTH_80, CHAN_WIDTH_160, CHAN_WIDTH_8080] mw i ch cs = cs"
      using step [of CHAN_WIDTH_80 ch cs] f by auto
    with upd0 show ?thesis by metis
  next
    case t80: True
    let ?cs1 = "upd_chan i (?e\<lparr>cf_max_width := CHAN_WIDTH_80\<rparr>) cs"
    let ?c1 = "uwifi_channel_fix_center_freq (ch\<lparr>cs_width := CHAN_WIDTH_80\<rparr>) False"
    have s1: "check_widths [CHAN_WIDTH_80, CHAN_WIDTH_160, CHAN_WIDTH_8080] mw i ch cs =
        check_widths [CHAN_WIDTH_160, CHAN_WIDTH_8080] mw i ?c1 ?cs1"
      using step [of CHAN_WIDTH_80 ch cs] t80 f by (simp only: set_width_upd) simp
    have k1: "same_keys cs ?cs1" "cs_freq ?c1 = ?f" using same [of CHAN_WIDTH_80] f by (simp_all add: set_width_upd fx)
    show ?thesis
    proof (cases "CHAN_WIDTH_160 \<le> mw \<and> vht_ok cs ?f CHAN_WIDTH_160")
      case False
      then have "check_widths [CHAN_WIDTH_160, CHAN_WIDTH_8080] mw i ?c1 ?cs1 = ?cs1"
        using step [of CHAN_WIDTH_160 ?c1 ?cs1 "[CHAN_WIDTH_8080]"] k1 by auto
      with s1 t80 show ?thesis by (intro exI [of _ CHAN_WIDTH_80]) simp
    next
      case t160: True
      then show ?thesis
        using step [of CHAN_WIDTH_160 ?c1 ?cs1 "[CHAN_WIDTH_8080]"] k1 s1 t80 i v80
        by (intro exI [of _ "if CHAN_WIDTH_8080 \<le> mw then CHAN_WIDTH_8080 else CHAN_WIDTH_160"])
          (simp add: set_width_upd Let_def del: width_order, simp)
    qed
  qed
qed


lemma chan_check_capab_result:
  assumes wf: "channels_wf cs" and i: "0 \<le> i" "i < num_channels cs"
  defines "e \<equiv> chans cs ! nat i"
    and "mw \<equiv> bd_max_chan_width (channel_get_band_from_idx cs i)"
  shows "\<exists>e'. chan_check_capab i cs = upd_chan i e' cs \<and> cf_chan e' = cf_chan e \<and> cf_freq e' = cf_freq e \<and>
    entry_ok cs mw e'"
proof -
  have len: "nat i < length (chans cs)" using wf i by (auto simp: channels_wf_def MAX_CHANNELS_def)
  define cs1 where "cs1 = upd_chan i (e\<lparr>cf_max_width := CHAN_WIDTH_20\<rparr>) cs"
  have k1: "same_keys cs cs1" by (simp add: cs1_def e_def same_keys_upd)
  then have wf1: "channels_wf cs1" by (simp add: same_keys_wf wf)
  have n1: "num_channels cs1 = num_channels cs" "length (chans cs1) = length (chans cs)"
    "chans cs1 ! nat i = e\<lparr>cf_max_width := CHAN_WIDTH_20\<rparr>"
    using len by (simp_all add: cs1_def) (simp add: upd_chan_def)
  have gf: "uwifi_channel_get_freq cs1 i = i32 (cf_freq e)"
    using wf i n1 by (auto simp: uwifi_channel_get_freq_def channels_wf_def)
  have gfu: "uwifi_channel_get_freq (cs\<lparr>chans := (chans cs)[nat i := x]\<rparr>) i = i32 (cf_freq x)" for x
    using wf i len by (auto simp: uwifi_channel_get_freq_def channels_wf_def)
  have f2484: "i32 (cf_freq e) = 2484 \<longleftrightarrow> cf_freq e = 2484"
    using i32_eq_iff [of "cf_freq e" 2484] by (simp add: i32_def)
  let ?minus = "uwifi_channel_idx_from_chan cs (cf_chan e - 4) \<noteq> -1"
  let ?plus = "uwifi_channel_idx_from_chan cs (cf_chan e + 4) \<noteq> -1"
  show ?thesis
  proof (cases "cf_freq e = 2484")
    case True
    then have "chan_check_capab i cs = cs1"
      using gf f2484 by (simp add: chan_check_capab_def Let_def set_width_upd cs1_def e_def)
    with True show ?thesis
      by (intro exI [of _ "e\<lparr>cf_max_width := CHAN_WIDTH_20\<rparr>"]) (simp add: cs1_def entry_ok_def)
  next
    case f: False
    define e2 where "e2 = (if CHAN_WIDTH_40 \<le> mw
        then (if ?minus \<or> ?plus
              then e\<lparr>cf_ht40minus := ?minus, cf_ht40plus := ?plus, cf_max_width := CHAN_WIDTH_40\<rparr>
              else e\<lparr>cf_max_width := CHAN_WIDTH_20, cf_ht40minus := ?minus, cf_ht40plus := ?plus\<rparr>)
        else e\<lparr>cf_max_width := CHAN_WIDTH_20\<rparr>)"
    define cs2 where "cs2 = upd_chan i e2 cs"
    have e2: "cf_chan e2 = cf_chan e" "cf_freq e2 = cf_freq e" by (simp_all add: e2_def)
    have k2: "same_keys cs cs2" by (simp add: cs2_def e2 e_def same_keys_upd)
    have n2: "nat i < length (chans cs2)" "chans cs2 ! nat i = e2"
      using len by (simp_all add: cs2_def)
    have run: "chan_check_capab i cs =
        (if CHAN_WIDTH_40 \<le> mw \<and> \<not> (?minus \<or> ?plus) then cs2
         else check_widths [CHAN_WIDTH_80, CHAN_WIDTH_160, CHAN_WIDTH_8080] mw i
                (zero_spec\<lparr>cs_freq := cf_freq e\<rparr>) cs2)"
      using f gf f2484 len same_keys_idx(2) [OF k1] gfu
      by (simp add: chan_check_capab_def Let_def mw_def [symmetric] e_def [symmetric] cs2_def e2_def cs1_def
          set_width_upd upd_chan_def word_of_int_i32 del: check_widths.simps)
    show ?thesis
    proof (cases "CHAN_WIDTH_40 \<le> mw \<and> \<not> (?minus \<or> ?plus)")
      case True
      then have "chan_check_capab i cs = upd_chan i e2 cs" using run by (simp add: cs2_def)
      with True e2 show ?thesis by (intro exI [of _ e2]) (simp add: entry_ok_def e2_def f)
    next
      case False
      then have r: "chan_check_capab i cs = check_widths [CHAN_WIDTH_80, CHAN_WIDTH_160, CHAN_WIDTH_8080] mw i
          (zero_spec\<lparr>cs_freq := cf_freq e\<rparr>) cs2"
        using run by argo
      have "cs_freq (zero_spec\<lparr>cs_freq := cf_freq e\<rparr>) = cf_freq (chans cs2 ! nat i)"
        using n2 e2 by simp
      from check_widths_result [OF n2(1) this, of mw] obtain w where
        "chan_check_capab i cs = upd_chan i (e2\<lparr>cf_max_width := w\<rparr>) cs2"
        "w = cf_max_width e2 \<or> (CHAN_WIDTH_80 \<le> w \<and> w \<le> mw \<and> vht_ok cs2 (cf_freq e) CHAN_WIDTH_80 \<and>
           (CHAN_WIDTH_160 \<le> w \<longrightarrow> vht_ok cs2 (cf_freq e) CHAN_WIDTH_160))"
        unfolding r n2(2) e2 by blast
      then have w: "chan_check_capab i cs = upd_chan i (e2\<lparr>cf_max_width := w\<rparr>) cs"
        "w = cf_max_width e2 \<or> (CHAN_WIDTH_80 \<le> w \<and> w \<le> mw \<and> vht_ok cs (cf_freq e) CHAN_WIDTH_80 \<and>
           (CHAN_WIDTH_160 \<le> w \<longrightarrow> vht_ok cs (cf_freq e) CHAN_WIDTH_160))"
        by (simp_all only: vht_ok_cong [OF k2]) (simp add: cs2_def)
      have "entry_ok cs mw (e2\<lparr>cf_max_width := w\<rparr>)"
        using w(2) False f by (cases "CHAN_WIDTH_40 \<le> mw") (auto simp: entry_ok_def e2_def)
      with w(1) e2 show ?thesis by (intro exI [of _ "e2\<lparr>cf_max_width := w\<rparr>"]) simp
    qed
  qed
qed


abbreviation band_width :: "uwifi_channels \<Rightarrow> int \<Rightarrow> uwifi_chan_width" where
  "band_width cs i \<equiv> bd_max_chan_width (channel_get_band_from_idx cs i)"

lemma same_keys_band: "same_keys cs cs' \<Longrightarrow> channel_get_band_from_idx cs' i = channel_get_band_from_idx cs i"
  by (simp add: channel_get_band_from_idx_def same_keys_def)

lemma check_upto:
  assumes wf: "channels_wf cs"
  shows "k \<le> nat (num_channels cs) \<Longrightarrow>
    same_keys cs (fold (\<lambda>i cs. chan_check_capab (int i) cs) [0..<k] cs) \<and>
    (\<forall>j < k. entry_ok cs (band_width cs (int j))
       (chans (fold (\<lambda>i cs. chan_check_capab (int i) cs) [0..<k] cs) ! j))"
proof (induction k)
  case 0
  then show ?case by simp
next
  case (Suc k)
  let ?c = "fold (\<lambda>i cs. chan_check_capab (int i) cs) [0..<k] cs"
  have IH: "same_keys cs ?c" "\<forall>j < k. entry_ok cs (band_width cs (int j)) (chans ?c ! j)"
    using Suc by simp_all
  have wfc: "channels_wf ?c" and n: "num_channels ?c = num_channels cs"
    using IH(1) wf by (simp add: same_keys_wf) (use IH(1) in \<open>simp add: same_keys_def\<close>)
  have "0 \<le> int k" "int k < num_channels ?c" using Suc.prems n by simp_all
  from chan_check_capab_result [OF wfc this] obtain e' where
    e': "chan_check_capab (int k) ?c = upd_chan (int k) e' ?c" "cf_chan e' = cf_chan (chans ?c ! k)"
      "cf_freq e' = cf_freq (chans ?c ! k)" "entry_ok ?c (band_width ?c (int k)) e'"
    unfolding nat_int by blast
  have "same_keys ?c (upd_chan (int k) e' ?c)" using e' by (simp add: same_keys_upd)
  with IH(1) have "same_keys cs (upd_chan (int k) e' ?c)" by (rule same_keys_trans)
  moreover have "entry_ok cs (band_width cs (int j)) (chans (upd_chan (int k) e' ?c) ! j)" if "j < Suc k" for j
  proof (cases "j = k")
    case True
    have "k < length (chans ?c)" using wfc n Suc.prems by (auto simp: channels_wf_def MAX_CHANNELS_def)
    with True e'(4) show ?thesis
      by (simp add: upd_chan_def entry_ok_cong [OF IH(1)] same_keys_band [OF IH(1)])
  next
    case False
    with that IH(2) show ?thesis by (simp add: upd_chan_def)
  qed
  ultimately show ?case using e'(1) by simp
qed

lemma check_all_capab_result:
  assumes wf: "channels_wf cs"
  shows "same_keys cs (check_all_capab cs)"
    and "channels_wf (check_all_capab cs)"
    and "\<lbrakk>0 \<le> i; i < num_channels cs\<rbrakk> \<Longrightarrow>
      entry_ok (check_all_capab cs) (band_width cs i) (used (check_all_capab cs) ! nat i)"
proof -
  have n: "nat (min (num_channels cs) MAX_CHANNELS) = nat (num_channels cs)"
    using wf by (simp add: channels_wf_def)
  from check_upto [OF wf order_refl]
  show k: "same_keys cs (check_all_capab cs)" by (simp add: check_all_capab_def n)
  then show wf': "channels_wf (check_all_capab cs)" by (simp add: same_keys_wf wf)
  assume i: "0 \<le> i" "i < num_channels cs"
  have "entry_ok cs (band_width cs i) (chans (check_all_capab cs) ! nat i)"
    using check_upto [OF wf order_refl, THEN conjunct2, rule_format, of "nat i"] i
    by (simp add: check_all_capab_def n)
  then show "entry_ok (check_all_capab cs) (band_width cs i) (used (check_all_capab cs) ! nat i)"
    using used_nth [OF wf' i(1)] i(2) k by (simp add: entry_ok_cong [OF k] same_keys_def)
qed

text \<open>\<open>uwifi_channel_verify\<close> of the specification of a table entry.\<close>

lemma verify_entry:
  assumes wf: "channels_wf cs" and d: "distinct (map cf_freq (used cs))"
    and i: "0 \<le> i" "i < num_channels cs" and f: "cs_freq ch = cf_freq (used cs ! nat i)"
  shows "uwifi_channel_verify ch cs \<longleftrightarrow>
    cs_width ch \<le> cf_max_width (used cs ! nat i) \<and> uwifi_channel_verify_ch ch cs"
  using by_freq.idx_nth [OF d, of "nat i"] i used_length [OF wf] used_nth [OF wf i]
  by (auto simp: uwifi_channel_verify_def Let_def f not_le simp del: width_order dest: leD)

lemma fix_center_params [simp]:
  "cs_freq (uwifi_channel_fix_center_freq ch b) = cs_freq ch"
  "cs_width (uwifi_channel_fix_center_freq ch b) = cs_width ch"
  by (simp_all add: uwifi_channel_fix_center_freq_def split: uwifi_chan_width.split)

text \<open>C21: In a table whose frequencies are distinct, the capability check of \<open>uwifi_channel_init\<close> leaves the
  frequencies alone and gives every channel at least 20 MHz and at most the width of its band
  (or 20 MHz).  For the widths 20, 80 and 160 MHz it enters a width only if the channel can be used with it: for every one
  of these widths up to the entered maximum, the channel with the center frequency
  that \<open>uwifi_channel_fix_center_freq\<close> computes passes \<open>uwifi_channel_verify\<close>.  The width of 40 MHz is left out: its
  center depends on the marks HT40+ and HT40-, and channel 10 can be entered with a width of 40 MHz that does not pass (see
  \<open>ht40plus_of_channel_10_rejected\<close> below).\<close>

theorem check_all_capab_sound:
  assumes wf: "channels_wf cs" and d: "distinct (map cf_freq (used cs))"
    and i: "0 \<le> i" "i < num_channels cs"
  defines "e \<equiv> used (check_all_capab cs) ! nat i"
  shows "cf_freq e = cf_freq (used cs ! nat i) \<and> CHAN_WIDTH_20 \<le> cf_max_width e \<and>
    cf_max_width e \<le> max CHAN_WIDTH_20 (bd_max_chan_width (channel_get_band_from_idx cs i)) \<and>
    (\<forall>w \<in> {CHAN_WIDTH_20, CHAN_WIDTH_80, CHAN_WIDTH_160}. w \<le> cf_max_width e \<longrightarrow>
       uwifi_channel_verify (uwifi_channel_fix_center_freq
         \<lparr>cs_freq = cf_freq e, cs_width = w, cs_center_freq = 0\<rparr> ht40p) (check_all_capab cs))"
proof -
  note r = check_all_capab_result [OF wf]
  have ok: "entry_ok (check_all_capab cs) (band_width cs i) e" using r(3) [OF i] by (simp add: e_def)
  have keys: "map cf_freq (used (check_all_capab cs)) = map cf_freq (used cs)"
    by (rule same_keys_used [OF r(1)])
  have n: "num_channels (check_all_capab cs) = num_channels cs" using r(1) by (simp add: same_keys_def)
  have a: "cf_freq e = cf_freq (used cs ! nat i)"
    using arg_cong [OF keys, of "\<lambda>xs. xs ! nat i"] i n
    by (simp add: e_def used_length [OF wf] used_length [OF r(2)])
  have b: "cf_max_width e \<le> max CHAN_WIDTH_20 (band_width cs i)"
  proof -
    have "cf_max_width e = CHAN_WIDTH_20 \<or> cf_max_width e \<le> band_width cs i"
      using ok by (simp only: entry_ok_def)
    then show ?thesis by (elim disjE) (simp_all only: le_max_iff_disj order_refl simp_thms)
  qed
  have v: "uwifi_channel_verify (uwifi_channel_fix_center_freq
         \<lparr>cs_freq = cf_freq e, cs_width = w, cs_center_freq = 0\<rparr> ht40p) (check_all_capab cs)"
    if w: "w \<in> {CHAN_WIDTH_20, CHAN_WIDTH_80, CHAN_WIDTH_160}" "w \<le> cf_max_width e" for w
  proof -
    let ?c = "\<lparr>cs_freq = cf_freq e, cs_width = w, cs_center_freq = 0\<rparr>"
    have "uwifi_channel_verify_ch (uwifi_channel_fix_center_freq ?c ht40p) (check_all_capab cs)"
    proof (cases "w = CHAN_WIDTH_20")
      case True
      then show ?thesis by (simp add: uwifi_channel_fix_center_freq_def uwifi_channel_verify_ch_def)
    next
      case False
      with w ok verify_fixed_vht [of w ?c ht40p "check_all_capab cs"] show ?thesis
        by (auto simp: entry_ok_def)
    qed
    then show ?thesis
      using verify_entry [OF r(2), of i "uwifi_channel_fix_center_freq ?c ht40p"] d keys n i w
      by (simp add: e_def)
  qed
  have "CHAN_WIDTH_20 \<le> cf_max_width e" using ok by (simp only: entry_ok_def)
  then show ?thesis by (intro conjI ballI impI a b v)
qed


lemma table2_distinct: "distinct (map cf_freq (used table2))" "num_channels table2 = 2"
  by (simp add: table2_used) (simp add: table2_def)

lemma check_all_capab_sound_witness:
  "CHAN_WIDTH_20 \<le> cf_max_width (used (check_all_capab table2) ! 0) \<and>
   cf_freq (used (check_all_capab table2) ! 0) = 2412"
  using check_all_capab_sound [OF table2_wf table2_distinct(1), of 0] table2_distinct(2)
  by (simp add: table2_used del: width_order)

text \<open>
  A table of 2.4 GHz and 5 GHz channels: every entry has the channel number that
  \<open>uwifi_channel_list_add\<close> computes, and every frequency is on one of the two grids or is
  that of channel 14.
\<close>

definition on_grid :: "int \<Rightarrow> bool" where
  "on_grid f \<longleftrightarrow> (2412 \<le> f \<and> f \<le> 2472 \<and> 5 dvd f - 2407) \<or> (5095 \<le> f \<and> f \<le> 45000 \<and> 5 dvd f - 5000)"

definition grid_entry :: "uwifi_chan_freq \<Rightarrow> bool" where
  "grid_entry e \<longleftrightarrow> (on_grid (i32 (cf_freq e)) \<or> cf_freq e = 2484) \<and> cf_chan e = wlan_freq2chan (i32 (cf_freq e))"

lemma on_grid_chan:
  assumes "on_grid f"
  shows "(1 \<le> wlan_freq2chan f \<and> wlan_freq2chan f \<le> 13 \<and> f = 2407 + 5 * wlan_freq2chan f) \<or>
    (19 \<le> wlan_freq2chan f \<and> wlan_freq2chan f \<le> 8000 \<and> f = 5000 + 5 * wlan_freq2chan f)"
proof -
  from assms consider (low) k where "1 \<le> k" "k \<le> 13" "f = 2407 + 5 * k"
    | (high) k where "19 \<le> k" "k \<le> 8000" "f = 5000 + 5 * k"
    unfolding on_grid_def
  proof (elim disjE conjE dvdE)
    fix k
    assume "2412 \<le> f" "f \<le> 2472" "f - 2407 = 5 * k"
    then show ?thesis by (intro low [of k]) linarith+
  next
    fix k
    assume "5095 \<le> f" "f \<le> 45000" "f - 5000 = 5 * k"
    then show ?thesis by (intro high [of k]) linarith+
  qed
  then show ?thesis
  proof cases
    case low
    then show ?thesis using sdiv_mult [of k] by (simp add: wlan_freq2chan_def mult.commute)
  next
    case high
    then show ?thesis using sdiv_mult [of k] by (simp add: wlan_freq2chan_def mult.commute)
  qed
qed

text \<open>Two entries four channel numbers apart are 20 MHz apart, unless they are 10 and 14.\<close>

lemma grid_neighbour:
  assumes a: "grid_entry a" "cf_freq a \<noteq> 2484" and b: "grid_entry b"
    and ch: "cf_chan b = cf_chan a + 4 \<and> cf_freq a \<noteq> 2457 \<or> cf_chan b = cf_chan a - 4"
  shows "cf_freq b = (if cf_chan b = cf_chan a + 4 then cf_freq a + 20 else cf_freq a - 20)"
proof -
  let ?fa = "i32 (cf_freq a)" and ?fb = "i32 (cf_freq b)"
  have ga: "on_grid ?fa" "cf_chan a = wlan_freq2chan ?fa" using a by (auto simp: grid_entry_def)
  note ca = on_grid_chan [OF ga(1), folded ga(2)]
  have n: "cf_freq a = 2457 \<longleftrightarrow> ?fa = 2457"
    using i32_eq_iff [of "cf_freq a" 2457] by (simp add: i32_def)
  have cb: "(1 \<le> cf_chan b \<and> cf_chan b \<le> 13 \<and> ?fb = 2407 + 5 * cf_chan b) \<or>
      (19 \<le> cf_chan b \<and> cf_chan b \<le> 8000 \<and> ?fb = 5000 + 5 * cf_chan b) \<or> cf_chan b = 14"
  proof (cases "cf_freq b = 2484")
    case True
    with b show ?thesis by (simp add: grid_entry_def i32_def wlan_freq2chan_def)
  next
    case False
    with b have gb: "on_grid ?fb" "cf_chan b = wlan_freq2chan ?fb" by (auto simp: grid_entry_def)
    from on_grid_chan [OF gb(1), folded gb(2)] show ?thesis by blast
  qed
  have d: "?fb = (if cf_chan b = cf_chan a + 4 then ?fa + 20 else ?fa - 20)"
  proof (cases "cf_chan b = cf_chan a + 4")
    case True
    with ch have "?fa \<noteq> 2457" by (simp add: n)
    then have "cf_chan a \<noteq> 10" using ca by linarith
    with ca cb True have "?fb = ?fa + 20" by linarith
    with True show ?thesis by simp
  next
    case False
    with ch have "cf_chan b = cf_chan a - 4" by simp
    with ca cb have "?fb = ?fa - 20" by linarith
    with False show ?thesis by simp
  qed
  then have "word_of_int ?fb = (word_of_int (if cf_chan b = cf_chan a + 4 then ?fa + 20 else ?fa - 20) :: u32)"
    by simp
  then show ?thesis by (simp add: word_of_int_i32 split: if_splits)
qed


lemma verify_ch_ht40:
  "uwifi_channel_verify_ch (uwifi_channel_fix_center_freq \<lparr>cs_freq = f, cs_width = CHAN_WIDTH_40,
       cs_center_freq = c\<rparr> b) cs \<longleftrightarrow>
     uwifi_channel_idx_from_freq cs (if b then f + 20 else f - 20) \<noteq> -1"
proof -
  have d: "i32 10 = 10" "i32 (- 10) = - 10" by (simp_all add: i32_def)
  have a: "f + 10 + 10 = f + 20" "f - 10 - 10 = f - (20 :: u32)" by simp_all
  show ?thesis by (cases b) (simp_all add: uwifi_channel_fix_center_freq_def uwifi_channel_verify_ch_def d a)
qed

text \<open>C25: In a table of 2.4 GHz and 5 GHz channels, a channel that the capability
  check marks HT40+ or HT40- passes \<open>uwifi_channel_verify\<close> with the corresponding 40 MHz
  specification.  The exceptions are channel 14, which is never 40 MHz wide, and HT40+ on
  channel 10 (2457 MHz), whose neighbour by number is channel 14.\<close>

theorem ht40_flags_sound:
  assumes wf: "channels_wf cs" and d: "distinct (map cf_freq (used cs))"
    and g: "\<forall>e \<in> set (used cs). grid_entry e"
    and i: "0 \<le> i" "i < num_channels cs"
    and bw: "CHAN_WIDTH_40 \<le> bd_max_chan_width (channel_get_band_from_idx cs i)"
  defines "e \<equiv> used (check_all_capab cs) ! nat i"
  assumes f: "cf_freq e \<noteq> 2484"
  shows "(cf_ht40plus e \<longrightarrow> cf_freq e \<noteq> 2457 \<longrightarrow> uwifi_channel_verify (uwifi_channel_fix_center_freq
         \<lparr>cs_freq = cf_freq e, cs_width = CHAN_WIDTH_40, cs_center_freq = 0\<rparr> True) (check_all_capab cs)) \<and>
    (cf_ht40minus e \<longrightarrow> uwifi_channel_verify (uwifi_channel_fix_center_freq
         \<lparr>cs_freq = cf_freq e, cs_width = CHAN_WIDTH_40, cs_center_freq = 0\<rparr> False) (check_all_capab cs))"
proof -
  note r = check_all_capab_result [OF wf]
  let ?cs = "check_all_capab cs"
  have ok: "entry_ok ?cs (band_width cs i) e" using r(3) [OF i] by (simp add: e_def)
  note keys = same_keys_used [OF r(1)]
  have n: "num_channels ?cs = num_channels cs" using r(1) by (simp add: same_keys_def)
  have len: "length (used ?cs) = length (used cs)" using keys(1) by (rule map_eq_imp_length_eq)
  have k: "cf_freq (used ?cs ! j) = cf_freq (used cs ! j)" "cf_chan (used ?cs ! j) = cf_chan (used cs ! j)"
    if "j < length (used cs)" for j
    using that len arg_cong [OF keys(1), of "\<lambda>xs. xs ! j"] arg_cong [OF keys(2), of "\<lambda>xs. xs ! j"] by simp_all
  have grid: "grid_entry (used ?cs ! j)" if "j < length (used cs)" for j
    using g nth_mem [OF that] k [OF that] by (simp add: grid_entry_def)
  have il: "nat i < length (used cs)" using i used_length [OF wf] by simp
  have flags: "cf_ht40plus e \<longleftrightarrow> uwifi_channel_idx_from_chan ?cs (cf_chan e + 4) \<noteq> -1"
    "cf_ht40minus e \<longleftrightarrow> uwifi_channel_idx_from_chan ?cs (cf_chan e - 4) \<noteq> -1"
    "CHAN_WIDTH_40 \<le> cf_max_width e \<longleftrightarrow> cf_ht40plus e \<or> cf_ht40minus e"
    using entry_ok_ht40 [OF ok f bw] by blast+
  have nb: "uwifi_channel_idx_from_freq ?cs (if c = cf_chan e + 4 then cf_freq e + 20 else cf_freq e - 20) \<noteq> -1"
    if c: "uwifi_channel_idx_from_chan ?cs c \<noteq> -1" "c = cf_chan e + 4 \<and> cf_freq e \<noteq> 2457 \<or> c = cf_chan e - 4" for c
  proof -
    let ?b = "used ?cs ! nat (uwifi_channel_idx_from_chan ?cs c)"
    from by_chan.idx_hit [OF c(1)] have b: "?b \<in> set (used ?cs)" "cf_chan ?b = c" "grid_entry ?b"
      using grid len by simp_all
    from grid_neighbour [OF _ f b(3)] grid [OF il] c(2) b(2)
    have "cf_freq ?b = (if c = cf_chan e + 4 then cf_freq e + 20 else cf_freq e - 20)"
      unfolding e_def by metis
    with by_freq.idx_lookup [OF b(1)] show ?thesis by simp
  qed
  have v: "uwifi_channel_verify (uwifi_channel_fix_center_freq
         \<lparr>cs_freq = cf_freq e, cs_width = CHAN_WIDTH_40, cs_center_freq = 0\<rparr> b) ?cs"
    if "CHAN_WIDTH_40 \<le> cf_max_width e"
      "uwifi_channel_idx_from_freq ?cs (if b then cf_freq e + 20 else cf_freq e - 20) \<noteq> -1" for b
    using that verify_entry [OF r(2), of i] d keys(1) n i verify_ch_ht40 [of "cf_freq e" 0 b ?cs]
    by (simp add: e_def)
  show ?thesis
    using flags nb [of "cf_chan e + 4"] nb [of "cf_chan e - 4"] v [of True] v [of False] by simp
qed

lemma ht40_flags_sound_witness:
  "uwifi_channel_verify (uwifi_channel_fix_center_freq
     \<lparr>cs_freq = 2412, cs_width = CHAN_WIDTH_40, cs_center_freq = 0\<rparr> True) (check_all_capab table2)"
proof -
  note r = check_all_capab_result [OF table2_wf]
  have b: "channel_get_band_from_idx table2 0 = zero_band\<lparr>bd_num_channels := 2,
      bd_max_chan_width := CHAN_WIDTH_40, bd_streams_rx := 2\<rparr>"
    by (simp add: channel_get_band_from_idx_def table2_def)
  let ?e = "used (check_all_capab table2) ! nat 0"
  have "map cf_freq (used (check_all_capab table2)) ! 0 = map cf_freq (used table2) ! 0"
    by (simp only: same_keys_used [OF r(1)])
  moreover have "map cf_chan (used (check_all_capab table2)) ! 0 = map cf_chan (used table2) ! 0"
    by (simp only: same_keys_used [OF r(1)])
  moreover have "used (check_all_capab table2) \<noteq> []"
    using same_keys_used(1) [OF r(1)] by (auto simp: table2_used)
  ultimately have f: "cf_freq ?e = 2412" and c: "cf_chan ?e = 1" by (simp_all add: table2_used)
  have i: "uwifi_channel_idx_from_chan (check_all_capab table2) (1 + 4) \<noteq> -1"
    unfolding same_keys_idx(2) [OF r(1)] by (simp add: uwifi_channel_idx_from_chan_def table2_used)
  have "cf_ht40plus ?e"
    using r(3) [of 0] f c b i table2_distinct(2) by (simp add: entry_ok_def)
  then show ?thesis
    using ht40_flags_sound [OF table2_wf table2_distinct(1), of 0] f b table2_distinct(2)
    by (simp add: table2_used grid_entry_def on_grid_def i32_def wlan_freq2chan_def signed_divide_int_def)
qed


text \<open>
  The exception is real: with channels 10 and 14 in the table, channel 10 is marked HT40+
  and the HT40+ specification of channel 10 is rejected.
\<close>

definition table14 :: uwifi_channels where
  "table14 = zero_channels\<lparr>chans := [zero_chan\<lparr>cf_chan := 10, cf_freq := 2457\<rparr>,
      zero_chan\<lparr>cf_chan := 14, cf_freq := 2484\<rparr>] @ replicate 62 zero_chan,
      num_channels := 2, bands := [zero_band\<lparr>bd_num_channels := 2, bd_max_chan_width := CHAN_WIDTH_40,
        bd_streams_rx := 2\<rparr>, zero_band], num_bands := 1\<rparr>"

lemma ht40plus_of_channel_10_rejected:
  "cf_ht40plus (used (check_all_capab table14) ! 0) \<and>
   \<not> uwifi_channel_verify (uwifi_channel_fix_center_freq
       \<lparr>cs_freq = 2457, cs_width = CHAN_WIDTH_40, cs_center_freq = 0\<rparr> True) (check_all_capab table14)"
  by code_simp

text \<open>The center frequency of the second 160 MHz block is never chosen.\<close>

lemma vht160_center:
  "get_center_freq_vht f CHAN_WIDTH_160 = (if 5180 \<le> f \<and> f \<le> 5320 then 5250 else 0)"
  by (auto simp: get_center_freq_vht_def)

lemma vht80_center:
  "get_center_freq_vht f CHAN_WIDTH_80 \<noteq> 0 \<Longrightarrow>
     f \<ge> get_center_freq_vht f CHAN_WIDTH_80 - 30 \<and> f \<le> get_center_freq_vht f CHAN_WIDTH_80 + 30"
  by (auto simp: get_center_freq_vht_def split: if_splits)

end
