(* ===== verification/Channel_Scan.thy ===== *)
theory Channel_Scan
  imports Channel_Facts
begin

text \<open>
  Scanning: the dwell time across the wrap of the 32-bit clock, and the invariant that \<open>uwifi_channel_auto_change\<close> keeps: the current
  index stays in the table and the scan inside the configured limits.  A scan without limits makes progress and
  visits the channels in turn.
\<close>

text \<open>While scanning, the remaining dwell time is the dwell time minus
  the time since the last change, or zero once that has passed, even if the 32-bit clock
  has wrapped in between.\<close>

theorem dwell_time_exact:
  assumes "channel_scan intf" "channel_time intf < 2 ^ 32" "0 \<le> e" "e < 2 ^ 32"
    and now: "now = last_channelchange intf + word_of_int e"
  shows "uint (uwifi_channel_get_remaining_dwell_time intf now) = max 0 (channel_time intf - e)"
proof -
  have d: "uint (now - last_channelchange intf) = e"
    using assms(3,4) by (simp add: now unsigned_of_int take_bit_int_eq_self)
  have "uint (word_of_int (channel_time intf - e) :: u32) = channel_time intf - e" if "e \<le> channel_time intf"
    using that assms(2,3) by (simp add: unsigned_of_int take_bit_int_eq_self del: of_int_diff)
  then show ?thesis
    using assms(1,2,3) by (auto simp: uwifi_channel_get_remaining_dwell_time_def d Let_def)
qed

definition intf2 :: uwifi_interface where
  "intf2 = \<lparr>ifname = ''wlan0'', channel_time = 250000, channel_min = 0, channel_max = 0,
     channel_scan = True, channel_scan_rounds = 0, channel_set = zero_spec, sock = 3,
     last_nodetimeout = 0, channels = table2, if_num_channels = 0, channel_initialized = True,
     channel_idx = 0, channel = zero_spec\<lparr>cs_freq := 2412, cs_width := CHAN_WIDTH_20\<rparr>,
     last_channelchange = 0xffffff00, if_phy = 0, max_phy_rate = 0, if_type = 6, arphdr = 803\<rparr>"

lemma dwell_time_exact_witness:
  "uint (uwifi_channel_get_remaining_dwell_time intf2 (0xffffff00 + word_of_int 1000)) = 249000"
  using dwell_time_exact [of intf2 1000 "0xffffff00 + word_of_int 1000"] by (simp add: intf2_def)

subsection \<open>Changing the channel\<close>

lemma channel_change_cases:
  obtains (fail) w' where "uwifi_channel_change P intf ch w = (False, intf, w')"
  | (ok) now w' rate where "uwifi_channel_change P intf ch w = (True,
      intf\<lparr>channel_idx := uwifi_channel_idx_from_freq (channels intf) (cs_freq ch), channel := ch,
        max_phy_rate := rate, last_channelchange := now\<rparr>, w')"
proof (cases "cs_center_freq ch = 0 \<and> \<not> (cs_width ch = CHAN_WIDTH_20_NOHT \<or> cs_width ch = CHAN_WIDTH_20)")
  case True
  then show ?thesis by (intro fail) (simp add: uwifi_channel_change_def)
next
  case False
  obtain now w1 where 1: "plat_time_usec P w = (now, w1)" by force
  obtain b w2 where 2: "ifctrl_iwset_freq P (ifname intf) (cs_freq ch) (cs_width ch) (cs_center_freq ch) w1 = (b, w2)"
    by force
  have "uwifi_channel_change P intf ch w = (if b then (True,
      intf\<lparr>channel_idx := uwifi_channel_idx_from_freq (channels intf) (cs_freq ch), channel := ch,
        max_phy_rate := word_of_int (wlan_max_phy_rate (cs_width ch) (bd_streams_rx
          (channel_get_band_from_idx (channels intf) (uwifi_channel_idx_from_freq (channels intf) (cs_freq ch))))),
        last_channelchange := now\<rparr>, w2) else (False, intf, w2))"
    unfolding uwifi_channel_change_def if_not_P [OF False] by (simp add: 1 2 Let_def)
  then show ?thesis by (cases b) (auto intro: fail ok)
qed

subsection \<open>The scan invariant\<close>

definition scan_inv :: "uwifi_interface \<Rightarrow> bool" where
  "scan_inv intf \<longleftrightarrow> channels_wf (channels intf) \<and>
     sorted_wrt (<) (map cf_chan (used (channels intf))) \<and>
     distinct (map cf_freq (used (channels intf))) \<and>
     0 \<le> channel_idx intf \<and> channel_idx intf < num_channels (channels intf) \<and>
     (channel_min intf \<noteq> 0 \<longrightarrow> channel_min intf \<in> cf_chan ` set (used (channels intf)) \<and>
        (channel_max intf \<noteq> 0 \<longrightarrow> channel_min intf \<le> channel_max intf)) \<and>
     (channel_max intf \<noteq> 0 \<longrightarrow> cf_chan (used (channels intf) ! nat (channel_idx intf)) \<le> channel_max intf)"

text \<open>The channel at index \<open>i\<close> is inside the limits.\<close>

definition in_limits :: "uwifi_interface \<Rightarrow> int \<Rightarrow> bool" where
  "in_limits intf i \<longleftrightarrow> 0 \<le> i \<and> i < num_channels (channels intf) \<and>
     (channel_min intf \<noteq> 0 \<longrightarrow> channel_min intf \<le> cf_chan (used (channels intf) ! nat i)) \<and>
     (channel_max intf \<noteq> 0 \<longrightarrow> cf_chan (used (channels intf) ! nat i) \<le> channel_max intf)"

lemma min_in_limits:
  assumes "scan_inv intf" "channel_min intf \<noteq> 0"
  shows "in_limits intf (uwifi_channel_idx_from_chan (channels intf) (channel_min intf))"
proof -
  have "uwifi_channel_idx_from_chan (channels intf) (channel_min intf) \<noteq> -1"
    using assms by (simp add: scan_inv_def by_chan.idx_found)
  from by_chan.idx_hit [OF this] idx_from_chan_lt [of "channels intf" "channel_min intf"] assms
  show ?thesis by (simp add: in_limits_def scan_inv_def)
qed

lemma chan_mono:
  assumes "scan_inv intf" "0 \<le> i" "i \<le> j" "j < num_channels (channels intf)"
  shows "cf_chan (used (channels intf) ! nat i) \<le> cf_chan (used (channels intf) ! nat j)"
proof (cases "i = j")
  case False
  let ?xs = "map cf_chan (used (channels intf))"
  have len: "length ?xs = nat (num_channels (channels intf))"
    using assms(1) by (simp add: scan_inv_def used_length)
  have "sorted_wrt (<) ?xs" using assms(1) by (simp add: scan_inv_def)
  from sorted_wrt_nth_less [OF this, of "nat i" "nat j"] False assms len show ?thesis by simp
qed simp

lemma next_start_ok:
  assumes inv: "scan_inv intf"
  obtains i b where "next_start intf = (intf, i, b)" "in_limits intf i"
proof (cases "channel_min intf \<noteq> 0 \<and>
        uwifi_channel_get_chan (channels intf) (channel_idx intf) < channel_min intf")
  case True
  with min_in_limits [OF inv] show ?thesis
    by (intro that [of "uwifi_channel_idx_from_chan (channels intf) (channel_min intf)" True])
      (simp_all add: next_start_def in_limits_def Let_def)
next
  case False
  moreover have "uwifi_channel_get_chan (channels intf) (channel_idx intf) =
      cf_chan (used (channels intf) ! nat (channel_idx intf))"
    using inv by (simp add: scan_inv_def get_chan_used)
  ultimately show ?thesis using inv
    by (intro that [of "channel_idx intf" "uwifi_channel_is_ht40plus (channel intf)"])
      (auto simp: next_start_def in_limits_def scan_inv_def)
qed

lemma next_increment_ok:
  assumes inv: "scan_inv intf" and i: "in_limits intf i"
  shows "in_limits intf (next_increment intf i)"
proof -
  let ?cs = "channels intf"
  have wf: "channels_wf ?cs" using inv by (simp add: scan_inv_def)
  have wrap: "in_limits intf 0" if "channel_min intf = 0"
    using that i chan_mono [OF inv, of 0 i] by (auto simp: in_limits_def)
  show ?thesis
  proof (cases "i + 1 \<ge> num_channels ?cs \<or> i + 1 \<ge> MAX_CHANNELS \<or>
        (channel_max intf \<noteq> 0 \<and> uwifi_channel_get_chan ?cs (i + 1) > channel_max intf)")
    case True
    then show ?thesis
      using wrap min_in_limits [OF inv] by (simp add: next_increment_def Let_def)
  next
    case False
    then have n: "i + 1 < num_channels ?cs" by simp
    have "cf_chan (used ?cs ! nat i) \<le> cf_chan (used ?cs ! nat (i + 1))"
      using chan_mono [OF inv, of i "i + 1"] i n by (simp add: in_limits_def)
    with False i get_chan_used [OF wf, of "i + 1"] n show ?thesis
      by (auto simp: next_increment_def Let_def in_limits_def)
  qed
qed

lemma get_next_in_limits:
  assumes inv: "scan_inv intf"
  obtains j b where "in_limits intf j"
    "uwifi_channel_get_next intf ch = Some (intf, uwifi_channel_fix_center_freq
       (ch\<lparr>cs_freq := cf_freq (used (channels intf) ! nat j),
           cs_width := cf_max_width (used (channels intf) ! nat j)\<rparr>) b)"
proof -
  let ?cs = "channels intf"
  have wf: "channels_wf ?cs" using inv by (simp add: scan_inv_def)
  obtain i b where s: "next_start intf = (intf, i, b)" "in_limits intf i" using inv by (rule next_start_ok)
  have at: "chan_at ?cs k = Some (used ?cs ! nat k)" if "in_limits intf k" for k
    using that chan_at_used [OF wf] by (simp add: in_limits_def)
  note inc = next_increment_ok [OF inv s(2)]
  show ?thesis
  proof (cases "cs_width (channel intf) = CHAN_WIDTH_40 \<and> \<not> b \<and> cf_ht40plus (used ?cs ! nat i)")
    case True
    with s at [OF s(2)] show ?thesis
      by (intro that [of i True]) (auto simp: uwifi_channel_get_next_def next_step_def)
  next
    case False
    with s at [OF s(2)] at [OF inc] show ?thesis
      by (intro that [of "next_increment intf i" "\<not> cf_ht40minus (used ?cs ! nat (next_increment intf i))"])
        (auto simp: uwifi_channel_get_next_def next_step_def inc)
  qed
qed


text \<open>What a try of the loop leaves: the invariant, and the configuration as it was.\<close>

definition same_config :: "uwifi_interface \<Rightarrow> uwifi_interface \<Rightarrow> bool" where
  "same_config a b \<longleftrightarrow> channels b = channels a \<and> channel_min b = channel_min a \<and>
     channel_max b = channel_max a \<and> channel_scan b = channel_scan a \<and> channel_time b = channel_time a \<and>
     channel_set b = channel_set a \<and> ifname b = ifname a"

lemma channel_change_scan:
  assumes inv: "scan_inv intf" and j: "in_limits intf j"
    and f: "cs_freq ch = cf_freq (used (channels intf) ! nat j)"
    and r: "uwifi_channel_change P intf ch w = (ok, intf', w')"
  shows "scan_inv intf' \<and> same_config intf intf' \<and>
    (if ok then channel_idx intf' = j \<and> channel intf' = ch else intf' = intf)"
proof -
  have wf: "channels_wf (channels intf)" and d: "distinct (map cf_freq (used (channels intf)))"
    using inv by (simp_all add: scan_inv_def)
  have idx: "uwifi_channel_idx_from_freq (channels intf) (cs_freq ch) = j"
    using by_freq.idx_nth [OF d, of "nat j"] used_length [OF wf] j f by (simp add: in_limits_def)
  show ?thesis
  proof (rule channel_change_cases [of P intf ch w])
    fix w2 assume "uwifi_channel_change P intf ch w = (False, intf, w2)"
    with r inv show ?thesis by (simp add: same_config_def)
  next
    fix now w2 rate
    assume "uwifi_channel_change P intf ch w = (True,
      intf\<lparr>channel_idx := uwifi_channel_idx_from_freq (channels intf) (cs_freq ch), channel := ch,
        max_phy_rate := rate, last_channelchange := now\<rparr>, w2)"
    then have e: "ok" "intf' = intf\<lparr>channel_idx := j, channel := ch, max_phy_rate := rate,
        last_channelchange := now\<rparr>"
      using r idx by simp_all
    have "scan_inv intf'" using inv j unfolding scan_inv_def in_limits_def e(2) by simp
    with e show ?thesis by (simp add: same_config_def)
  qed
qed

lemma auto_loop_ok:
  "scan_inv intf \<Longrightarrow> \<exists>ok intf' w'. auto_loop P tries intf ch w = Some (ok, intf', w') \<and> scan_inv intf' \<and>
     same_config intf intf' \<and> (if ok then in_limits intf' (channel_idx intf') \<and>
       cs_freq (channel intf') = cf_freq (used (channels intf') ! nat (channel_idx intf'))
     else intf' = intf)"
proof (induction P tries intf ch w rule: auto_loop.induct)
  case (1 P tries intf ch w)
  obtain j b where j: "in_limits intf j" and n: "uwifi_channel_get_next intf ch = Some (intf,
      uwifi_channel_fix_center_freq (ch\<lparr>cs_freq := cf_freq (used (channels intf) ! nat j),
           cs_width := cf_max_width (used (channels intf) ! nat j)\<rparr>) b)" (is "_ = Some (intf, ?ch)")
    by (rule get_next_in_limits [OF 1(2)])
  obtain ok intf1 w1 where c: "uwifi_channel_change P intf ?ch w = (ok, intf1, w1)" by (metis prod_cases3)
  have f: "cs_freq ?ch = cf_freq (used (channels intf) ! nat j)" by simp
  note s = channel_change_scan [OF 1(2) j f c]
  show ?case
  proof (cases "\<not> ok \<and> tries - 1 > 0")
    case True
    then have e: "intf1 = intf" using s by simp
    have "auto_loop P tries intf ch w = auto_loop P (tries - 1) intf ?ch w1"
      using n c True e by (subst auto_loop.simps) simp
    then show ?thesis
      using 1(1) [OF n refl c [symmetric] refl True] 1(2) unfolding e by simp
  next
    case False
    have "auto_loop P tries intf ch w = Some (ok, intf1, w1)"
      using False n c by (subst auto_loop.simps) auto
    with s j show ?thesis
      by (cases ok) (auto simp: in_limits_def same_config_def)
  qed
qed

text \<open>C18: Whatever the clock and the driver do,
  \<open>uwifi_channel_auto_change\<close> returns, never reads outside the channel table, and keeps the
  scan invariant and the configuration.  The result 1 means that the interface is on a
  channel of the table inside the configured limits, the result 0 that nothing changed, and
  the result -1 that only the time of the last change is new.\<close>

theorem auto_change_keeps_scan_inv:
  assumes inv: "scan_inv intf"
  shows "\<exists>r intf' w'. uwifi_channel_auto_change P intf w = Some (r, intf', w') \<and> scan_inv intf' \<and>
    channels intf' = channels intf \<and> channel_min intf' = channel_min intf \<and> channel_max intf' = channel_max intf \<and>
    ((r = 0 \<and> intf' = intf) \<or>
     (r = 1 \<and> in_limits intf' (channel_idx intf') \<and>
       cs_freq (channel intf') = cf_freq (used (channels intf') ! nat (channel_idx intf'))) \<or>
     (r = -1 \<and> (\<exists>now. intf' = intf\<lparr>last_channelchange := now\<rparr>)))"
proof -
  obtain now w1 where t: "plat_time_usec P w = (now, w1)" by force
  show ?thesis
  proof (cases "\<not> channel_scan intf \<or> channel_idx intf = -1 \<or>
        uwifi_channel_get_remaining_dwell_time intf now > 0")
    case True
    then have "\<exists>w'. uwifi_channel_auto_change P intf w = Some (0, intf, w')"
      using t by (auto simp: uwifi_channel_auto_change_def)
    with inv show ?thesis by blast
  next
    case False
    from auto_loop_ok [OF inv, of P "auto_tries intf" zero_spec w1] obtain ok intf1 w2 where
      l: "auto_loop P (auto_tries intf) intf zero_spec w1 = Some (ok, intf1, w2)" "scan_inv intf1"
        "same_config intf intf1"
        "if ok then in_limits intf1 (channel_idx intf1) \<and>
           cs_freq (channel intf1) = cf_freq (used (channels intf1) ! nat (channel_idx intf1))
         else intf1 = intf" by blast
    show ?thesis
    proof (cases ok)
      case True
      then have "uwifi_channel_auto_change P intf w = Some (1, intf1, w2)"
        using False t l(1) by (simp add: uwifi_channel_auto_change_def)
      with l True show ?thesis by (simp add: same_config_def)
    next
      case nok: False
      obtain now2 w3 where t2: "plat_time_usec P w2 = (now2, w3)" by force
      have "uwifi_channel_auto_change P intf w = Some (-1, intf\<lparr>last_channelchange := now2\<rparr>, w3)"
        using False t l(1,4) nok t2 by (simp add: uwifi_channel_auto_change_def)
      moreover have "scan_inv (intf\<lparr>last_channelchange := now2\<rparr>)" using inv by (simp add: scan_inv_def)
      ultimately show ?thesis by auto
    qed
  qed
qed

text \<open>A clock that advances by a second at each call, and a driver that always succeeds.\<close>

definition good_platform :: "u32 platform" where
  "good_platform = \<lparr>plat_time_usec = (\<lambda>w. (w, w + 1000000)),
     ifctrl_iwset_freq = (\<lambda>name f width center w. (True, w)),
     ifctrl_iwget_freqlist = (\<lambda>intf w. (intf, w))\<rparr>"

lemma intf2_scan_inv: "scan_inv intf2"
  using table2_wf table2_distinct by (simp add: scan_inv_def intf2_def table2_used)

lemma auto_change_keeps_scan_inv_witness:
  "\<exists>r intf' w'. uwifi_channel_auto_change good_platform intf2 5 = Some (r, intf', w') \<and> scan_inv intf'"
  using auto_change_keeps_scan_inv [OF intf2_scan_inv, of good_platform 5]
  by (elim exE conjE) (intro exI conjI; assumption)


subsection \<open>The order of the scan\<close>

text \<open>Several calls in a row, counting those that change the channel.\<close>

fun scan_run :: "'w platform \<Rightarrow> nat \<Rightarrow> uwifi_interface \<Rightarrow> 'w \<Rightarrow> (nat \<times> uwifi_interface \<times> 'w) option" where
  "scan_run P 0 intf w = Some (0, intf, w)"
| "scan_run P (Suc m) intf w = do {
     (r, intf, w) \<leftarrow> uwifi_channel_auto_change P intf w;
     (k, intf, w) \<leftarrow> scan_run P m intf w;
     Some (if r = 1 then Suc k else k, intf, w) }"

text \<open>A scan without limits over a table of 20 MHz channels.\<close>

definition plain_scan :: "uwifi_interface \<Rightarrow> bool" where
  "plain_scan intf \<longleftrightarrow> scan_inv intf \<and> channel_min intf = 0 \<and> channel_max intf = 0 \<and>
     cs_width (channel intf) \<noteq> CHAN_WIDTH_40 \<and>
     (\<forall>e \<in> set (used (channels intf)). cf_max_width e = CHAN_WIDTH_20)"

lemma get_next_cyclic:
  assumes p: "plain_scan intf"
  defines "n \<equiv> num_channels (channels intf)"
  shows "uwifi_channel_get_next intf ch =
    Some (intf, ch\<lparr>cs_freq := cf_freq (used (channels intf) ! nat ((channel_idx intf + 1) mod n)),
                  cs_width := CHAN_WIDTH_20\<rparr>)"
proof -
  let ?j = "(channel_idx intf + 1) mod n"
  have wf: "channels_wf (channels intf)" and i: "0 \<le> channel_idx intf" "channel_idx intf < n"
    using p by (simp_all add: plain_scan_def scan_inv_def n_def)
  have n64: "n \<le> MAX_CHANNELS" using wf by (simp add: channels_wf_def n_def)
  have j: "0 \<le> ?j" "?j < n" using i by simp_all
  have at: "chan_at (channels intf) ?j = Some (used (channels intf) ! nat ?j)"
    using chan_at_used [OF wf j(1)] j(2) by (simp add: n_def)
  have w: "cf_max_width (used (channels intf) ! nat ?j) = CHAN_WIDTH_20"
    using p j used_length [OF wf] by (simp add: plain_scan_def n_def)
  have inc: "next_increment intf (channel_idx intf) = ?j"
  proof (cases "channel_idx intf + 1 = n")
    case True
    then show ?thesis using p by (simp add: next_increment_def plain_scan_def Let_def n_def)
  next
    case False
    with i have "channel_idx intf + 1 < n" by simp
    then show ?thesis using p n64 i by (auto simp: next_increment_def plain_scan_def Let_def n_def)
  qed
  have "next_start intf = (intf, channel_idx intf, uwifi_channel_is_ht40plus (channel intf))"
    using p by (simp add: next_start_def plain_scan_def)
  then show ?thesis
    using p at w by (simp add: uwifi_channel_get_next_def next_step_def plain_scan_def inc
        uwifi_channel_fix_center_freq_def)
qed



text \<open>The clock reading of a change and the world behind it, when the driver succeeds.\<close>

lemma channel_change_succeeds:
  assumes P: "\<forall>nm f wd c w. fst (ifctrl_iwset_freq P nm f wd c w)" and w: "cs_width ch = CHAN_WIDTH_20"
  obtains intf' nm f wd c where
    "uwifi_channel_change P intf ch w = (True, intf', snd (ifctrl_iwset_freq P nm f wd c (snd (plat_time_usec P w))))"
    "last_channelchange intf' = fst (plat_time_usec P w)"
proof -
  obtain now w1 where 1: "plat_time_usec P w = (now, w1)" by force
  obtain b w2 where 2: "ifctrl_iwset_freq P (ifname intf) (cs_freq ch) (cs_width ch) (cs_center_freq ch) w1 = (b, w2)"
    by force
  from P [rule_format, of "ifname intf" "cs_freq ch" "cs_width ch" "cs_center_freq ch" w1] 2 have b
    by simp
  with 1 2 w that [of _ "ifname intf" "cs_freq ch" "cs_width ch" "cs_center_freq ch"] show thesis
    by (simp add: uwifi_channel_change_def Let_def)
qed

text \<open>A call has to change the channel when scanning is on and the dwell time has passed.  The clock is slow
  for a dwell time \<open>t\<close> when at least \<open>t\<close> passes between the reading of a change and the first reading behind it.\<close>

definition scan_due :: "'w platform \<Rightarrow> uwifi_interface \<Rightarrow> 'w \<Rightarrow> bool" where
  "scan_due P intf w \<longleftrightarrow> channel_scan intf \<and>
     channel_time intf \<le> uint (fst (plat_time_usec P w) - last_channelchange intf)"

definition slow_clock :: "'w platform \<Rightarrow> int \<Rightarrow> bool" where
  "slow_clock P t \<longleftrightarrow> (\<forall>nm f wd c w. t \<le> uint (fst (plat_time_usec P
     (snd (ifctrl_iwset_freq P nm f wd c (snd (plat_time_usec P w))))) - fst (plat_time_usec P w)))"

lemma dwell_over_iff:
  "channel_scan intf \<Longrightarrow>
    uwifi_channel_get_remaining_dwell_time intf now > 0 \<longleftrightarrow> uint (now - last_channelchange intf) < channel_time intf"
proof -
  assume s: "channel_scan intf"
  let ?r = "channel_time intf - uint (now - last_channelchange intf)"
  have "uint (word_of_int ?r :: u32) = ?r" if "0 \<le> ?r" "?r \<le> 0xffffffff"
    using that by (simp add: unsigned_of_int take_bit_int_eq_self del: of_int_diff)
  with s show ?thesis
    by (auto simp: uwifi_channel_get_remaining_dwell_time_def Let_def word_less_def simp del: of_int_diff)
qed

lemma auto_loop_cyclic:
  assumes p: "plain_scan intf" and P: "\<forall>nm f wd c w. fst (ifctrl_iwset_freq P nm f wd c w)"
  obtains intf' w' where "auto_loop P tries intf ch w = Some (True, intf', w')" "plain_scan intf'"
    "same_config intf intf'"
    "channel_idx intf' = (channel_idx intf + 1) mod num_channels (channels intf)"
    "slow_clock P (channel_time intf) \<and> channel_scan intf \<longrightarrow> scan_due P intf' w'"
proof -
  let ?j = "(channel_idx intf + 1) mod num_channels (channels intf)"
  let ?ch = "ch\<lparr>cs_freq := cf_freq (used (channels intf) ! nat ?j), cs_width := CHAN_WIDTH_20\<rparr>"
  note n = get_next_cyclic [OF p, of ch]
  have inv: "scan_inv intf" using p by (simp add: plain_scan_def)
  have j: "in_limits intf ?j" using p inv by (simp add: in_limits_def plain_scan_def scan_inv_def)
  obtain intf1 nm f wd c where
    ch: "uwifi_channel_change P intf ?ch w = (True, intf1, snd (ifctrl_iwset_freq P nm f wd c (snd (plat_time_usec P w))))"
      "last_channelchange intf1 = fst (plat_time_usec P w)"
    by (rule channel_change_succeeds [OF P, of ?ch intf w]) simp_all
  have f: "cs_freq ?ch = cf_freq (used (channels intf) ! nat ?j)" by simp
  from channel_change_scan [OF inv j f ch(1)]
  have s: "scan_inv intf1" "same_config intf intf1" "channel_idx intf1 = ?j" "channel intf1 = ?ch"
    by simp_all
  have l: "auto_loop P tries intf ch w = Some (True, intf1, snd (ifctrl_iwset_freq P nm f wd c (snd (plat_time_usec P w))))"
    using n ch(1) by (subst auto_loop.simps) simp
  have p1: "plain_scan intf1" using p s by (simp add: plain_scan_def same_config_def)
  show thesis
  proof (rule that [OF l p1 s(2,3)])
    show "slow_clock P (channel_time intf) \<and> channel_scan intf \<longrightarrow> scan_due P intf1 (snd (ifctrl_iwset_freq P nm f wd c (snd (plat_time_usec P w))))"
      using s(2) ch(2) by (simp add: slow_clock_def scan_due_def same_config_def)
  qed
qed

lemma auto_change_cyclic:
  assumes p: "plain_scan intf" and P: "\<forall>nm f wd c w. fst (ifctrl_iwset_freq P nm f wd c w)"
  obtains r intf' w' where "uwifi_channel_auto_change P intf w = Some (r, intf', w')" "plain_scan intf'"
    "same_config intf intf'" "r = (if scan_due P intf w then 1 else 0)"
    "channel_idx intf' = (if r = 1 then (channel_idx intf + 1) mod num_channels (channels intf)
       else channel_idx intf)"
    "slow_clock P (channel_time intf) \<and> scan_due P intf w \<longrightarrow> scan_due P intf' w'"
proof -
  obtain now w1 where t: "plat_time_usec P w = (now, w1)" by force
  have i: "channel_idx intf \<noteq> -1" using p by (simp add: plain_scan_def scan_inv_def)
  have d: "scan_due P intf w \<longleftrightarrow> channel_scan intf \<and> \<not> uwifi_channel_get_remaining_dwell_time intf now > 0"
    using dwell_over_iff [of intf now] t by (auto simp: scan_due_def)
  show thesis
  proof (cases "scan_due P intf w")
    case False
    then have "\<exists>w'. uwifi_channel_auto_change P intf w = Some (0, intf, w')"
      using t i d by (auto simp: uwifi_channel_auto_change_def)
    then show thesis using that [of 0 intf] p False by (auto simp: same_config_def)
  next
    case True
    obtain intf1 w2 where
      l: "auto_loop P (auto_tries intf) intf zero_spec w1 = Some (True, intf1, w2)" "plain_scan intf1"
        "same_config intf intf1"
        "channel_idx intf1 = (channel_idx intf + 1) mod num_channels (channels intf)"
        "slow_clock P (channel_time intf) \<and> channel_scan intf \<longrightarrow> scan_due P intf1 w2"
      by (rule auto_loop_cyclic [OF p P, where tries = "auto_tries intf" and ch = zero_spec and w = w1])
    have "uwifi_channel_auto_change P intf w = Some (1, intf1, w2)"
      using True d i t l(1) by (simp add: uwifi_channel_auto_change_def)
    then show thesis using that [of 1] l True d by simp
  qed
qed

lemma scan_run_cyclic:
  assumes "plain_scan intf" and P: "\<forall>nm f wd c w. fst (ifctrl_iwset_freq P nm f wd c w)"
  shows "\<exists>k intf' w'. scan_run P m intf w = Some (k, intf', w') \<and> k \<le> m \<and> channels intf' = channels intf \<and>
    channel_idx intf' = (channel_idx intf + int k) mod num_channels (channels intf) \<and>
    (\<not> channel_scan intf \<longrightarrow> k = 0) \<and>
    (slow_clock P (channel_time intf) \<and> scan_due P intf w \<longrightarrow> k = m)"
  using assms(1)
proof (induction m arbitrary: intf w)
  case 0
  then show ?case by (simp add: plain_scan_def scan_inv_def)
next
  case (Suc m)
  obtain r intf1 w1 where s: "uwifi_channel_auto_change P intf w = Some (r, intf1, w1)" "plain_scan intf1"
    "same_config intf intf1" "r = (if scan_due P intf w then 1 else 0)"
    "channel_idx intf1 = (if r = 1 then (channel_idx intf + 1) mod num_channels (channels intf)
       else channel_idx intf)"
    "slow_clock P (channel_time intf) \<and> scan_due P intf w \<longrightarrow> scan_due P intf1 w1"
    by (rule auto_change_cyclic [OF Suc.prems P, where w = w])
  from Suc.IH [OF s(2), of w1] obtain k intf2 w2 where
    t: "scan_run P m intf1 w1 = Some (k, intf2, w2)" "k \<le> m" "channels intf2 = channels intf1"
      "channel_idx intf2 = (channel_idx intf1 + int k) mod num_channels (channels intf1)"
      "\<not> channel_scan intf1 \<longrightarrow> k = 0" "slow_clock P (channel_time intf1) \<and> scan_due P intf1 w1 \<longrightarrow> k = m" by blast
  have c: "channels intf1 = channels intf" "channel_scan intf1 = channel_scan intf" "channel_time intf1 = channel_time intf"
    using s(3) by (simp_all add: same_config_def)
  have "(channel_idx intf1 + int k) mod num_channels (channels intf) =
      (channel_idx intf + int (if r = 1 then Suc k else k)) mod num_channels (channels intf)"
    using s(5) by (simp add: mod_simps algebra_simps)
  moreover have "r \<noteq> 1 \<and> k = 0" if "\<not> channel_scan intf" using that s(4) t(5) c by (simp add: scan_due_def)
  moreover have "r = 1 \<and> k = m" if "slow_clock P (channel_time intf)" "scan_due P intf w"
    using that s(4,6) t(6) c by simp
  ultimately show ?case using s(1) t(1-4) c by auto
qed

text \<open>C24: A scan without limits over a table of 20 MHz channels,
  with a driver that does not fail.  A call of \<open>uwifi_channel_auto_change\<close> returns 1 exactly when scanning is on and
  the dwell time has passed since the last change, and 0 otherwise.  Any number of calls
  returns, and each change moves to the next channel of the table, cyclically: after \<open>k\<close>
  changes the index has advanced by \<open>k\<close> modulo the number of channels.  Progress: when the first call is due, and the
  clock moves on by the dwell time between a change and the next call, every call changes the channel, so that every channel of the table is
  reached after less than as many calls as there are channels.\<close>

theorem scan_visits_channels_in_turn:
  assumes p: "plain_scan intf" and P: "\<forall>nm f wd c w. fst (ifctrl_iwset_freq P nm f wd c w)"
  shows "(\<exists>intf' w'. uwifi_channel_auto_change P intf w = Some (if scan_due P intf w then 1 else 0, intf', w')) \<and>
    (\<exists>k intf' w'. scan_run P m intf w = Some (k, intf', w') \<and> k \<le> m \<and> channels intf' = channels intf \<and>
       channel_idx intf' = (channel_idx intf + int k) mod num_channels (channels intf) \<and>
       (\<not> channel_scan intf \<longrightarrow> k = 0) \<and> (slow_clock P (channel_time intf) \<and> scan_due P intf w \<longrightarrow> k = m)) \<and>
    (slow_clock P (channel_time intf) \<and> scan_due P intf w \<longrightarrow>
      (\<forall>j. 0 \<le> j \<and> j < num_channels (channels intf) \<longrightarrow> (\<exists>k intf' w'.
        int k < num_channels (channels intf) \<and> scan_run P k intf w = Some (k, intf', w') \<and> channel_idx intf' = j)))"
proof (intro conjI impI allI)
  show "\<exists>intf' w'. uwifi_channel_auto_change P intf w = Some (if scan_due P intf w then 1 else 0, intf', w')"
    by (rule auto_change_cyclic [OF p P, where w = w]) blast
next
  fix j assume a: "slow_clock P (channel_time intf) \<and> scan_due P intf w" "0 \<le> j \<and> j < num_channels (channels intf)"
  define k where "k = nat ((j - channel_idx intf) mod num_channels (channels intf))"
  have n: "0 < num_channels (channels intf)" using a(2) by linarith
  then have k: "int k = (j - channel_idx intf) mod num_channels (channels intf)" by (simp add: k_def)
  then have l: "int k < num_channels (channels intf)" using n by simp
  have "(channel_idx intf + int k) mod num_channels (channels intf) = j" using a(2) by (simp add: k mod_simps)
  with scan_run_cyclic [OF p P, of k w] a(1) l show "\<exists>k intf' w'.
      int k < num_channels (channels intf) \<and> scan_run P k intf w = Some (k, intf', w') \<and> channel_idx intf' = j" by auto
qed (rule scan_run_cyclic [OF p P])

definition table3 :: uwifi_channels where
  "table3 = table2\<lparr>chans := [zero_chan\<lparr>cf_chan := 1, cf_freq := 2412, cf_max_width := CHAN_WIDTH_20\<rparr>,
      zero_chan\<lparr>cf_chan := 6, cf_freq := 2437, cf_max_width := CHAN_WIDTH_20\<rparr>,
      zero_chan\<lparr>cf_chan := 11, cf_freq := 2462, cf_max_width := CHAN_WIDTH_20\<rparr>] @ replicate 61 zero_chan,
      num_channels := 3\<rparr>"

lemma scan_visits_channels_in_turn_witness:
  "(\<exists>intf' w'. scan_run good_platform 5 (intf2\<lparr>channels := table3\<rparr>) 300000 = Some (5, intf', w') \<and> channel_idx intf' = 2) \<and>
   (\<exists>intf' w'. scan_run good_platform 5 (intf2\<lparr>channels := table3, channel_scan := False\<rparr>) 300000 = Some (0, intf', w') \<and>
      channel_idx intf' = 0)"
proof -
  have u: "used table3 = [zero_chan\<lparr>cf_chan := 1, cf_freq := 2412, cf_max_width := CHAN_WIDTH_20\<rparr>,
      zero_chan\<lparr>cf_chan := 6, cf_freq := 2437, cf_max_width := CHAN_WIDTH_20\<rparr>,
      zero_chan\<lparr>cf_chan := 11, cf_freq := 2462, cf_max_width := CHAN_WIDTH_20\<rparr>]"
    by (simp add: used_def table3_def)
  have n: "num_channels table3 = 3" by (simp add: table3_def)
  have "channels_wf table3" using table2_wf by (simp add: channels_wf_def table3_def MAX_CHANNELS_def)
  with u n have p: "plain_scan (intf2\<lparr>channels := table3\<rparr>)"
    by (simp add: plain_scan_def scan_inv_def intf2_def zero_spec_def)
  then have q: "plain_scan (intf2\<lparr>channels := table3, channel_scan := False\<rparr>)"
    by (simp add: plain_scan_def scan_inv_def)
  have P: "\<forall>nm f wd c w. fst (ifctrl_iwset_freq good_platform nm f wd c w)"
    by (simp add: good_platform_def)
  have i: "channel_idx (intf2\<lparr>channels := table3\<rparr>) = 0" "channel_time (intf2\<lparr>channels := table3\<rparr>) = 250000"
    by (simp_all add: intf2_def)
  have c: "slow_clock good_platform (channel_time (intf2\<lparr>channels := table3\<rparr>))"
    by (simp add: slow_clock_def good_platform_def intf2_def)
  have d: "scan_due good_platform (intf2\<lparr>channels := table3\<rparr>) 300000"
    by (simp add: scan_due_def good_platform_def intf2_def)
  from scan_visits_channels_in_turn [OF p P, of 300000 5, THEN conjunct2, THEN conjunct1] c d
    scan_visits_channels_in_turn [OF q P, of 300000 5, THEN conjunct2, THEN conjunct1]
  show ?thesis by (auto simp: i n intf2_def)
qed


subsection \<open>Initialisation\<close>

text \<open>The table after the initialisation is the one of the driver with capabilities entered.\<close>

lemma change_keeps_channels:
  "uwifi_channel_change P intf ch w = (ok, intf', w') \<Longrightarrow> channels intf' = channels intf \<and> sock intf' = sock intf \<and>
     arphdr intf' = arphdr intf \<and> ifname intf' = ifname intf"
  by (rule channel_change_cases [where P = P and intf = intf and ch = ch and w = w]) auto

lemma channel_init_channels:
  assumes f: "ifctrl_iwget_freqlist P intf w = (intf1, w1)" and run: "uwifi_channel_init P intf w = Some (ok, intf', w')"
  shows "channels intf' = check_all_capab (channels intf1) \<and> sock intf' = sock intf1 \<and> arphdr intf' = arphdr intf1 \<and>
    ifname intf' = ifname intf1 \<and> (ok \<longrightarrow> 0 < num_bands (channels intf') \<and> 0 < num_channels (channels intf'))"
proof -
  obtain now w2 where t: "plat_time_usec P w1 = (now, w2)" by force
  define i1 where "i1 = intf1\<lparr>channel_initialized := True, channel_idx := -1, last_channelchange := now\<rparr>"
  define i2 where "i2 = i1\<lparr>channels := check_all_capab (channels i1)\<rparr>"
  have i2: "channels i2 = check_all_capab (channels intf1)" "sock i2 = sock intf1" "arphdr i2 = arphdr intf1"
    "ifname i2 = ifname intf1" by (simp_all add: i1_def i2_def)
  have ch: "channels i' = channels j \<and> sock i' = sock j \<and> arphdr i' = arphdr j \<and> ifname i' = ifname j"
    if "uwifi_channel_change P j c v = (b, i', v')" for j c v b i' v' by (rule change_keeps_channels [OF that])
  have cur: "channels intf' = channels j \<and> sock intf' = sock j \<and> arphdr intf' = arphdr j \<and> ifname intf' = ifname j"
    if "init_from_current P j v = Some (ok, intf', w')" for j v
    using that by (auto simp: init_from_current_def Let_def bind_conv split: prod.splits if_splits dest!: ch)
  have "(if num_bands (channels i2) \<le> 0 \<or> num_channels (channels i2) \<le> 0 then Some (False, i2, w2)
     else if cs_freq (channel_set i2) > 0 then Some (uwifi_channel_change P i2 (channel_set i2) w2)
     else if cs_freq (channel i2) = 0 then Some (True, i2\<lparr>max_phy_rate := word_of_int (wlan_max_phy_rate
                (bd_max_chan_width (bands (channels i2) ! 0)) (bd_streams_rx (bands (channels i2) ! 0))),
              channel_idx := -1\<rparr>, w2)
     else init_from_current P i2 w2) = Some (ok, intf', w')"
    using run unfolding uwifi_channel_init_def f t Let_def prod.case i1_def [symmetric] i2_def [symmetric] .
  then show ?thesis using i2 by (auto split: if_splits dest!: ch cur)
qed

lemma channel_init_undefined:
  assumes "ifctrl_iwget_freqlist P intf w = (intf1, w1)" "channels_wf (channels intf1)"
  shows "uwifi_channel_init P intf w = None \<longleftrightarrow>
    0 < num_bands (channels intf1) \<and> 0 < num_channels (channels intf1) \<and>
    cs_freq (channel_set intf1) = 0 \<and> cs_freq (channel intf1) \<noteq> 0 \<and>
    cs_freq (channel intf1) \<notin> cf_freq ` set (used (channels intf1))"
proof -
  obtain now w2 where t: "plat_time_usec P w1 = (now, w2)" by force
  note r = check_all_capab_result [OF assms(2)]
  have n: "num_channels (check_all_capab (channels intf1)) = num_channels (channels intf1)"
    "num_bands (check_all_capab (channels intf1)) = num_bands (channels intf1)"
    using r(1) by (simp_all add: same_keys_def)
  define i where "i = uwifi_channel_idx_from_freq (channels intf1) (cs_freq (channel intf1))"
  have i: "uwifi_channel_idx_from_freq (check_all_capab (channels intf1)) (cs_freq (channel intf1)) = i"
    by (simp add: i_def same_keys_idx(1) [OF r(1)])
  have at: "chan_at cs i = None \<longleftrightarrow> i = -1" for cs
    using idx_from_freq_lt [OF assms(2), of "cs_freq (channel intf1)"] assms(2)
    by (auto simp: chan_at_def i_def channels_wf_def)
  have m: "i = -1 \<longleftrightarrow> cs_freq (channel intf1) \<notin> cf_freq ` set (used (channels intf1))"
    by (simp add: i_def by_freq.idx_miss)
  have cur: "init_from_current P intf3 w2 = None \<longleftrightarrow> i = -1"
    if "channels intf3 = check_all_capab (channels intf1)" "channel intf3 = channel intf1" for intf3
    using at [of "check_all_capab (channels intf1)"]
    by (auto simp: init_from_current_def Let_def that i bind_conv split: prod.splits)
  have gt: "(0 :: u32) < f \<longleftrightarrow> f \<noteq> 0" for f by (rule word_neq_0_conv [symmetric])
  show ?thesis
    by (simp add: uwifi_channel_init_def assms(1) t n cur m gt Let_def)
qed

text \<open>C38: \<open>uwifi_channel_init\<close>, for a table that the driver has filled
  in correctly, stays inside the table unless no channel is configured and the driver
  reports a current frequency that is not in the table: then the code reads the entry
  before the first one.\<close>

theorem channel_init_defined_iff:
  assumes "ifctrl_iwget_freqlist P intf w = (intf1, w1)" "channels_wf (channels intf1)"
  shows "uwifi_channel_init P intf w = None \<longleftrightarrow>
    0 < num_bands (channels intf1) \<and> 0 < num_channels (channels intf1) \<and>
    cs_freq (channel_set intf1) = 0 \<and> cs_freq (channel intf1) \<noteq> 0 \<and>
    cs_freq (channel intf1) \<notin> cf_freq ` set (used (channels intf1))"
  using assms by (rule channel_init_undefined)

lemma channel_init_defined_iff_witness:
  "uwifi_channel_init good_platform (intf2\<lparr>channel := zero_spec\<lparr>cs_freq := 5180\<rparr>\<rparr>) 0 = None"
proof -
  have "ifctrl_iwget_freqlist good_platform (intf2\<lparr>channel := zero_spec\<lparr>cs_freq := 5180\<rparr>\<rparr>) 0 =
      (intf2\<lparr>channel := zero_spec\<lparr>cs_freq := 5180\<rparr>\<rparr>, 0)"
    by (simp add: good_platform_def)
  from channel_init_defined_iff [OF this] table2_wf table2_used show ?thesis
    by (simp add: intf2_def table2_distinct zero_spec_def) (simp add: table2_def)
qed

end
