(* ===== verification/Wlan_Parser.thy ===== *)
theory Wlan_Parser
  imports Wlan_Util
begin

text \<open>
  \<open>core/wlan_parser.c\<close>: the parser of 802.11 headers and of information elements.

  \<open>buf\<close> is the list of the bytes that may be read from the buffer pointer on, which can be
  more than the \<open>len\<close> bytes of the packet; a read behind it is \<open>None\<close>.  Lengths are \<open>size_t\<close>
  values below \<open>2\<^sup>3\<^sup>1\<close>, so that the subtraction of header sizes and the conversion to \<open>int\<close>
  give the \<open>int\<close> value of the difference.  Pointers into the frame are offsets; a NULL
  pointer is \<open>None\<close>.
\<close>

subsection \<open>Information elements\<close>

text \<open>\<open>memcpy(p->wlan_essid, src, n); p->wlan_essid[n] = '\0';\<close>\<close>

definition set_essid :: "bytes \<Rightarrow> uwifi_packet \<Rightarrow> uwifi_packet" where
  "set_essid bs p = p\<lparr>wlan_essid := bs @ 0 # drop (Suc (length bs)) (wlan_essid p)\<rparr>"

text \<open>One pass through the switch, for the element at offset \<open>pos\<close> with the given header.\<close>

definition parse_ie :: "bytes \<Rightarrow> nat \<Rightarrow> u8 \<Rightarrow> u8 \<Rightarrow> uwifi_packet \<Rightarrow> uwifi_packet option" where
  "parse_ie buf pos ie_id ie_len p =
    (let v = pos + 2 in
     if ie_id = WLAN_IE_ID_SSID then
       (if unat ie_len < WLAN_MAX_SSID_LEN - 1
        then do { bs \<leftarrow> rd_bytes buf v (unat ie_len); Some (set_essid bs p) }
        else do { bs \<leftarrow> rd_bytes buf v (WLAN_MAX_SSID_LEN - 1); Some (set_essid bs p) })
     else if ie_id = WLAN_IE_ID_DSSS_PARAM then
       do { c \<leftarrow> rd buf v; Some (p\<lparr>wlan_channel := c\<rparr>) }
     else if ie_id = WLAN_IE_ID_RSN then Some (p\<lparr>wlan_rsn := True\<rparr>)
     else if ie_id = WLAN_IE_ID_HT_CAPAB then do {
       v0 \<leftarrow> rd buf v;
       let p = p\<lparr>wlan_chan_width := (if flag_set (ucast v0) WLAN_IE_HT_CAPAB_INFO_CHAN_WIDTH_40
                                     then CHAN_WIDTH_40 else CHAN_WIDTH_20)\<rparr>;
       if ie_len \<ge> 26 then do {
         (rx, tx) \<leftarrow> wlan_ht_streams_from_mcs (drop (v + 3) buf) (wlan_tx_streams p);
         Some (p\<lparr>wlan_rx_streams := rx, wlan_tx_streams := tx\<rparr>) }
       else Some p }
     else if ie_id = WLAN_IE_ID_HT_OPER then
       (if ie_len > 1 then do {
          v1 \<leftarrow> rd buf (v + 1);
          let k = v1 AND WLAN_IE_HT_OPER_INFO_CHAN_OFFSET;
          Some (if k = 0 then p\<lparr>wlan_chan_width := CHAN_WIDTH_20\<rparr>
                else if k = 1 then p\<lparr>wlan_ht40plus := True\<rparr>
                else if k = 3 then p\<lparr>wlan_ht40plus := False\<rparr>
                else p) }
        else Some p)
     else if ie_id = WLAN_IE_ID_VHT_OPER \<or> ie_id = WLAN_IE_ID_VHT_OMN then
       Some (p\<lparr>wlan_chan_width := CHAN_WIDTH_80\<rparr>)
     else if ie_id = WLAN_IE_ID_VHT_CAPAB then
       (if ie_len \<ge> 12 then do {
          v0 \<leftarrow> rd buf v;
          let p = p\<lparr>wlan_chan_width := wlan_chan_width_from_vht_capab (ucast v0)\<rparr>;
          (rx, tx) \<leftarrow> wlan_vht_streams_from_mcs (drop (v + 4) buf);
          Some (p\<lparr>wlan_rx_streams := rx, wlan_tx_streams := tx\<rparr>) }
        else Some p)
     else if ie_id = WLAN_IE_ID_VENDOR then
       (if ie_len \<ge> 4 then do {
          v0 \<leftarrow> rd buf v; v1 \<leftarrow> rd buf (v + 1); v2 \<leftarrow> rd buf (v + 2); v3 \<leftarrow> rd buf (v + 3);
          Some (if v0 = 0x00 \<and> v1 = 0x50 \<and> v2 = 0xf2 \<and> v3 = 1 then p\<lparr>wlan_wpa := True\<rparr> else p) }
        else Some p)
     else Some p)"

text \<open>The loop \<open>while (len > 2)\<close>; \<open>pos\<close> is the offset the pointer has reached.\<close>

function parse_ies :: "bytes \<Rightarrow> nat \<Rightarrow> int \<Rightarrow> uwifi_packet \<Rightarrow> uwifi_packet option" where
  "parse_ies buf pos len p =
    (if len > 2 then
       (case rd buf pos of None \<Rightarrow> None | Some ie_id \<Rightarrow>
        (case rd buf (pos + 1) of None \<Rightarrow> None | Some ie_len \<Rightarrow>
         (case parse_ie buf pos ie_id ie_len p of None \<Rightarrow> None | Some p' \<Rightarrow>
            parse_ies buf (pos + (unat ie_len + 2)) (len - (int (unat ie_len) + 2)) p')))
     else Some p)"
  by pat_completeness auto
termination
proof (relation "measure (\<lambda>(buf, pos, len, p). nat len)")
  fix len :: int and l :: u8
  have "0 \<le> int (unat l)" by simp
  moreover assume "2 < len"
  ultimately have "nat (len - (int (unat l) + 2)) < nat len" by linarith
  then show "((buf', pos', len - (int (unat l) + 2), p'), (buf, pos, len, p))
      \<in> measure (\<lambda>(buf, pos, len, p). nat len)" for buf buf' :: bytes and pos pos' :: nat and p p' :: uwifi_packet
    by simp
qed simp

declare parse_ies.simps [simp del]

definition uwifi_parse_information_elements :: "bytes \<Rightarrow> int \<Rightarrow> uwifi_packet \<Rightarrow> uwifi_packet option" where
  "uwifi_parse_information_elements buf bufLen p = parse_ies buf 0 bufLen p"

subsection \<open>The 802.11 header\<close>

text \<open>The offsets of the fields of \<open>struct wlan_frame\<close>.\<close>

definition off_fc :: nat where "off_fc = 0"
definition off_duration :: nat where "off_duration = 2"
definition off_addr1 :: nat where "off_addr1 = 4"
definition off_addr2 :: nat where "off_addr2 = 10"
definition off_addr3 :: nat where "off_addr3 = 16"
definition off_seq :: nat where "off_seq = 22"
definition off_qos :: nat where "off_qos = 24"
definition off_addr4_qos :: nat where "off_addr4_qos = 30"

lemmas off_vals = off_fc_def off_duration_def off_addr1_def off_addr2_def off_addr3_def off_seq_def
  off_qos_def off_addr4_qos_def

definition WLAN_FRAME_QOS_AMSDU_PRESENT :: u16 where "WLAN_FRAME_QOS_AMSDU_PRESENT = 0x80"

text \<open>The header length and the pointers \<open>ra\<close>, \<open>ta\<close> and \<open>bssid\<close> that the first part determines.\<close>

record hdr_info =
  hdrlen :: nat
  hi_ra :: "nat option"
  hi_ta :: "nat option"
  hi_bssid :: "nat option"

text \<open>The first part, by frame type: \<open>Inl\<close> is the error return \<open>-1\<close> with the packet as far as it
  has been filled in.\<close>

type_synonym hdr_result = "(uwifi_packet + hdr_info \<times> uwifi_packet) option"

definition parse_seqno :: "bytes \<Rightarrow> u32 option" where
  "parse_seqno buf = do {
     s \<leftarrow> rd16 buf off_seq;
     Some (ucast (drop_bit 4 (s AND WLAN_FRAME_SEQ_MASK))) }"

definition data_hdrlen :: "u16 \<Rightarrow> nat" where
  "data_hdrlen fc =
     24 + (if WLAN_FRAME_IS_QOS fc then 2 + (if flag_set fc WLAN_FRAME_FC_ORDER then 4 else 0) else 0) +
     (if flag_set fc WLAN_FRAME_FC_FROM_DS \<and> flag_set fc WLAN_FRAME_FC_TO_DS then 6 else 0)"

definition data_addresses :: "bytes \<Rightarrow> u16 \<Rightarrow> (u32 \<times> nat option \<times> nat option \<times> nat option) option" where
  "data_addresses buf fc =
    (let from_ds = flag_set fc WLAN_FRAME_FC_FROM_DS; to_ds = flag_set fc WLAN_FRAME_FC_TO_DS in
     if \<not> from_ds \<and> \<not> to_ds then
       Some (WLAN_MODE_IBSS, Some off_addr1, Some off_addr2, Some off_addr3)
     else if from_ds \<and> to_ds then do {
       bssid \<leftarrow> (if WLAN_FRAME_IS_QOS fc then do {
                   qos \<leftarrow> rd16 buf off_addr4_qos;
                   Some (if flag_set qos WLAN_FRAME_QOS_AMSDU_PRESENT then Some off_addr3 else None) }
                 else Some None);
       Some (WLAN_MODE_4ADDR, Some off_addr1, Some off_addr2, bssid) }
     else if from_ds then Some (WLAN_MODE_AP, Some off_addr1, Some off_addr2, Some off_addr2)
     else Some (WLAN_MODE_STA, Some off_addr1, Some off_addr2, Some off_addr1))"

definition parse_data_header :: "bytes \<Rightarrow> nat \<Rightarrow> u16 \<Rightarrow> uwifi_packet \<Rightarrow> hdr_result" where
  "parse_data_header buf len fc p = do {
     let p = p\<lparr>wlan_fromds := flag_set fc WLAN_FRAME_FC_FROM_DS, wlan_tods := flag_set fc WLAN_FRAME_FC_TO_DS\<rparr>;
     (mode, ra, ta, bssid) \<leftarrow> data_addresses buf fc;
     let p = p\<lparr>wlan_mode := mode\<rparr>;
     if len < data_hdrlen fc then Some (Inl p)
     else do {
       nav \<leftarrow> rd16 buf off_duration;
       seqno \<leftarrow> parse_seqno buf;
       let p = p\<lparr>wlan_nav := ucast nav, wlan_seqno := seqno\<rparr>;
       let p = (if flag_set fc WLAN_FRAME_FC_PROTECTED then p\<lparr>wlan_wep := True\<rparr> else p);
       let p = (if flag_set fc WLAN_FRAME_FC_RETRY then p\<lparr>wlan_retry := True\<rparr> else p);
       Some (Inr (\<lparr>hdrlen = data_hdrlen fc, hi_ra = ra, hi_ta = ta, hi_bssid = bssid\<rparr>, p)) } }"

definition parse_ctrl_header :: "nat \<Rightarrow> uwifi_packet \<Rightarrow> hdr_result" where
  "parse_ctrl_header len p =
    (let n = (if wlan_type p = WLAN_FRAME_CTS \<or> wlan_type p = WLAN_FRAME_ACK then 10 else 16) in
     if len < n then Some (Inl p)
     else Some (Inr (\<lparr>hdrlen = n, hi_ra = None, hi_ta = None, hi_bssid = None\<rparr>, p)))"

definition parse_mgmt_header :: "bytes \<Rightarrow> nat \<Rightarrow> u16 \<Rightarrow> uwifi_packet \<Rightarrow> hdr_result" where
  "parse_mgmt_header buf len fc p =
    (let n = 24 + (if flag_set fc WLAN_FRAME_FC_ORDER then 4 else 0) in
     if len < n then Some (Inl p)
     else do {
       let p = p\<lparr>wlan_fromds := flag_set fc WLAN_FRAME_FC_FROM_DS, wlan_tods := flag_set fc WLAN_FRAME_FC_TO_DS\<rparr>;
       seqno \<leftarrow> parse_seqno buf;
       let p = p\<lparr>wlan_seqno := seqno\<rparr>;
       let p = (if flag_set fc WLAN_FRAME_FC_RETRY then p\<lparr>wlan_retry := True\<rparr> else p);
       Some (Inr (\<lparr>hdrlen = n, hi_ra = Some off_addr1, hi_ta = Some off_addr2,
                  hi_bssid = Some off_addr3\<rparr>, p)) })"

text \<open>The fixed part and the elements of a beacon or probe response.\<close>

definition parse_beacon :: "bytes \<Rightarrow> nat \<Rightarrow> nat \<Rightarrow> uwifi_packet \<Rightarrow> uwifi_packet option" where
  "parse_beacon buf len n p = do {
     tsf \<leftarrow> rd64 buf n;
     bintval \<leftarrow> rd16 buf (n + 8);
     p \<leftarrow> uwifi_parse_information_elements (drop (n + 12) buf) (int len - int n - 12 - 4)
            (p\<lparr>wlan_tsf := tsf, wlan_bintval := ucast bintval\<rparr>);
     cap_i \<leftarrow> rd16 buf (n + 10);
     let p = (if flag_set cap_i WLAN_CAPAB_IBSS then p\<lparr>wlan_mode := WLAN_MODE_IBSS\<rparr>
              else if flag_set cap_i WLAN_CAPAB_ESS then p\<lparr>wlan_mode := WLAN_MODE_AP\<rparr> else p);
     Some (if flag_set cap_i WLAN_CAPAB_PRIVACY then p\<lparr>wlan_wep := True\<rparr> else p) }"

text \<open>The switch over the frame type.\<close>

definition parse_nav :: "bytes \<Rightarrow> uwifi_packet \<Rightarrow> uwifi_packet option" where
  "parse_nav buf p = do { nav \<leftarrow> rd16 buf off_duration; Some (p\<lparr>wlan_nav := ucast nav\<rparr>) }"

definition parse_body :: "bytes \<Rightarrow> nat \<Rightarrow> u16 \<Rightarrow> hdr_info \<Rightarrow> uwifi_packet \<Rightarrow> (hdr_info \<times> uwifi_packet) option" where
  "parse_body buf len fc h p =
    (if wlan_type p = WLAN_FRAME_QDATA then do {
       qos \<leftarrow> rd16 buf off_qos;
       Some (h, p\<lparr>wlan_qos_class := ucast (qos AND WLAN_FRAME_QOS_TID_MASK)\<rparr>) }
     else if wlan_type p = WLAN_FRAME_RTS then do {
       p \<leftarrow> parse_nav buf p;
       Some (h\<lparr>hi_ra := Some off_addr1, hi_ta := Some off_addr2\<rparr>, p) }
     else if wlan_type p = WLAN_FRAME_CTS \<or> wlan_type p = WLAN_FRAME_ACK then do {
       p \<leftarrow> parse_nav buf p;
       Some (h\<lparr>hi_ra := Some off_addr1\<rparr>, p) }
     else if wlan_type p = WLAN_FRAME_PSPOLL then
       Some (h\<lparr>hi_ra := Some off_addr1, hi_bssid := Some off_addr1, hi_ta := Some off_addr2\<rparr>, p)
     else if wlan_type p = WLAN_FRAME_CF_END \<or> wlan_type p = WLAN_FRAME_CF_END_ACK then
       Some (h\<lparr>hi_ra := Some off_addr1, hi_ta := Some off_addr2, hi_bssid := Some off_addr2\<rparr>, p)
     else if wlan_type p = WLAN_FRAME_BLKACK \<or> wlan_type p = WLAN_FRAME_BLKACK_REQ then do {
       p \<leftarrow> parse_nav buf p;
       Some (h\<lparr>hi_ra := Some off_addr1, hi_ta := Some off_addr2\<rparr>, p) }
     else if wlan_type p = WLAN_FRAME_BEACON \<or> wlan_type p = WLAN_FRAME_PROBE_RESP then do {
       p \<leftarrow> parse_beacon buf len (hdrlen h) p;
       Some (h, p) }
     else if wlan_type p = WLAN_FRAME_PROBE_REQ then do {
       p \<leftarrow> uwifi_parse_information_elements (drop (hdrlen h) buf) (int len - int (hdrlen h) - 4) p;
       Some (h, p\<lparr>wlan_mode := WLAN_MODE_PROBE\<rparr>) }
     else if wlan_type p = WLAN_FRAME_AUTH then
       Some (h, if flag_set fc WLAN_FRAME_FC_PROTECTED then p\<lparr>wlan_wep := True\<rparr> else p)
     else Some (h, p))"

definition copy_addr :: "bytes \<Rightarrow> nat option \<Rightarrow> bytes \<Rightarrow> bytes option" where
  "copy_addr buf off old = (case off of None \<Rightarrow> Some old | Some k \<Rightarrow> rd_bytes buf k WLAN_MAC_LEN)"

text \<open>What follows the first part: the switch, the copies of the addresses and the result.\<close>

definition parse_rest :: "bytes \<Rightarrow> nat \<Rightarrow> u16 \<Rightarrow> hdr_info \<Rightarrow> uwifi_packet \<Rightarrow> (int \<times> uwifi_packet) option" where
  "parse_rest buf len fc h p = do {
     (h, p) \<leftarrow> parse_body buf len fc h (p\<lparr>wlan_len := word_of_nat len\<rparr>);
     ta \<leftarrow> copy_addr buf (hi_ta h) (wlan_ta p);
     ra \<leftarrow> copy_addr buf (hi_ra h) (wlan_ra p);
     bssid \<leftarrow> copy_addr buf (hi_bssid h) (wlan_bssid p);
     let p = p\<lparr>wlan_ta := ta, wlan_ra := ra, wlan_bssid := bssid\<rparr>;
     Some (if WLAN_FRAME_IS_DATA (wlan_type p) \<and> \<not> wlan_wep p then int (hdrlen h) else 0, p) }"

definition parse_first :: "bytes \<Rightarrow> nat \<Rightarrow> u16 \<Rightarrow> uwifi_packet \<Rightarrow> hdr_result" where
  "parse_first buf len fc p =
    (let p = p\<lparr>wlan_mode := WLAN_MODE_UNKNOWN, wlan_type := fc AND WLAN_FRAME_FC_MASK\<rparr> in
     if WLAN_FRAME_IS_DATA fc then parse_data_header buf len fc p
     else if WLAN_FRAME_IS_CTRL fc then parse_ctrl_header len p
     else if WLAN_FRAME_IS_MGMT fc then parse_mgmt_header buf len fc p
     else Some (Inl p))"

text \<open>The result is the returned \<open>int\<close> and the packet.\<close>

definition uwifi_parse_80211_header :: "bytes \<Rightarrow> nat \<Rightarrow> uwifi_packet \<Rightarrow> (int \<times> uwifi_packet) option" where
  "uwifi_parse_80211_header buf len p = do {
     fc \<leftarrow> rd16 buf off_fc;
     if len < 10 then Some (-1, p)
     else do {
       r \<leftarrow> parse_first buf len fc p;
       case r of
         Inl p \<Rightarrow> Some (-1, p)
       | Inr (h, p) \<Rightarrow> parse_rest buf len fc h p } }"

text \<open>The transmitter address as an offset, and the frame control field.\<close>

definition uwifi_get_80211_header_ta :: "bytes \<Rightarrow> nat \<Rightarrow> nat option option" where
  "uwifi_get_80211_header_ta buf len = do {
     fc \<leftarrow> rd16 buf off_fc;
     Some (if len < 16 then None
           else if WLAN_FRAME_IS_DATA fc then Some off_addr2
           else if WLAN_FRAME_IS_MGMT fc then Some off_addr2
           else if WLAN_FRAME_IS_CTRL fc then
             (if fc \<in> {WLAN_FRAME_RTS, WLAN_FRAME_PSPOLL, WLAN_FRAME_CF_END, WLAN_FRAME_CF_END_ACK,
                      WLAN_FRAME_BLKACK_REQ, WLAN_FRAME_BLKACK, WLAN_FRAME_VHT_NDP, WLAN_FRAME_BEAM_REP}
              then Some off_addr2 else None)
           else None) }"

definition uwifi_get_80211_header_fc :: "bytes \<Rightarrow> nat \<Rightarrow> u16 option" where
  "uwifi_get_80211_header_fc buf len = (if len < 2 then Some 0xFFFF else rd16 buf off_fc)"

end
