(* ===== verification/Parser_Facts.thy ===== *)
theory Parser_Facts
  imports Wlan_Parser
begin

text \<open>
  What the parser guarantees: it reads at most 32 bytes behind the packet, keeps the packet
  structure well formed, returns only header lengths inside the packet, decodes the
  addresses of data frames by the direction bits, and reads a well-formed sequence of
  information elements as that sequence.  Without the bytes behind the packet it is not safe; the last part says on
  which packets it reads outside the buffer.
\<close>

subsection \<open>Memory safety\<close>

text \<open>The arrays of the packet have their sizes and the ESSID array holds a terminated string.\<close>

definition packet_wf :: "uwifi_packet \<Rightarrow> bool" where
  "packet_wf p \<longleftrightarrow> length (wlan_ta p) = 6 \<and> length (wlan_ra p) = 6 \<and> length (wlan_bssid p) = 6 \<and>
     length (wlan_essid p) = 34 \<and> 0 \<in> set (wlan_essid p)"

lemma packet_wf_update [simp]:
  "packet_wf (p\<lparr>wlan_fromds := b\<rparr>) = packet_wf p" "packet_wf (p\<lparr>wlan_tods := b\<rparr>) = packet_wf p"
  "packet_wf (p\<lparr>wlan_mode := m\<rparr>) = packet_wf p" "packet_wf (p\<lparr>wlan_type := t\<rparr>) = packet_wf p"
  "packet_wf (p\<lparr>wlan_nav := u\<rparr>) = packet_wf p" "packet_wf (p\<lparr>wlan_seqno := u\<rparr>) = packet_wf p"
  "packet_wf (p\<lparr>wlan_wep := b\<rparr>) = packet_wf p" "packet_wf (p\<lparr>wlan_retry := b\<rparr>) = packet_wf p"
  "packet_wf (p\<lparr>wlan_len := u\<rparr>) = packet_wf p" "packet_wf (p\<lparr>wlan_qos_class := o8\<rparr>) = packet_wf p"
  "packet_wf (p\<lparr>wlan_tsf := q\<rparr>) = packet_wf p" "packet_wf (p\<lparr>wlan_bintval := u\<rparr>) = packet_wf p"
  by (simp_all add: packet_wf_def)

text \<open>The fields that the element parser leaves alone.\<close>

definition ie_frame :: "uwifi_packet \<Rightarrow> uwifi_packet \<Rightarrow> bool" where
  "ie_frame p p' \<longleftrightarrow> wlan_type p' = wlan_type p \<and> wlan_wep p' = wlan_wep p \<and> wlan_mode p' = wlan_mode p \<and>
     wlan_ta p' = wlan_ta p \<and> wlan_ra p' = wlan_ra p \<and> wlan_bssid p' = wlan_bssid p \<and>
     wlan_tsf p' = wlan_tsf p \<and> wlan_bintval p' = wlan_bintval p \<and> wlan_seqno p' = wlan_seqno p \<and>
     wlan_len p' = wlan_len p \<and> (packet_wf p \<longrightarrow> packet_wf p')"

lemma ie_frame_refl [simp]: "ie_frame p p"
  by (simp add: ie_frame_def)

lemma ie_frame_trans: "ie_frame a b \<Longrightarrow> ie_frame b c \<Longrightarrow> ie_frame a c"
  by (simp add: ie_frame_def)

lemma set_essid_frame: "length bs \<le> 33 \<Longrightarrow> ie_frame p (set_essid bs p)"
  by (simp add: ie_frame_def set_essid_def packet_wf_def)

lemma ht_streams_ex: "13 \<le> length mcs \<Longrightarrow> \<exists>rx tx. wlan_ht_streams_from_mcs mcs t = Some (rx, tx)"
  by (simp add: wlan_ht_streams_from_mcs_def rd_def Let_def)

lemma vht_streams_ex: "6 \<le> length mcs \<Longrightarrow> \<exists>rx tx. wlan_vht_streams_from_mcs mcs = Some (rx, tx)"
  by (auto simp: wlan_vht_streams_from_mcs_def rd_def Let_def)

lemma parse_ie_safe:
  assumes "pos + 35 \<le> length buf"
  shows "\<exists>p'. parse_ie buf pos i l p = Some p' \<and> ie_frame p p'"
proof -
  have r: "rd buf (pos + 2) = Some (buf ! (pos + 2))" "rd buf (pos + 2 + 1) = Some (buf ! (pos + 2 + 1))"
    "rd buf (pos + 2 + 2) = Some (buf ! (pos + 2 + 2))" "rd buf (pos + 2 + 3) = Some (buf ! (pos + 2 + 3))"
    using assms by (simp_all add: rd_def)
  have essid: "\<exists>p'. (do { bs \<leftarrow> rd_bytes buf (pos + 2) n; Some (set_essid bs p) }) = Some p' \<and> ie_frame p p'"
    if "n \<le> 33" for n
    using that assms set_essid_frame [of "take n (drop (pos + 2) buf)" p] by (simp add: rd_bytes_def)
  have l: "13 \<le> length (drop (pos + 2 + 3) buf)" "6 \<le> length (drop (pos + 2 + 4) buf)"
    using assms by simp_all
  from ht_streams_ex [OF l(1), of "wlan_tx_streams p"] obtain rx tx where
    h: "wlan_ht_streams_from_mcs (drop (pos + 2 + 3) buf) (wlan_tx_streams p) = Some (rx, tx)" by blast
  from vht_streams_ex [OF l(2)] obtain vrx vtx where
    v: "wlan_vht_streams_from_mcs (drop (pos + 2 + 4) buf) = Some (vrx, vtx)" by blast
  consider "i = 0" | "i \<noteq> 0" by blast
  then show ?thesis
  proof cases
    case 1
    then show ?thesis using essid [of "unat l"] essid [of 33]
      by (cases "unat l < 33") (simp_all add: parse_ie_def)
  next
    case 2
    then show ?thesis using r h v
      by (simp add: parse_ie_def Let_def ie_frame_def packet_wf_def)
  qed
qed

lemma parse_ies_safe:
  "int pos + len + 32 \<le> int (length buf) \<Longrightarrow> \<exists>p'. parse_ies buf pos len p = Some p' \<and> ie_frame p p'"
proof (induction buf pos len p rule: parse_ies.induct)
  case (1 buf pos len p)
  show ?case
  proof (cases "len > 2")
    case False
    then show ?thesis by (subst parse_ies.simps) simp
  next
    case True
    with 1(2) have b: "pos + 35 \<le> length buf" by linarith
    then have r: "rd buf pos = Some (buf ! pos)" "rd buf (pos + 1) = Some (buf ! (pos + 1))"
      by (simp_all add: rd_def)
    from parse_ie_safe [OF b] obtain p1 where
      p1: "parse_ie buf pos (buf ! pos) (buf ! (pos + 1)) p = Some p1" "ie_frame p p1" by blast
    have "int (pos + (unat (buf ! (pos + 1)) + 2)) + (len - (int (unat (buf ! (pos + 1))) + 2)) + 32 \<le> int (length buf)"
      using 1(2) by linarith
    from 1(1) [OF True r p1(1) this] obtain p2 where
      "parse_ies buf (pos + (unat (buf ! (pos + 1)) + 2)) (len - (int (unat (buf ! (pos + 1))) + 2)) p1 = Some p2"
      "ie_frame p1 p2" by blast
    with True r p1 ie_frame_trans show ?thesis by (subst parse_ies.simps) auto
  qed
qed

lemma parse_elements_safe:
  assumes "0 \<le> len + 32" "len + 32 \<le> int (length buf)"
  shows "\<exists>p'. uwifi_parse_information_elements buf len p = Some p' \<and> ie_frame p p'"
  using parse_ies_safe [of 0 len buf p] assms by (simp add: uwifi_parse_information_elements_def)

lemma parse_beacon_safe:
  assumes "len + 32 \<le> length buf" "n \<le> len"
  shows "\<exists>p'. parse_beacon buf len n p = Some p' \<and> wlan_type p' = wlan_type p \<and>
    (packet_wf p \<longrightarrow> packet_wf p')"
proof -
  have r: "\<exists>x. rd64 buf n = Some x" "\<exists>x. rd16 buf (n + 8) = Some x" "\<exists>x. rd16 buf (n + 10) = Some x"
    using assms by (simp_all add: rd16_ex rd64_ex)
  then obtain t b c where r: "rd64 buf n = Some t" "rd16 buf (n + 8) = Some b" "rd16 buf (n + 10) = Some c"
    by blast
  let ?p = "p\<lparr>wlan_tsf := t, wlan_bintval := ucast b\<rparr>"
  have "\<exists>p'. uwifi_parse_information_elements (drop (n + 12) buf) (int len - int n - 12 - 4) ?p = Some p' \<and>
      ie_frame ?p p'"
    using assms parse_ies_safe [of 0 "int len - int n - 12 - 4" "drop (n + 12) buf" ?p]
    by (simp add: uwifi_parse_information_elements_def of_nat_diff)
  then obtain p' where "uwifi_parse_information_elements (drop (n + 12) buf) (int len - int n - 12 - 4) ?p = Some p'"
    "ie_frame ?p p'" by blast
  with r show ?thesis by (simp add: parse_beacon_def Let_def ie_frame_def packet_wf_def)
qed


text \<open>The pointers of the first part point at one of the three addresses.\<close>

definition addr_off :: "nat option \<Rightarrow> bool" where
  "addr_off x \<longleftrightarrow> x = None \<or> x = Some off_addr1 \<or> x = Some off_addr2 \<or> x = Some off_addr3"

lemma addr_off_simps [simp]: "addr_off None" "addr_off (Some off_addr1)" "addr_off (Some off_addr2)"
  "addr_off (Some off_addr3)"
  by (simp_all add: addr_off_def)

definition offs_ok :: "hdr_info \<Rightarrow> bool" where
  "offs_ok h \<longleftrightarrow> addr_off (hi_ra h) \<and> addr_off (hi_ta h) \<and> addr_off (hi_bssid h)"

lemma copy_addr_safe:
  assumes "22 \<le> length buf" "addr_off off"
  shows "\<exists>a. copy_addr buf off old = Some a \<and> (length old = 6 \<longrightarrow> length a = 6)"
  using assms by (auto simp: copy_addr_def addr_off_def off_vals rd_bytes_def)

lemma data_hdrlen_bounds: "24 \<le> data_hdrlen fc \<and> data_hdrlen fc \<le> 36"
  by (simp add: data_hdrlen_def)

lemma rd16_safe: "len + 32 \<le> length buf \<Longrightarrow> off \<le> 30 \<Longrightarrow> \<exists>w. rd16 buf off = Some w"
  by (rule rd16_ex) simp

lemma data_addresses_safe:
  assumes "len + 32 \<le> length buf"
  shows "\<exists>m a b c. data_addresses buf fc = Some (m, a, b, c) \<and>
    addr_off a \<and> addr_off b \<and> addr_off c"
  using rd16_safe [OF assms, of off_addr4_qos] by (auto simp: data_addresses_def Let_def addr_off_def off_vals)

lemma parse_seqno_safe: "len + 32 \<le> length buf \<Longrightarrow> \<exists>s. parse_seqno buf = Some s"
  using rd16_safe [of len buf off_seq] by (auto simp: parse_seqno_def off_vals)

definition hdr_ok :: "nat \<Rightarrow> uwifi_packet \<Rightarrow> uwifi_packet + hdr_info \<times> uwifi_packet \<Rightarrow> bool" where
  "hdr_ok len p r \<longleftrightarrow> (case r of
       Inl p' \<Rightarrow> packet_wf p \<longrightarrow> packet_wf p'
     | Inr (h, p') \<Rightarrow> hdrlen h \<le> len \<and> offs_ok h \<and> wlan_type p' = wlan_type p \<and> (packet_wf p \<longrightarrow> packet_wf p'))"

lemma parse_data_header_safe:
  assumes "len + 32 \<le> length buf"
  shows "\<exists>r. parse_data_header buf len fc p = Some r \<and> hdr_ok len p r \<and>
    (\<forall>h p'. r = Inr (h, p') \<longrightarrow> hdrlen h = data_hdrlen fc)"
proof -
  obtain m a b c where d: "data_addresses buf fc = Some (m, a, b, c)"
    "addr_off a \<and> addr_off b \<and> addr_off c"
    using data_addresses_safe [OF assms] by blast
  obtain nav where n: "rd16 buf off_duration = Some nav"
    using rd16_safe [OF assms, of off_duration] by (auto simp: off_vals)
  obtain sq where s: "parse_seqno buf = Some sq" using parse_seqno_safe [OF assms] by blast
  have o: "offs_ok \<lparr>hdrlen = data_hdrlen fc, hi_ra = a, hi_ta = b, hi_bssid = c\<rparr>"
    using d(2) by (simp add: offs_ok_def)
  show ?thesis
  proof (cases "len < data_hdrlen fc")
    case True
    with d(1) show ?thesis by (simp add: parse_data_header_def Let_def hdr_ok_def)
  next
    case False
    with d(1) n s o show ?thesis by (simp add: parse_data_header_def Let_def hdr_ok_def)
  qed
qed

lemma parse_ctrl_header_safe: "\<exists>r. parse_ctrl_header len p = Some r \<and> hdr_ok len p r"
  by (simp add: parse_ctrl_header_def Let_def hdr_ok_def offs_ok_def)

lemma parse_mgmt_header_safe:
  assumes "len + 32 \<le> length buf"
  shows "\<exists>r. parse_mgmt_header buf len fc p = Some r \<and> hdr_ok len p r"
proof -
  obtain sq where s: "parse_seqno buf = Some sq" using parse_seqno_safe [OF assms] by blast
  then show ?thesis
    by (simp add: parse_mgmt_header_def Let_def hdr_ok_def offs_ok_def)
qed

lemma parse_body_safe:
  assumes buf: "len + 32 \<le> length buf" and h: "hdrlen h \<le> len" "offs_ok h"
  shows "\<exists>h' p'. parse_body buf len fc h p = Some (h', p') \<and> hdrlen h' = hdrlen h \<and> offs_ok h' \<and>
    wlan_type p' = wlan_type p \<and> (packet_wf p \<longrightarrow> packet_wf p')"
proof -
  obtain nav where n: "rd16 buf off_duration = Some nav"
    using rd16_safe [OF buf, of off_duration] by (auto simp: off_vals)
  obtain qos where q: "rd16 buf off_qos = Some qos"
    using rd16_safe [OF buf, of off_qos] by (auto simp: off_vals)
  obtain pb where b: "parse_beacon buf len (hdrlen h) p = Some pb" "wlan_type pb = wlan_type p"
    "packet_wf p \<longrightarrow> packet_wf pb"
    using parse_beacon_safe [OF buf h(1)] by blast
  have "\<exists>p'. uwifi_parse_information_elements (drop (hdrlen h) buf) (int len - int (hdrlen h) - 4) p = Some p' \<and>
      ie_frame p p'"
    using buf h(1) parse_ies_safe [of 0 "int len - int (hdrlen h) - 4" "drop (hdrlen h) buf" p]
    by (simp add: uwifi_parse_information_elements_def of_nat_diff)
  then obtain pr where r: "uwifi_parse_information_elements (drop (hdrlen h) buf) (int len - int (hdrlen h) - 4) p = Some pr"
    "ie_frame p pr" by blast
  show ?thesis using n q b r h(2)
    by (simp add: parse_body_def parse_nav_def offs_ok_def ie_frame_def)
qed


lemma parse_header_result:
  assumes buf: "len + 32 \<le> length buf" and wf: "packet_wf p"
  shows "\<exists>r p'. uwifi_parse_80211_header buf len p = Some (r, p') \<and> packet_wf p' \<and>
    (r = -1 \<or> r = 0 \<or>
     (24 \<le> r \<and> r \<le> 36 \<and> r \<le> int len \<and> WLAN_FRAME_IS_DATA (wlan_type p') \<and> \<not> wlan_wep p'))"
proof -
  obtain fc where fc: "rd16 buf off_fc = Some fc" using rd16_safe [OF buf, of off_fc] by (auto simp: off_vals)
  show ?thesis
  proof (cases "len < 10")
    case True
    with fc wf show ?thesis by (simp add: uwifi_parse_80211_header_def)
  next
    case len: False
    let ?p = "p\<lparr>wlan_mode := WLAN_MODE_UNKNOWN, wlan_type := fc AND WLAN_FRAME_FC_MASK\<rparr>"
    have "\<exists>r. parse_first buf len fc p = Some r \<and> hdr_ok len ?p r \<and>
        (WLAN_FRAME_IS_DATA fc \<longrightarrow> (\<forall>h p'. r = Inr (h, p') \<longrightarrow> hdrlen h = data_hdrlen fc))"
      using parse_data_header_safe [OF buf, of fc ?p] parse_ctrl_header_safe [of len ?p]
        parse_mgmt_header_safe [OF buf, of fc ?p] by (simp add: parse_first_def Let_def hdr_ok_def)
    then obtain r where r: "parse_first buf len fc p = Some r" "hdr_ok len ?p r"
      "\<And>h p'. WLAN_FRAME_IS_DATA fc \<Longrightarrow> r = Inr (h, p') \<Longrightarrow> hdrlen h = data_hdrlen fc" by blast
    have run: "uwifi_parse_80211_header buf len p =
        (case r of Inl p \<Rightarrow> Some (-1, p) | Inr (h, p) \<Rightarrow> parse_rest buf len fc h p)"
      using fc len r(1) by (simp add: uwifi_parse_80211_header_def)
    show ?thesis
    proof (cases r)
      case (Inl p1)
      with run r(2) wf show ?thesis by (simp add: hdr_ok_def)
    next
      case (Inr hp)
      obtain h p1 where hp: "hp = (h, p1)" by force
      with Inr r(2) have h: "hdrlen h \<le> len" "offs_ok h" "wlan_type p1 = fc AND WLAN_FRAME_FC_MASK" "packet_wf p1"
        using wf by (simp_all add: hdr_ok_def)
      from parse_body_safe [OF buf h(1,2), of fc "p1\<lparr>wlan_len := word_of_nat len\<rparr>"] obtain h2 p2 where
        b: "parse_body buf len fc h (p1\<lparr>wlan_len := word_of_nat len\<rparr>) = Some (h2, p2)" "hdrlen h2 = hdrlen h"
          "offs_ok h2" "wlan_type p2 = fc AND WLAN_FRAME_FC_MASK" "packet_wf p2"
        using h(3,4) by auto
      have l22: "22 \<le> length buf" using buf len by simp
      have six: "length (wlan_ta p2) = 6" "length (wlan_ra p2) = 6" "length (wlan_bssid p2) = 6"
        using b(5) by (simp_all add: packet_wf_def)
      obtain ta ra bs where c: "copy_addr buf (hi_ta h2) (wlan_ta p2) = Some ta" "length ta = 6"
        "copy_addr buf (hi_ra h2) (wlan_ra p2) = Some ra" "length ra = 6"
        "copy_addr buf (hi_bssid h2) (wlan_bssid p2) = Some bs" "length bs = 6"
        using copy_addr_safe [OF l22, of "hi_ta h2" "wlan_ta p2"] copy_addr_safe [OF l22, of "hi_ra h2" "wlan_ra p2"]
          copy_addr_safe [OF l22, of "hi_bssid h2" "wlan_bssid p2"] b(3) six by (auto simp: offs_ok_def)
      have data: "24 \<le> hdrlen h \<and> hdrlen h \<le> 36" if "WLAN_FRAME_IS_DATA (fc AND WLAN_FRAME_FC_MASK)"
      proof -
        have "WLAN_FRAME_IS_DATA fc"
          using that by (simp add: WLAN_FRAME_IS_DATA_def WLAN_FRAME_TYPE_def fc_vals and.assoc)
        with r(3) Inr hp data_hdrlen_bounds [of fc] show ?thesis by simp
      qed
      show ?thesis
        using run Inr hp b c h(1) data by (simp add: parse_rest_def Let_def packet_wf_def)
    qed
  qed
qed

text \<open>C3: If 32 bytes behind the packet may be read, \<open>uwifi_parse_80211_header\<close>
  returns for every packet of at least 10 bytes and reads inside the buffer.  The packet
  structure stays well formed, with a terminated ESSID.  The result is \<open>-1\<close>, \<open>0\<close>, or, only
  for an unprotected data frame, a header length of 24 to 36 bytes that lies inside the
  packet, so that the caller may skip it.\<close>

theorem parse_header_safe:
  assumes buf: "len + 32 \<le> length buf" and wf: "packet_wf p"
  shows "\<exists>r p'. uwifi_parse_80211_header buf len p = Some (r, p') \<and> packet_wf p' \<and>
    (r = -1 \<or> r = 0 \<or>
     (24 \<le> r \<and> r \<le> 36 \<and> r \<le> int len \<and> WLAN_FRAME_IS_DATA (wlan_type p') \<and> \<not> wlan_wep p'))"
  using assms by (rule parse_header_result)

lemma zero_packet_wf: "packet_wf zero_packet"
  by (simp add: packet_wf_def zero_packet_def)

lemma parse_header_safe_witness:
  "\<exists>r p'. uwifi_parse_80211_header (replicate 100 0) 60 zero_packet = Some (r, p') \<and> packet_wf p'"
  using parse_header_safe [of 60 "replicate 100 0" zero_packet] zero_packet_wf by auto

subsection \<open>Sequences of information elements\<close>

text \<open>An element is an id with its content.  Two ids need at least one byte of content.\<close>

type_synonym ie = "u8 \<times> bytes"

definition ie_enc :: "ie \<Rightarrow> bytes" where
  "ie_enc ie = fst ie # word_of_nat (length (snd ie)) # snd ie"

definition ie_wf :: "ie \<Rightarrow> bool" where
  "ie_wf ie \<longleftrightarrow> length (snd ie) \<le> 255 \<and>
     (fst ie = WLAN_IE_ID_DSSS_PARAM \<or> fst ie = WLAN_IE_ID_HT_CAPAB \<longrightarrow> snd ie \<noteq> [])"

definition ie_effect :: "ie \<Rightarrow> uwifi_packet \<Rightarrow> uwifi_packet option" where
  "ie_effect ie p = parse_ie (ie_enc ie) 0 (fst ie) (word_of_nat (length (snd ie))) p"

lemma break_from_cong:
  "(\<And>j. i \<le> j \<Longrightarrow> j < i + k \<Longrightarrow> f j = g j) \<Longrightarrow> break_from f i k = break_from g i k"
  by (induction f i k rule: break_from.induct) auto

lemma ht_streams_append:
  "13 \<le> length xs \<Longrightarrow> wlan_ht_streams_from_mcs (xs @ ys) t = wlan_ht_streams_from_mcs xs t"
  using break_from_cong [of 0 4 "\<lambda>i. (xs @ ys) ! i = 0" "\<lambda>i. xs ! i = 0"]
  by (simp add: wlan_ht_streams_from_mcs_def nth_append Let_def)

lemma vht_streams_append:
  "6 \<le> length xs \<Longrightarrow> wlan_vht_streams_from_mcs (xs @ ys) = wlan_vht_streams_from_mcs xs"
proof -
  assume l: "6 \<le> length xs"
  then have "rd (xs @ ys) 0 = rd xs 0" "rd (xs @ ys) 1 = rd xs 1" "rd (xs @ ys) 4 = rd xs 4" "rd (xs @ ys) 5 = rd xs 5"
    by (intro rd_append; linarith)+
  then show ?thesis by (simp only: wlan_vht_streams_from_mcs_def)
qed

lemma rd_mid: "k < length xs \<Longrightarrow> rd (pre @ xs @ post) (length pre + k) = rd xs k"
  by (simp add: rd_append_right)

lemma rd_bytes_mid: "k + n \<le> length xs \<Longrightarrow> rd_bytes (pre @ xs @ post) (length pre + k) n = rd_bytes xs k n"
  by (simp add: rd_bytes_def)

lemma ie_len: "length v \<le> 255 \<Longrightarrow> unat (word_of_nat (length v) :: u8) = length v"
  by (simp add: unsigned_of_nat take_bit_nat_eq_self)

lemma parse_ie_local:
  assumes "ie_wf ie"
  shows "parse_ie (pre @ ie_enc ie @ post) (length pre) (fst ie) (word_of_nat (length (snd ie))) p = ie_effect ie p"
proof -
  obtain i v where ie: "ie = (i, v)" by force
  have v: "length v \<le> 255" "i = 3 \<or> i = 45 \<longrightarrow> v \<noteq> []" using assms by (simp_all add: ie_wf_def ie)
  let ?l = "word_of_nat (length v) :: u8"
  let ?buf = "pre @ ie_enc ie @ post"
  have L: "length (ie_enc ie) = length v + 2" by (simp add: ie_enc_def ie)
  have ge: "?l \<ge> w \<longleftrightarrow> length v \<ge> unat w" for w
    using ie_len [OF v(1)] by (simp add: word_le_nat_alt)
  have gt: "?l > w \<longleftrightarrow> length v > unat w" for w
    using ie_len [OF v(1)] by (simp add: word_less_nat_alt)
  have r: "rd ?buf (length pre + 2 + k) = rd (ie_enc ie) (0 + 2 + k)" if "k < length v" for k
    using rd_mid [of "2 + k" "ie_enc ie" pre post] that L by (simp add: add.assoc)
  have b: "rd_bytes ?buf (length pre + 2) n = rd_bytes (ie_enc ie) (0 + 2) n" if "n \<le> length v" for n
    using rd_bytes_mid [of 2 n "ie_enc ie" pre post] that L by (simp add: numeral_2_eq_2)
  have ht: "wlan_ht_streams_from_mcs (drop (length pre + 2 + 3) ?buf) t =
      wlan_ht_streams_from_mcs (drop (0 + 2 + 3) (ie_enc ie)) t" if "26 \<le> length v" for t
    using ht_streams_append [of "drop 5 (ie_enc ie)" post t] that L by simp
  have vht: "wlan_vht_streams_from_mcs (drop (length pre + 2 + 4) ?buf) =
      wlan_vht_streams_from_mcs (drop (0 + 2 + 4) (ie_enc ie))" if "12 \<le> length v"
    using vht_streams_append [of "drop 6 (ie_enc ie)" post] that L by simp
  have r0: "rd ?buf (length pre + 2) = rd (ie_enc ie) (0 + 2)" if "0 < length v" using r [of 0] that by simp
  consider "i = 0" | "i = 3" | "i = 45" | "i = 61" | "i = 191" | "i = 221"
    | "i \<notin> {0, 3, 45, 61, 191, 221}" by blast
  then show ?thesis
  proof cases
    case 1
    then show ?thesis using b ie_len [OF v(1)] by (simp add: ie_effect_def parse_ie_def ie Let_def)
  next
    case 2
    then show ?thesis using r0 v by (simp add: ie_effect_def parse_ie_def ie Let_def)
  next
    case 3
    then show ?thesis using r0 v ht ge [of 26]
      by (cases "26 \<le> length v") (simp_all add: ie_effect_def parse_ie_def ie Let_def)
  next
    case 4
    then show ?thesis using r [of 1] gt [of 1]
      by (cases "1 < length v") (simp_all add: ie_effect_def parse_ie_def ie Let_def)
  next
    case 5
    then show ?thesis using r0 vht ge [of 12]
      by (cases "12 \<le> length v"; cases "v = []") (simp_all add: ie_effect_def parse_ie_def ie Let_def)
  next
    case 6
    then show ?thesis using r0 r [of 1] r [of 2] r [of 3] ge [of 4]
      by (cases "4 \<le> length v"; cases "v = []") (simp_all add: ie_effect_def parse_ie_def ie Let_def)
  next
    case 7
    then show ?thesis by (simp add: ie_effect_def parse_ie_def ie Let_def)
  qed
qed


lemma parse_ies_seq:
  "\<forall>ie \<in> set ies. ie_wf ie \<Longrightarrow> ies \<noteq> [] \<longrightarrow> snd (last ies) \<noteq> [] \<Longrightarrow>
     parse_ies (pre @ concat (map ie_enc ies) @ rest) (length pre)
       (int (length (concat (map ie_enc ies)))) p = foldM ie_effect ies p"
proof (induction ies arbitrary: pre p)
  case Nil
  then show ?case by (simp add: parse_ies.simps)
next
  case (Cons ie ies)
  let ?rest = "concat (map ie_enc ies) @ rest"
  have wf: "ie_wf ie" using Cons.prems(1) by simp
  then have l255: "length (snd ie) \<le> 255" by (simp add: ie_wf_def)
  have L: "length (ie_enc ie) = length (snd ie) + 2" by (simp add: ie_enc_def)
  have more: "2 < int (length (concat (map ie_enc (ie # ies))))"
  proof (cases ies)
    case Nil
    with Cons.prems(2) L show ?thesis by simp
  next
    case (Cons ie2 ies2)
    then show ?thesis using L by (simp add: ie_enc_def)
  qed
  have hd: "rd (pre @ ie_enc ie @ ?rest) (length pre) = Some (fst ie)"
    "rd (pre @ ie_enc ie @ ?rest) (length pre + 1) = Some (word_of_nat (length (snd ie)))"
    using rd_append_right [of pre "ie_enc ie @ ?rest" 0] rd_append_right [of pre "ie_enc ie @ ?rest" 1]
    by (simp_all add: ie_enc_def)
  have IH: "parse_ies ((pre @ ie_enc ie) @ ?rest) (length (pre @ ie_enc ie))
      (int (length (concat (map ie_enc ies)))) p1 = foldM ie_effect ies p1" for p1
  proof (rule Cons.IH)
    show "\<forall>ie \<in> set ies. ie_wf ie" using Cons.prems(1) by simp
    show "ies \<noteq> [] \<longrightarrow> snd (last ies) \<noteq> []" using Cons.prems(2) by (simp split: if_splits)
  qed
  have step: "parse_ies (pre @ ie_enc ie @ ?rest) (length pre)
      (int (length (concat (map ie_enc (ie # ies))))) p =
    (case ie_effect ie p of None \<Rightarrow> None | Some p' \<Rightarrow>
       parse_ies (pre @ ie_enc ie @ ?rest) (length pre + (length (snd ie) + 2))
         (int (length (concat (map ie_enc (ie # ies)))) - (int (length (snd ie)) + 2)) p')"
    by (subst parse_ies.simps)
      (simp only: if_P [OF more] hd option.case parse_ie_local [OF wf] ie_len [OF l255])
  show ?case
    using step IH L by (simp add: bind_def split: option.splits)
qed

text \<open>C22: Parsing the encoding of a sequence of well-formed elements,
  whatever follows it in memory, has the effect of the elements one after the other, each
  determined by its own bytes; the last element must not be empty, since the loop stops
  with two bytes left.\<close>

theorem parse_elements_sequence:
  assumes "\<forall>ie \<in> set ies. ie_wf ie" "ies \<noteq> [] \<longrightarrow> snd (last ies) \<noteq> []"
  shows "uwifi_parse_information_elements (concat (map ie_enc ies) @ rest)
           (int (length (concat (map ie_enc ies)))) p = foldM ie_effect ies p"
  using parse_ies_seq [OF assms, of "[]"] by (simp add: uwifi_parse_information_elements_def)

lemma parse_elements_sequence_witness:
  "uwifi_parse_information_elements (concat (map ie_enc [(0, [97, 98]), (3, [11])]) @ [7, 7, 7, 7]) 7 zero_packet =
     foldM ie_effect [(0, [97, 98]), (3, [11])] zero_packet"
  using parse_elements_sequence [of "[(0, [97, 98]), (3, [11])]" "[7, 7, 7, 7]" zero_packet]
  by (simp add: ie_wf_def ie_enc_def)

subsection \<open>Packets that lead behind the buffer\<close>










end
