(* ===== verification/Inject.thy ===== *)
theory Inject
  imports Parser_Facts
begin

text \<open>
  \<open>core/inject.c\<close> and \<open>linux/inject_rtap.c\<close>: building frames for injection, and the round
  trips with the parser.  The host is little-endian, as the sequence number is shifted
  after its conversion.  Each function writes consecutive fields from the start of the
  buffer on; the result is the returned length and the new contents of the buffer, or
  \<open>None\<close> if the buffer is too short for what is written.
\<close>

subsection \<open>Frames\<close>

definition put :: "bytes \<Rightarrow> bytes \<Rightarrow> bytes option" where
  "put bs buf = (if length bs \<le> length buf then Some (bs @ drop (length bs) buf) else None)"

lemma put_take: "put bs buf = Some frame \<Longrightarrow> take (length bs) frame = bs"
  by (auto simp: put_def split: if_splits)

definition supprates :: bytes where
  "supprates = [0x8c, 0x12, 0x98, 0x24, 0xb0, 0x48, 0x60, 0x6c]"

text \<open>The first 24 bytes of \<open>struct wlan_frame\<close>.\<close>

definition header24 :: "u16 \<Rightarrow> u16 \<Rightarrow> bytes \<Rightarrow> bytes \<Rightarrow> bytes \<Rightarrow> u16 \<Rightarrow> bytes" where
  "header24 fc dur a1 a2 a3 sq = le16_enc fc @ le16_enc dur @ a1 @ a2 @ a3 @ le16_enc sq"

text \<open>\<open>essid\<close> is the C string without its terminator, \<open>channel\<close> and \<open>bintval\<close> are \<open>int\<close> values
  that are converted to the width of the field.\<close>

definition uwifi_create_beacon_probe_response ::
  "bytes \<Rightarrow> bool \<Rightarrow> bytes \<Rightarrow> bytes \<Rightarrow> bytes \<Rightarrow> bytes \<Rightarrow> u64 \<Rightarrow> int \<Rightarrow> int \<Rightarrow> u16 \<Rightarrow> (int \<times> bytes) option" where
  "uwifi_create_beacon_probe_response buf probe_response sa da bssid essid tsf chan bintval seqno = do {
     let header = header24 (if probe_response then WLAN_FRAME_PROBE_RESP else WLAN_FRAME_BEACON) 0
                    (if probe_response then take 6 da else replicate 6 0xff) (take 6 sa) (take 6 bssid)
                    (push_bit 4 seqno);
     let bcn = le64_enc tsf @ le16_enc (word_of_int bintval) @ le16_enc WLAN_CAPAB_ESS;
     let ies = [WLAN_IE_ID_SSID, word_of_nat (length essid)] @ essid @
               [1, 8] @ supprates @
               [WLAN_IE_ID_DSSS_PARAM, 1, word_of_int chan];
     buf \<leftarrow> put (header @ bcn @ ies) buf;
     Some (36 + int (length ies), buf) }"

text \<open>The returned length is \<open>sizeof(struct wlan_frame)\<close>, which includes the largest variant of
  the union after the sequence number: 36 bytes, of which 24 are written.\<close>

definition sizeof_wlan_frame :: int where "sizeof_wlan_frame = 36"

definition uwifi_create_nulldata :: "bytes \<Rightarrow> bytes \<Rightarrow> bytes \<Rightarrow> bytes \<Rightarrow> u16 \<Rightarrow> (int \<times> bytes) option" where
  "uwifi_create_nulldata buf sa da bssid sq = do {
     buf \<leftarrow> put (header24 (WLAN_FRAME_NULL OR WLAN_FRAME_FC_TO_DS) 0 (take 6 bssid) (take 6 sa) (take 6 da)
                   (push_bit 4 sq)) buf;
     Some (sizeof_wlan_frame, buf) }"

text \<open>
  \<open>inject_rtap.c\<close>: the numbers of the radiotap fields come from the radiotap library;
  \<open>present\<close> is the value of \<open>INJECT_RTAP_PRESENT\<close> computed from them.
\<close>

definition RADIOTAP_F_TX_NOACK :: u16 where "RADIOTAP_F_TX_NOACK = 0x0008"

definition inject_rtap_present :: "nat \<Rightarrow> nat \<Rightarrow> nat \<Rightarrow> nat \<Rightarrow> nat \<Rightarrow> u32" where
  "inject_rtap_present flags rate chan tx_flags data_retries =
     push_bit flags 1 OR push_bit rate 1 OR push_bit chan 1 OR push_bit tx_flags 1 OR push_bit data_retries 1"

definition uwifi_create_radiotap_header :: "u32 \<Rightarrow> bytes \<Rightarrow> int \<Rightarrow> bool \<Rightarrow> (int \<times> bytes) option" where
  "uwifi_create_radiotap_header present buf freq ack = do {
     buf \<leftarrow> put ([0, 0] @ le16_enc 17 @ le32_enc present @ [0, if freq \<le> 2484 then 1 * 2 else 6 * 2] @
                 le16_enc (word_of_int freq) @ le16_enc 0 @
                 le16_enc (if ack then 0 else RADIOTAP_F_TX_NOACK) @ [0]) buf;
     Some (17, buf) }"

subsection \<open>Reading the header back\<close>

lemma le16_length [simp]: "length (le16_enc w) = 2" by (rule le16.enc_width)
lemma le64_length [simp]: "length (le64_enc w) = 8" by (rule le64.enc_width)
lemma le32_length [simp]: "length (le32_enc w) = 4" by (rule le32.enc_width)

lemma header24_length [simp]:
  "length a1 = 6 \<Longrightarrow> length a2 = 6 \<Longrightarrow> length a3 = 6 \<Longrightarrow> length (header24 fc dur a1 a2 a3 sq) = 24"
  by (simp add: header24_def)

lemma header24_reads:
  assumes "length a1 = 6" "length a2 = 6" "length a3 = 6"
  shows "rd16 (header24 fc dur a1 a2 a3 sq @ rest) off_fc = Some fc"
    "rd16 (header24 fc dur a1 a2 a3 sq @ rest) off_duration = Some dur"
    "rd_bytes (header24 fc dur a1 a2 a3 sq @ rest) off_addr1 6 = Some a1"
    "rd_bytes (header24 fc dur a1 a2 a3 sq @ rest) off_addr2 6 = Some a2"
    "rd_bytes (header24 fc dur a1 a2 a3 sq @ rest) off_addr3 6 = Some a3"
    "rd16 (header24 fc dur a1 a2 a3 sq @ rest) off_seq = Some sq"
  using assms rd16_exact [of "[]" 0 fc "le16_enc dur @ a1 @ a2 @ a3 @ le16_enc sq @ rest"]
    rd16_exact [of "le16_enc fc" 2 dur "a1 @ a2 @ a3 @ le16_enc sq @ rest"]
    rd_bytes_exact [of "le16_enc fc @ le16_enc dur" 4 a1 6 "a2 @ a3 @ le16_enc sq @ rest"]
    rd_bytes_exact [of "le16_enc fc @ le16_enc dur @ a1" 10 a2 6 "a3 @ le16_enc sq @ rest"]
    rd_bytes_exact [of "le16_enc fc @ le16_enc dur @ a1 @ a2" 16 a3 6 "le16_enc sq @ rest"]
    rd16_exact [of "le16_enc fc @ le16_enc dur @ a1 @ a2 @ a3" 22 sq rest]
  by (simp_all add: header24_def off_vals)

lemma header24_seqno:
  assumes "length a1 = 6" "length a2 = 6" "length a3 = 6"
  shows "parse_seqno (header24 fc dur a1 a2 a3 sq @ rest) = Some (ucast (drop_bit 4 (sq AND 0xFFF0)))"
  using header24_reads(6) [OF assms] by (simp add: parse_seqno_def WLAN_FRAME_SEQ_MASK_def)

lemma seqno_shift: "ucast (drop_bit 4 (push_bit 4 sq AND 0xFFF0 :: u16)) = (ucast (sq AND 0xFFF) :: u32)"
proof -
  have b: "bit (0xFFF0 :: int) n \<longleftrightarrow> 4 \<le> n \<and> n < 16" "bit (0xFFF :: int) n \<longleftrightarrow> n < 12" for n
  proof -
    have e: "(0xFFF0 :: int) = push_bit 4 (mask 12)" "(0xFFF :: int) = mask 12"
      by (simp_all add: mask_eq_exp_minus_1 push_bit_eq_mult)
    show "bit (0xFFF0 :: int) n \<longleftrightarrow> 4 \<le> n \<and> n < 16" unfolding e(1) bit_push_bit_iff bit_mask_iff by auto
    show "bit (0xFFF :: int) n \<longleftrightarrow> n < 12" unfolding e(2) bit_mask_iff by auto
  qed
  show ?thesis by (rule bit_word_eqI) (auto simp: bit_simps b)
qed


subsection \<open>Round trips\<close>

lemma fc_type_of:
  "WLAN_FRAME_TYPE fc = WLAN_FRAME_TYPE (fc AND WLAN_FRAME_FC_MASK)"
  by (simp add: WLAN_FRAME_TYPE_def fc_vals and.assoc)

lemma fc_qos_of: "WLAN_FRAME_IS_QOS fc = WLAN_FRAME_IS_QOS (fc AND WLAN_FRAME_FC_MASK)"
  by (simp add: WLAN_FRAME_IS_QOS_def fc_vals and.assoc)

lemma fc_class_of:
  "WLAN_FRAME_IS_DATA fc = WLAN_FRAME_IS_DATA (fc AND WLAN_FRAME_FC_MASK)"
  "WLAN_FRAME_IS_MGMT fc = WLAN_FRAME_IS_MGMT (fc AND WLAN_FRAME_FC_MASK)"
  "WLAN_FRAME_IS_CTRL fc = WLAN_FRAME_IS_CTRL (fc AND WLAN_FRAME_FC_MASK)"
  using fc_type_of [of fc] by (simp_all add: WLAN_FRAME_IS_DATA_def WLAN_FRAME_IS_MGMT_def WLAN_FRAME_IS_CTRL_def)

text \<open>The elements of the created beacon.\<close>

definition beacon_ies :: "bytes \<Rightarrow> int \<Rightarrow> ie list" where
  "beacon_ies essid chan = [(WLAN_IE_ID_SSID, essid), (1, supprates), (WLAN_IE_ID_DSSS_PARAM, [word_of_int chan])]"

lemma beacon_ies_effect:
  assumes "length essid \<le> 32"
  shows "foldM ie_effect (beacon_ies essid chan) p = Some (set_essid essid p\<lparr>wlan_channel := word_of_int chan\<rparr>)"
proof -
  have l: "unat (word_of_nat (length essid) :: u8) = length essid" using assms by (intro ie_len) simp
  show ?thesis
    using assms l by (simp add: beacon_ies_def ie_effect_def parse_ie_def ie_enc_def rd_bytes_def Let_def)
qed


text \<open>The first part of the parser on a management frame without flags.\<close>

lemma parse_first_mgmt:
  assumes a: "length a1 = 6" "length a2 = 6" "length a3 = 6" and len: "24 \<le> len"
    and fc: "fc = WLAN_FRAME_BEACON \<or> fc = WLAN_FRAME_PROBE_RESP"
  shows "parse_first (header24 fc dur a1 a2 a3 sq @ rest) len fc p = Some (Inr
    (\<lparr>hdrlen = 24, hi_ra = Some off_addr1, hi_ta = Some off_addr2, hi_bssid = Some off_addr3\<rparr>,
     p\<lparr>wlan_mode := WLAN_MODE_UNKNOWN, wlan_type := fc, wlan_fromds := False, wlan_tods := False,
       wlan_seqno := ucast (drop_bit 4 (sq AND 0xFFF0))\<rparr>))"
proof -
  have t: "WLAN_FRAME_IS_MGMT fc" "\<not> WLAN_FRAME_IS_DATA fc" "\<not> WLAN_FRAME_IS_CTRL fc"
    "fc AND WLAN_FRAME_FC_MASK = fc"
    "\<not> flag_set fc WLAN_FRAME_FC_ORDER" "\<not> flag_set fc WLAN_FRAME_FC_FROM_DS"
    "\<not> flag_set fc WLAN_FRAME_FC_TO_DS" "\<not> flag_set fc WLAN_FRAME_FC_RETRY"
    using fc by (auto simp: WLAN_FRAME_IS_MGMT_def WLAN_FRAME_IS_DATA_def WLAN_FRAME_IS_CTRL_def
        WLAN_FRAME_TYPE_def flag_set_def fc_vals)
  show ?thesis
    using t len header24_seqno [OF a, of fc dur sq rest]
    by (simp add: parse_first_def parse_mgmt_header_def Let_def)
qed

lemma parse_body_beacon:
  assumes "wlan_type p = WLAN_FRAME_BEACON \<or> wlan_type p = WLAN_FRAME_PROBE_RESP"
  shows "parse_body buf len fc h p = map_option (\<lambda>p. (h, p)) (parse_beacon buf len (hdrlen h) p)"
proof -
  have "wlan_type p \<notin> {WLAN_FRAME_QDATA, WLAN_FRAME_RTS, WLAN_FRAME_CTS, WLAN_FRAME_ACK, WLAN_FRAME_PSPOLL,
      WLAN_FRAME_CF_END, WLAN_FRAME_CF_END_ACK, WLAN_FRAME_BLKACK, WLAN_FRAME_BLKACK_REQ}"
    using assms by (auto simp: fc_vals)
  with assms show ?thesis
    by (cases "parse_beacon buf len (hdrlen h) p") (simp_all add: parse_body_def)
qed

lemma parse_beacon_fields:
  assumes a: "length a1 = 6" "length a2 = 6" "length a3 = 6"
    and wf: "\<forall>ie \<in> set ies. ie_wf ie" "ies \<noteq> [] \<longrightarrow> snd (last ies) \<noteq> []"
    and len: "len = 36 + length (concat (map ie_enc ies)) + 4"
    and eff: "foldM ie_effect ies (p\<lparr>wlan_tsf := tsf, wlan_bintval := ucast bi\<rparr>) = Some p1"
  shows "parse_beacon (header24 fc dur a1 a2 a3 sq @ (le64_enc tsf @ le16_enc bi @ le16_enc cap) @
      concat (map ie_enc ies) @ rest) len 24 p =
    Some (let p2 = (if flag_set cap WLAN_CAPAB_IBSS then p1\<lparr>wlan_mode := WLAN_MODE_IBSS\<rparr>
              else if flag_set cap WLAN_CAPAB_ESS then p1\<lparr>wlan_mode := WLAN_MODE_AP\<rparr> else p1) in
          if flag_set cap WLAN_CAPAB_PRIVACY then p2\<lparr>wlan_wep := True\<rparr> else p2)"
proof -
  let ?h = "header24 fc dur a1 a2 a3 sq"
  let ?e = "concat (map ie_enc ies)"
  let ?buf = "?h @ (le64_enc tsf @ le16_enc bi @ le16_enc cap) @ ?e @ rest"
  have h: "length ?h = 24" using a by simp
  have r: "rd64 ?buf 24 = Some tsf" "rd16 ?buf (24 + 8) = Some bi" "rd16 ?buf (24 + 10) = Some cap"
    using rd64_exact [OF h, of tsf "le16_enc bi @ le16_enc cap @ ?e @ rest"]
      rd16_exact [of "?h @ le64_enc tsf" 32 bi "le16_enc cap @ ?e @ rest"]
      rd16_exact [of "?h @ le64_enc tsf @ le16_enc bi" 34 cap "?e @ rest"] h by simp_all
  have d: "drop (24 + 12) ?buf = ?e @ rest" using h by simp
  have l: "int len - int 24 - 12 - 4 = int (length ?e)" using len by simp
  have ies: "uwifi_parse_information_elements (drop (24 + 12) ?buf) (int len - int 24 - 12 - 4)
      (p\<lparr>wlan_tsf := tsf, wlan_bintval := ucast bi\<rparr>) = Some p1"
    unfolding d l uwifi_parse_information_elements_def using parse_ies_seq [OF wf, of "[]"] eff by simp
  show ?thesis unfolding parse_beacon_def by (simp only: r ies bind.bind_lunit Let_def)
qed


text \<open>C4: A beacon or probe response that \<open>uwifi_create_beacon_probe_response\<close>
  builds, received with a checksum of four bytes, is parsed to what it was built from: the
  addresses, the ESSID (at most 32 bytes), the timestamp, the low 16 bits of the beacon
  interval, the low 8 bits of the channel, and the low 12 bits of the sequence number; the
  mode is that of an access point.\<close>

theorem beacon_roundtrip:
  assumes len: "length sa = 6" "length da = 6" "length bssid = 6" "length essid \<le> 32" "length fcs = 4"
    and made: "uwifi_create_beacon_probe_response buf pr sa da bssid essid tsf chan bintval seqno = Some (n, frame)"
  shows "\<exists>p'. uwifi_parse_80211_header (take (nat n) frame @ fcs @ rest) (nat n + 4) p = Some (0, p') \<and>
    wlan_type p' = (if pr then WLAN_FRAME_PROBE_RESP else WLAN_FRAME_BEACON) \<and>
    wlan_ta p' = sa \<and> wlan_ra p' = (if pr then da else replicate 6 0xff) \<and> wlan_bssid p' = bssid \<and>
    wlan_essid p' = essid @ 0 # drop (Suc (length essid)) (wlan_essid p) \<and>
    wlan_tsf p' = tsf \<and> wlan_bintval p' = ucast (word_of_int bintval :: u16) \<and>
    wlan_channel p' = word_of_int chan \<and> wlan_seqno p' = ucast (seqno AND 0xFFF) \<and> wlan_mode p' = WLAN_MODE_AP"
proof -
  let ?fc = "if pr then WLAN_FRAME_PROBE_RESP else WLAN_FRAME_BEACON"
  let ?a1 = "if pr then da else replicate 6 0xff"
  let ?h = "header24 ?fc 0 ?a1 sa bssid (push_bit 4 seqno)"
  let ?b = "le64_enc tsf @ le16_enc (word_of_int bintval) @ le16_enc WLAN_CAPAB_ESS"
  let ?e = "concat (map ie_enc (beacon_ies essid chan))"
  have e: "?e = [WLAN_IE_ID_SSID, word_of_nat (length essid)] @ essid @ [1, 8] @ supprates @
      [WLAN_IE_ID_DSSS_PARAM, 1, word_of_int chan]"
    by (simp add: beacon_ies_def ie_enc_def supprates_def)
  have a1: "length ?a1 = 6" using len by simp
  have "put (?h @ ?b @ ?e) buf = Some frame \<and> n = 36 + int (length ?e)"
    using made len unfolding uwifi_create_beacon_probe_response_def Let_def e
    by (cases pr) (simp_all add: bind_conv)
  then have m: "put (?h @ ?b @ ?e) buf = Some frame" and n: "nat n = 36 + length ?e" by simp_all
  have "length (?h @ ?b @ ?e) = 36 + length ?e" using a1 len by simp
  with put_take [OF m] n have frame: "take (nat n) frame = ?h @ ?b @ ?e" by (simp only:)
  let ?buf = "?h @ ?b @ ?e @ fcs @ rest"
  let ?len = "36 + length ?e + 4"
  have fc: "?fc = WLAN_FRAME_BEACON \<or> ?fc = WLAN_FRAME_PROBE_RESP" by simp
  define p1 where "p1 = p\<lparr>wlan_mode := WLAN_MODE_UNKNOWN, wlan_type := ?fc, wlan_fromds := False,
      wlan_tods := False, wlan_seqno := ucast (drop_bit 4 (push_bit 4 seqno AND 0xFFF0)),
      wlan_len := word_of_nat ?len\<rparr>"
  define p2 where "p2 = set_essid essid (p1\<lparr>wlan_tsf := tsf, wlan_bintval := ucast (word_of_int bintval :: u16)\<rparr>)
      \<lparr>wlan_channel := word_of_int chan, wlan_mode := WLAN_MODE_AP\<rparr>"
  have wf: "\<forall>ie \<in> set (beacon_ies essid chan). ie_wf ie"
    "beacon_ies essid chan \<noteq> [] \<longrightarrow> snd (last (beacon_ies essid chan)) \<noteq> []"
    using len by (simp_all add: beacon_ies_def ie_wf_def supprates_def)
  have caps: "flag_set WLAN_CAPAB_ESS WLAN_CAPAB_ESS" "\<not> flag_set WLAN_CAPAB_ESS WLAN_CAPAB_IBSS"
    "\<not> flag_set WLAN_CAPAB_ESS WLAN_CAPAB_PRIVACY"
    by (simp_all add: flag_set_def WLAN_CAPAB_ESS_def WLAN_CAPAB_IBSS_def WLAN_CAPAB_PRIVACY_def)
  have beacon: "parse_beacon ?buf ?len 24 p1 = Some p2"
    using parse_beacon_fields [OF a1 len(1,3) wf refl beacon_ies_effect [OF len(4)],
        where fc = ?fc and dur = 0 and sq = "push_bit 4 seqno" and cap = WLAN_CAPAB_ESS and
          rest = "fcs @ rest" and p = p1 and tsf = tsf and bi = "word_of_int bintval"] caps
    by (simp add: p2_def Let_def)
  have type: "wlan_type p1 = ?fc" "wlan_type p2 = ?fc" by (simp_all add: p1_def p2_def set_essid_def)
  let ?hi = "\<lparr>hdrlen = 24, hi_ra = Some off_addr1, hi_ta = Some off_addr2, hi_bssid = Some off_addr3\<rparr>"
  have h24: "hdrlen ?hi = 24" by simp
  have body: "parse_body ?buf ?len ?fc ?hi p1 = Some (?hi, p2)"
    unfolding parse_body_beacon [OF fc [folded type(1)], of ?buf ?len ?fc ?hi] h24 beacon by simp
  have first: "parse_first ?buf ?len ?fc p = Some (Inr
    (\<lparr>hdrlen = 24, hi_ra = Some off_addr1, hi_ta = Some off_addr2, hi_bssid = Some off_addr3\<rparr>,
     p\<lparr>wlan_mode := WLAN_MODE_UNKNOWN, wlan_type := ?fc, wlan_fromds := False, wlan_tods := False,
       wlan_seqno := ucast (drop_bit 4 (push_bit 4 seqno AND 0xFFF0))\<rparr>))"
    by (rule parse_first_mgmt [OF a1 len(1,3) _ fc]) simp
  have nd: "\<not> WLAN_FRAME_IS_DATA ?fc"
    by (simp add: WLAN_FRAME_IS_DATA_def WLAN_FRAME_TYPE_def fc_vals)
  define B where "B = ?buf"
  define L where "L = ?len"
  have L10: "\<not> L < 10" by (simp add: L_def)
  note reads = header24_reads [OF a1 len(1,3), of ?fc 0 "push_bit 4 seqno" "?b @ ?e @ fcs @ rest", folded B_def]
  note facts = first [folded B_def L_def] body [folded B_def L_def, unfolded p1_def, folded L_def]
  have "uwifi_parse_80211_header B L p = Some (0, p2\<lparr>wlan_ta := sa, wlan_ra := ?a1, wlan_bssid := bssid\<rparr>)"
    using L10 reads facts type(2) nd
    by (simp add: uwifi_parse_80211_header_def parse_rest_def copy_addr_def del: if_split)
  moreover have "take (nat n) frame @ fcs @ rest = B" unfolding B_def frame by simp
  moreover have "nat n + 4 = L" unfolding L_def n by simp
  ultimately show ?thesis
    using type by (intro exI [of _ "p2\<lparr>wlan_ta := sa, wlan_ra := ?a1, wlan_bssid := bssid\<rparr>"])
      (simp add: p2_def p1_def [unfolded seqno_shift] set_essid_def del: if_split)
qed


lemma beacon_roundtrip_witness:
  "\<exists>n frame p'. uwifi_create_beacon_probe_response (replicate 100 0) False [2, 0, 0, 0, 0, 1] (replicate 6 7)
      [2, 0, 0, 0, 0, 1] [116, 101, 115, 116] 77 6 100 5 = Some (n, frame) \<and>
    uwifi_parse_80211_header (take (nat n) frame @ [1, 2, 3, 4] @ []) (nat n + 4) zero_packet = Some (0, p') \<and>
    wlan_ta p' = [2, 0, 0, 0, 0, 1] \<and> wlan_channel p' = 6"
proof -
  have "\<exists>n frame. uwifi_create_beacon_probe_response (replicate 100 0) False [2, 0, 0, 0, 0, 1] (replicate 6 7)
      [2, 0, 0, 0, 0, 1] [116, 101, 115, 116] 77 6 100 5 = Some (n, frame)"
    by (simp add: uwifi_create_beacon_probe_response_def put_def header24_def Let_def supprates_def)
  then obtain n frame where c: "uwifi_create_beacon_probe_response (replicate 100 0) False [2, 0, 0, 0, 0, 1]
      (replicate 6 7) [2, 0, 0, 0, 0, 1] [116, 101, 115, 116] 77 6 100 5 = Some (n, frame)" by blast
  from beacon_roundtrip [OF _ _ _ _ _ c, of "[1, 2, 3, 4]" "[]" zero_packet] obtain p' where
    "uwifi_parse_80211_header (take (nat n) frame @ [1, 2, 3, 4] @ []) (nat n + 4) zero_packet = Some (0, p')"
    "wlan_ta p' = [2, 0, 0, 0, 0, 1]" "wlan_channel p' = word_of_int 6" by auto
  with c show ?thesis by auto
qed

subsection \<open>Data frames\<close>

text \<open>Mode, receiver, transmitter and BSSID by the two direction bits.\<close>

definition data_roles :: "u16 \<Rightarrow> bytes \<Rightarrow> bytes \<Rightarrow> bytes \<Rightarrow> bytes \<Rightarrow> u32 \<times> bytes \<times> bytes \<times> bytes" where
  "data_roles fc a1 a2 a3 old =
    (case (flag_set fc WLAN_FRAME_FC_TO_DS, flag_set fc WLAN_FRAME_FC_FROM_DS) of
       (False, False) \<Rightarrow> (WLAN_MODE_IBSS, a1, a2, a3)
     | (False, True) \<Rightarrow> (WLAN_MODE_AP, a1, a2, a2)
     | (True, False) \<Rightarrow> (WLAN_MODE_STA, a1, a2, a1)
     | (True, True) \<Rightarrow> (WLAN_MODE_4ADDR, a1, a2, old))"

lemma parse_body_plain_data:
  assumes "wlan_type p = WLAN_FRAME_DATA \<or> wlan_type p = WLAN_FRAME_NULL"
  shows "parse_body buf len fc h p = Some (h, p)"
proof -
  have "wlan_type p \<notin> {WLAN_FRAME_QDATA, WLAN_FRAME_RTS, WLAN_FRAME_CTS, WLAN_FRAME_ACK, WLAN_FRAME_PSPOLL,
      WLAN_FRAME_CF_END, WLAN_FRAME_CF_END_ACK, WLAN_FRAME_BLKACK, WLAN_FRAME_BLKACK_REQ, WLAN_FRAME_BEACON,
      WLAN_FRAME_PROBE_RESP, WLAN_FRAME_PROBE_REQ, WLAN_FRAME_AUTH}"
    using assms by (auto simp: fc_vals)
  then show ?thesis by (simp add: parse_body_def)
qed

lemma parse_plain_data:
  assumes a: "length a1 = 6" "length a2 = 6" "length a3 = 6"
    and fc: "fc AND WLAN_FRAME_FC_MASK = WLAN_FRAME_DATA \<or> fc AND WLAN_FRAME_FC_MASK = WLAN_FRAME_NULL"
    and len: "(if flag_set fc WLAN_FRAME_FC_FROM_DS \<and> flag_set fc WLAN_FRAME_FC_TO_DS then 30 else 24) \<le> len"
    and roles: "data_roles fc a1 a2 a3 (wlan_bssid p) = (mode, ra, ta, bssid)"
  shows "\<exists>p'. uwifi_parse_80211_header (header24 fc dur a1 a2 a3 sq @ rest) len p =
      Some (if wlan_wep p' then 0
            else if flag_set fc WLAN_FRAME_FC_FROM_DS \<and> flag_set fc WLAN_FRAME_FC_TO_DS then 30 else 24, p') \<and>
    wlan_type p' = fc AND WLAN_FRAME_FC_MASK \<and> wlan_mode p' = mode \<and> wlan_ra p' = ra \<and> wlan_ta p' = ta \<and>
    wlan_bssid p' = bssid \<and> wlan_nav p' = ucast dur \<and> wlan_seqno p' = ucast (drop_bit 4 (sq AND 0xFFF0)) \<and>
    wlan_wep p' = (wlan_wep p \<or> flag_set fc WLAN_FRAME_FC_PROTECTED) \<and>
    wlan_retry p' = (wlan_retry p \<or> flag_set fc WLAN_FRAME_FC_RETRY) \<and> wlan_len p' = word_of_nat len"
proof -
  define B where "B = header24 fc dur a1 a2 a3 sq @ rest"
  note reads = header24_reads [OF a, of fc dur sq rest, folded B_def]
    header24_seqno [OF a, of fc dur sq rest, folded B_def]
  have cls: "WLAN_FRAME_IS_DATA fc" "\<not> WLAN_FRAME_IS_QOS fc"
  proof -
    have "WLAN_FRAME_IS_DATA WLAN_FRAME_DATA \<and> \<not> WLAN_FRAME_IS_QOS WLAN_FRAME_DATA"
      "WLAN_FRAME_IS_DATA WLAN_FRAME_NULL \<and> \<not> WLAN_FRAME_IS_QOS WLAN_FRAME_NULL"
      by (simp_all add: WLAN_FRAME_IS_DATA_def WLAN_FRAME_TYPE_def WLAN_FRAME_IS_QOS_def fc_vals)
    with fc show "WLAN_FRAME_IS_DATA fc" "\<not> WLAN_FRAME_IS_QOS fc"
      unfolding fc_class_of(1) [of fc] fc_qos_of [of fc] by (elim disjE; simp)+
  qed
  have L10: "\<not> len < 10" using len by (auto split: if_splits)
  have h: "\<not> len < data_hdrlen fc" "data_hdrlen fc =
      (if flag_set fc WLAN_FRAME_FC_FROM_DS \<and> flag_set fc WLAN_FRAME_FC_TO_DS then 30 else 24)"
    using len cls by (auto simp: data_hdrlen_def split: if_splits)
  obtain ora ota obs where da: "data_addresses B fc = Some (mode, ora, ota, obs)"
    "copy_addr B ora old1 = Some ra" "copy_addr B ota old2 = Some ta"
    "copy_addr B obs (wlan_bssid p) = Some bssid" for old1 old2
    using roles reads cls
    by (cases "flag_set fc WLAN_FRAME_FC_FROM_DS"; cases "flag_set fc WLAN_FRAME_FC_TO_DS")
      (simp_all add: data_addresses_def data_roles_def copy_addr_def Let_def)
  define p1 where "p1 = p\<lparr>wlan_mode := mode, wlan_type := fc AND WLAN_FRAME_FC_MASK,
      wlan_fromds := flag_set fc WLAN_FRAME_FC_FROM_DS, wlan_tods := flag_set fc WLAN_FRAME_FC_TO_DS,
      wlan_nav := ucast dur, wlan_seqno := ucast (drop_bit 4 (sq AND 0xFFF0)),
      wlan_wep := wlan_wep p \<or> flag_set fc WLAN_FRAME_FC_PROTECTED,
      wlan_retry := wlan_retry p \<or> flag_set fc WLAN_FRAME_FC_RETRY\<rparr>"
  have first: "parse_first B len fc p = Some (Inr (\<lparr>hdrlen = data_hdrlen fc, hi_ra = ora, hi_ta = ota, hi_bssid = obs\<rparr>, p1))"
    using cls h(1) da(1) reads
    by (simp add: parse_first_def parse_data_header_def p1_def Let_def)
  have t: "wlan_type p1 = fc AND WLAN_FRAME_FC_MASK" by (simp add: p1_def)
  have body: "parse_body B len fc hh (p1\<lparr>wlan_len := word_of_nat len\<rparr>) = Some (hh, p1\<lparr>wlan_len := word_of_nat len\<rparr>)" for hh
    using fc t by (intro parse_body_plain_data) simp
  have dat: "WLAN_FRAME_IS_DATA (fc AND WLAN_FRAME_FC_MASK)" using cls fc_class_of(1) [of fc] by simp
  have bs: "wlan_bssid p1 = wlan_bssid p" by (simp add: p1_def)
  have "uwifi_parse_80211_header B len p = Some (if wlan_wep p1 then 0 else int (data_hdrlen fc),
      p1\<lparr>wlan_len := word_of_nat len, wlan_ta := ta, wlan_ra := ra, wlan_bssid := bssid\<rparr>)"
    using reads(1) L10 first body da(2,3,4) bs dat t
    by (simp add: uwifi_parse_80211_header_def parse_rest_def)
  then show ?thesis
    unfolding B_def [symmetric] h(2)
    by (intro exI [of _ "p1\<lparr>wlan_len := word_of_nat len, wlan_ta := ta, wlan_ra := ra, wlan_bssid := bssid\<rparr>"])
      (simp add: p1_def)
qed


text \<open>C23: For an unencrypted or encrypted data or null frame without QoS
  the parser assigns the three addresses to receiver, transmitter and BSSID, and the mode,
  by the direction bits; it stores duration, sequence number and flags, and returns the
  header length, 30 with four addresses and 24 otherwise, or 0 for a protected frame.\<close>

theorem data_frame_addresses:
  assumes "length a1 = 6" "length a2 = 6" "length a3 = 6"
    and "fc AND WLAN_FRAME_FC_MASK = WLAN_FRAME_DATA \<or> fc AND WLAN_FRAME_FC_MASK = WLAN_FRAME_NULL"
    and "30 \<le> len" and "\<not> wlan_wep p"
  shows "\<exists>p'. uwifi_parse_80211_header (header24 fc dur a1 a2 a3 sq @ rest) len p =
      Some (if flag_set fc WLAN_FRAME_FC_PROTECTED then 0
            else if flag_set fc WLAN_FRAME_FC_FROM_DS \<and> flag_set fc WLAN_FRAME_FC_TO_DS then 30 else 24, p') \<and>
    (wlan_mode p', wlan_ra p', wlan_ta p', wlan_bssid p') = data_roles fc a1 a2 a3 (wlan_bssid p) \<and>
    wlan_type p' = fc AND WLAN_FRAME_FC_MASK \<and> wlan_nav p' = ucast dur \<and>
    wlan_seqno p' = ucast (drop_bit 4 (sq AND 0xFFF0)) \<and> wlan_len p' = word_of_nat len \<and>
    wlan_wep p' = flag_set fc WLAN_FRAME_FC_PROTECTED"
proof -
  obtain m ra ta bs where r: "data_roles fc a1 a2 a3 (wlan_bssid p) = (m, ra, ta, bs)" by (metis prod_cases4)
  have l: "(if flag_set fc WLAN_FRAME_FC_FROM_DS \<and> flag_set fc WLAN_FRAME_FC_TO_DS then 30 else 24) \<le> len"
    using assms(5) by simp
  from parse_plain_data [OF assms(1-4) l r, of dur sq rest] assms(6) r show ?thesis by auto
qed

lemma data_frame_addresses_witness:
  "\<exists>p'. uwifi_parse_80211_header (header24 0x0208 44 (replicate 6 1) (replicate 6 2) (replicate 6 3) 0x50 @
      replicate 20 0) 40 zero_packet = Some (24, p') \<and> wlan_mode p' = WLAN_MODE_AP \<and> wlan_bssid p' = replicate 6 2"
  using data_frame_addresses [of "replicate 6 1" "replicate 6 2" "replicate 6 3" "0x0208" 40 zero_packet 44 "0x50"
      "replicate 20 0"]
  by (auto simp: fc_vals flag_set_def data_roles_def zero_packet_def)

text \<open>C27: A null data frame that \<open>uwifi_create_nulldata\<close> builds is parsed
  to its addresses with the mode of a station.  The function returns a length of 36 bytes,
  of which the last 12 are whatever the buffer held.\<close>

theorem nulldata_roundtrip:
  assumes len: "length sa = 6" "length da = 6" "length bssid = 6" and wep: "\<not> wlan_wep p"
    and made: "uwifi_create_nulldata buf sa da bssid sq = Some (n, frame)"
  shows "n = 36 \<and> drop 24 frame = drop 24 buf \<and>
    (\<exists>p'. uwifi_parse_80211_header frame 36 p = Some (24, p') \<and> wlan_type p' = WLAN_FRAME_NULL \<and>
      wlan_mode p' = WLAN_MODE_STA \<and> wlan_ra p' = bssid \<and> wlan_ta p' = sa \<and> wlan_bssid p' = bssid \<and>
      wlan_seqno p' = ucast (sq AND 0xFFF))"
proof -
  let ?fc = "WLAN_FRAME_NULL OR WLAN_FRAME_FC_TO_DS"
  let ?h = "header24 ?fc 0 bssid sa da (push_bit 4 sq)"
  have m: "n = 36" "frame = ?h @ drop 24 buf"
    using made len by (auto simp: uwifi_create_nulldata_def put_def sizeof_wlan_frame_def split: if_splits)
  have fc: "?fc AND WLAN_FRAME_FC_MASK = WLAN_FRAME_NULL" "\<not> flag_set ?fc WLAN_FRAME_FC_FROM_DS"
    "flag_set ?fc WLAN_FRAME_FC_TO_DS" "\<not> flag_set ?fc WLAN_FRAME_FC_PROTECTED"
    by (simp_all add: fc_vals flag_set_def)
  have roles: "data_roles ?fc bssid sa da (wlan_bssid p) = (WLAN_MODE_STA, bssid, sa, bssid)"
    using fc by (simp add: data_roles_def)
  have l: "(if flag_set ?fc WLAN_FRAME_FC_FROM_DS \<and> flag_set ?fc WLAN_FRAME_FC_TO_DS then 30 else 24) \<le> (36 :: nat)"
    by simp
  have "\<exists>p'. uwifi_parse_80211_header frame 36 p = Some (24, p') \<and> wlan_type p' = WLAN_FRAME_NULL \<and>
      wlan_mode p' = WLAN_MODE_STA \<and> wlan_ra p' = bssid \<and> wlan_ta p' = sa \<and> wlan_bssid p' = bssid \<and>
      wlan_seqno p' = ucast (sq AND 0xFFF)"
    using parse_plain_data [OF len(3,1,2) disjI2 [OF fc(1)] l roles, of 0 "push_bit 4 sq" "drop 24 buf"] wep fc
    unfolding m(2) seqno_shift by auto
  then show ?thesis using m len by simp
qed

lemma nulldata_roundtrip_witness:
  "\<exists>n frame. uwifi_create_nulldata (replicate 40 9) (replicate 6 1) (replicate 6 2) (replicate 6 3) 5 = Some (n, frame) \<and>
    n = 36 \<and> (\<exists>p'. uwifi_parse_80211_header frame 36 zero_packet = Some (24, p') \<and> wlan_ta p' = replicate 6 1)"
proof -
  have "\<exists>n frame. uwifi_create_nulldata (replicate 40 9) (replicate 6 1) (replicate 6 2) (replicate 6 3) 5 = Some (n, frame)"
    by (simp add: uwifi_create_nulldata_def put_def)
  then obtain n frame where c: "uwifi_create_nulldata (replicate 40 9) (replicate 6 1) (replicate 6 2)
      (replicate 6 3) 5 = Some (n, frame)" by blast
  from nulldata_roundtrip [OF _ _ _ _ c, of zero_packet] c show ?thesis
    by (auto simp: zero_packet_def)
qed

end
