(* ===== verification/Node_Heap.thy ===== *)
theory Node_Heap
  imports List_Families Average Wlan_Util
begin

text \<open>
  The memory of the node and ESSID tables: the structures of \<open>include/uwifi/node.h\<close> and
  \<open>include/uwifi/essid.h\<close>.  The nodes and the ESSIDs point to each other and are members of
  several intrusive lists at once, so they live in one explicit heap.  An object is named by
  a number, a pointer to an object is an \<open>option\<close> of it, and a list node that is embedded in an
  object has the address \<open>NList i\<close>, \<open>NEssid i\<close>, \<open>NApList i\<close> (fields \<open>list\<close>, \<open>essid_nodes\<close>,
  \<open>ap_list\<close> of node \<open>i\<close>) or \<open>EList e\<close> (field \<open>list\<close> of ESSID \<open>e\<close>); an embedded list head is
  \<open>NOnChan i\<close>, \<open>NApNodes i\<close> or \<open>ENodes e\<close>, and a list head outside both kinds of objects is
  \<open>List_Head k\<close>.  \<open>container_of\<close> is the inverse of these constructors.

  Freed memory is not in the heap any more: an access through a dangling pointer is \<open>None\<close>.
  What \<open>malloc\<close> returns is an argument of the operations that call it.
\<close>

subsection \<open>Addresses\<close>

datatype addr =
    List_Head nat
  | NList nat
  | NEssid nat
  | NOnChan nat
  | NApNodes nat
  | NApList nat
  | EList nat
  | ENodes nat

fun list_node :: "addr \<Rightarrow> nat option" where
  "list_node (NList i) = Some i"
| "list_node _ = None"

fun essid_node :: "addr \<Rightarrow> nat option" where
  "essid_node (NEssid i) = Some i"
| "essid_node _ = None"

fun ap_list_node :: "addr \<Rightarrow> nat option" where
  "ap_list_node (NApList i) = Some i"
| "ap_list_node _ = None"

fun list_essid :: "addr \<Rightarrow> nat option" where
  "list_essid (EList e) = Some e"
| "list_essid _ = None"

subsection \<open>Objects\<close>

text \<open>
  The fields of \<open>struct uwifi_node\<close> have the prefix \<open>n_\<close>, those of \<open>struct essid_info\<close> the
  prefix \<open>e_\<close>; the embedded list nodes and heads are in the store of links.
\<close>

record uwifi_node =
  n_ap_node :: "nat option"
  n_num_on_channels :: u32
  n_last_seen :: u32
  n_pkt_types :: u32
  n_pkt_count :: u32
  n_rx_pkt_count :: u32
  n_rx_only :: int
  n_phy_rate_last :: u32
  n_phy_sig_last :: int
  n_phy_sig_max :: int
  n_phy_sig_avg :: ewma
  n_phy_sig_sum :: u64
  n_phy_sig_count :: int
  n_wlan_src :: bytes
  n_wlan_bssid :: bytes
  n_wlan_channel :: u32
  n_wlan_mode :: u32
  n_wlan_tsf :: u64
  n_wlan_bintval :: u32
  n_wlan_retries_all :: u32
  n_wlan_retries_last :: u32
  n_wlan_seqno :: u32
  n_essid :: "nat option"
  n_wlan_chan_width :: uwifi_chan_width
  n_wlan_tx_streams :: u8
  n_wlan_rx_streams :: u8
  n_wlan_std :: uwifi_80211_std
  n_wlan_wep :: bool
  n_wlan_wpa :: bool
  n_wlan_rsn :: bool
  n_wlan_ht40plus :: bool
  n_bat_gw :: bool
  n_ip_src :: u32
  n_olsr_count :: u32
  n_olsr_neigh :: u32
  n_olsr_tc :: u32

record essid_info =
  e_essid :: bytes
  e_num_nodes :: u32
  e_split :: int

record wheap =
  links :: "addr store"
  node_at :: "nat \<rightharpoonup> uwifi_node"
  essid_at :: "nat \<rightharpoonup> essid_info"

text \<open>Objects filled with zero bytes.\<close>

definition zero_node :: uwifi_node where
  "zero_node = \<lparr>n_ap_node = None, n_num_on_channels = 0, n_last_seen = 0, n_pkt_types = 0,
     n_pkt_count = 0, n_rx_pkt_count = 0, n_rx_only = 0, n_phy_rate_last = 0, n_phy_sig_last = 0,
     n_phy_sig_max = 0, n_phy_sig_avg = \<lparr>internal = 0, factor = 0, weight = 0\<rparr>, n_phy_sig_sum = 0,
     n_phy_sig_count = 0, n_wlan_src = replicate 6 0, n_wlan_bssid = replicate 6 0,
     n_wlan_channel = 0, n_wlan_mode = 0, n_wlan_tsf = 0, n_wlan_bintval = 0, n_wlan_retries_all = 0,
     n_wlan_retries_last = 0, n_wlan_seqno = 0, n_essid = None, n_wlan_chan_width = CHAN_WIDTH_UNSPEC,
     n_wlan_tx_streams = 0, n_wlan_rx_streams = 0, n_wlan_std = IEEE80211_UNKNOWN, n_wlan_wep = False,
     n_wlan_wpa = False, n_wlan_rsn = False, n_wlan_ht40plus = False, n_bat_gw = False, n_ip_src = 0,
     n_olsr_count = 0, n_olsr_neigh = 0, n_olsr_tc = 0\<rparr>"

definition zero_essid :: essid_info where
  "zero_essid = \<lparr>e_essid = replicate WLAN_MAX_SSID_LEN 0, e_num_nodes = 0, e_split = 0\<rparr>"

definition null_link :: "addr cc_list_node" where
  "null_link = \<lparr>nxt = None, prv = None\<rparr>"

subsection \<open>Memory operations\<close>

definition upd_node :: "nat \<Rightarrow> (uwifi_node \<Rightarrow> uwifi_node) \<Rightarrow> wheap \<Rightarrow> wheap option" where
  "upd_node i f h = do { n \<leftarrow> node_at h i; Some (h\<lparr>node_at := (node_at h)(i \<mapsto> f n)\<rparr>) }"

definition upd_essid :: "nat \<Rightarrow> (essid_info \<Rightarrow> essid_info) \<Rightarrow> wheap \<Rightarrow> wheap option" where
  "upd_essid e f h = do { x \<leftarrow> essid_at h e; Some (h\<lparr>essid_at := (essid_at h)(e \<mapsto> f x)\<rparr>) }"

text \<open>An operation on the links.\<close>

definition on_links :: "(addr store \<Rightarrow> addr store option) \<Rightarrow> wheap \<Rightarrow> wheap option" where
  "on_links f h = do { s \<leftarrow> f (links h); Some (h\<lparr>links := s\<rparr>) }"

text \<open>\<open>malloc\<close> and \<open>memset\<close> with zero; when \<open>malloc\<close> fails the \<open>memset\<close> goes through NULL.\<close>

definition node_cells :: "nat \<Rightarrow> addr set" where
  "node_cells i = {NList i, NEssid i, NOnChan i, NApNodes i, NApList i}"

definition essid_cells :: "nat \<Rightarrow> addr set" where
  "essid_cells e = {EList e, ENodes e}"

definition malloc_node :: "nat option \<Rightarrow> wheap \<Rightarrow> (nat \<times> wheap) option" where
  "malloc_node m h = do {
     i \<leftarrow> m;
     Some (i, h\<lparr>links := (\<lambda>a. if a \<in> node_cells i then Some null_link else links h a),
                node_at := (node_at h)(i \<mapsto> zero_node)\<rparr>) }"

definition malloc_essid :: "nat option \<Rightarrow> wheap \<Rightarrow> (nat \<times> wheap) option" where
  "malloc_essid m h = do {
     e \<leftarrow> m;
     Some (e, h\<lparr>links := (\<lambda>a. if a \<in> essid_cells e then Some null_link else links h a),
                essid_at := (essid_at h)(e \<mapsto> zero_essid)\<rparr>) }"

definition free_node :: "nat \<Rightarrow> wheap \<Rightarrow> wheap option" where
  "free_node i h = do {
     n \<leftarrow> node_at h i;
     Some (h\<lparr>links := (\<lambda>a. if a \<in> node_cells i then None else links h a),
             node_at := (node_at h)(i := None)\<rparr>) }"

definition free_essid :: "nat \<Rightarrow> wheap \<Rightarrow> wheap option" where
  "free_essid e h = do {
     x \<leftarrow> essid_at h e;
     Some (h\<lparr>links := (\<lambda>a. if a \<in> essid_cells e then None else links h a),
             essid_at := (essid_at h)(e := None)\<rparr>) }"

end
