(* ===== verification/Essid.thy ===== *)
theory Essid
  imports Node_Heap
begin

text \<open>
  \<open>core/essid.c\<close>: the table of network names.  An ESSID holds the list of the nodes that
  announce it and a mark whether it is split, that is, whether nodes that are not access
  points use it with different BSSIDs.
\<close>

subsection \<open>The operations\<close>

text \<open>
  The loop of \<open>update_essid_split_status\<close>: \<open>last_bssid\<close> is a pointer to the BSSID of the last
  node that counted, here its value, which nothing changes during the loop.
\<close>

definition split_step :: "uwifi_node \<Rightarrow> bytes option \<times> int \<Rightarrow> bytes option \<times> int" where
  "split_step n st = (case st of (last_bssid, split) \<Rightarrow>
     if flag_set (n_wlan_mode n) WLAN_MODE_AP \<or> flag_set (n_wlan_mode n) WLAN_MODE_PROBE then st
     else (Some (n_wlan_bssid n),
           if last_bssid \<noteq> None \<and> last_bssid \<noteq> Some (n_wlan_bssid n) then 1 else split))"

definition update_essid_split_status :: "nat \<Rightarrow> wheap \<Rightarrow> wheap option" where
  "update_essid_split_status e h = do {
     h \<leftarrow> upd_essid e (\<lambda>x. x\<lparr>e_split := 0\<rparr>) h;
     x \<leftarrow> essid_at h e;
     if e_num_nodes x \<le> 1 then Some h
     else do {
       (last_bssid, split) \<leftarrow> cc_list_for_each (links h)
         (\<lambda>a st. do { i \<leftarrow> essid_node a; n \<leftarrow> node_at h i; Some (split_step n st) })
         (ENodes e) (None, 0);
       upd_essid e (\<lambda>x. x\<lparr>e_split := split\<rparr>) h } }"

definition uwifi_essids_remove_node :: "nat \<Rightarrow> wheap \<Rightarrow> wheap option" where
  "uwifi_essids_remove_node i h = do {
     n \<leftarrow> node_at h i;
     case n_essid n of
       None \<Rightarrow> Some h
     | Some e \<Rightarrow> do {
         h \<leftarrow> on_links (\<lambda>s. cc_list_del_from s (ENodes e) (NEssid i)) h;
         h \<leftarrow> upd_node i (\<lambda>n. n\<lparr>n_essid := None\<rparr>) h;
         h \<leftarrow> upd_essid e (\<lambda>x. x\<lparr>e_num_nodes := e_num_nodes x - 1\<rparr>) h;
         x \<leftarrow> essid_at h e;
         if e_num_nodes x = 0 then do {
           h \<leftarrow> on_links (\<lambda>s. cc_list_del s (EList e)) h;
           free_essid e h }
         else update_essid_split_status e h } }"

definition new_essid :: "nat option \<Rightarrow> bytes \<Rightarrow> addr \<Rightarrow> wheap \<Rightarrow> (nat \<times> wheap) option" where
  "new_essid m name E h = do {
     (e, h) \<leftarrow> malloc_essid m h;
     s \<leftarrow> strncpy WLAN_MAX_SSID_LEN name;
     h \<leftarrow> upd_essid e (\<lambda>x. x\<lparr>e_essid := s[WLAN_MAX_SSID_LEN - 1 := 0]\<rparr>) h;
     h \<leftarrow> on_links (\<lambda>s. cc_list_head_init s (ENodes e)) h;
     h \<leftarrow> on_links (\<lambda>s. cc_list_add_tail s E (EList e)) h;
     Some (e, h) }"

definition find_essid :: "bytes \<Rightarrow> addr \<Rightarrow> wheap \<Rightarrow> addr option" where
  "find_essid name E h = cc_list_find (links h)
     (\<lambda>a. do { e \<leftarrow> list_essid a; x \<leftarrow> essid_at h e; strncmp_0 WLAN_MAX_SSID_LEN (e_essid x) name }) E"

text \<open>The part of \<open>uwifi_essids_update\<close> after the ESSID has been found or added.\<close>

definition essid_enter :: "nat \<Rightarrow> nat \<Rightarrow> wheap \<Rightarrow> wheap option" where
  "essid_enter i e h = do {
     n \<leftarrow> node_at h i;
     h \<leftarrow> (if n_essid n \<noteq> None \<and> n_essid n \<noteq> Some e then uwifi_essids_remove_node i h else Some h);
     n \<leftarrow> node_at h i;
     h \<leftarrow> (if n_essid n = None then do {
              h \<leftarrow> on_links (\<lambda>s. cc_list_add_tail s (ENodes e) (NEssid i)) h;
              h \<leftarrow> upd_essid e (\<lambda>x. x\<lparr>e_num_nodes := e_num_nodes x + 1\<rparr>) h;
              upd_node i (\<lambda>n. n\<lparr>n_essid := Some e\<rparr>) h }
            else Some h);
     update_essid_split_status e h }"

definition essid_relevant :: "uwifi_packet \<Rightarrow> bool" where
  "essid_relevant p \<longleftrightarrow> wlan_type p = WLAN_FRAME_BEACON \<or> wlan_type p = WLAN_FRAME_PROBE_RESP"

definition uwifi_essids_update ::
    "nat option \<Rightarrow> addr \<Rightarrow> uwifi_packet option \<Rightarrow> nat option \<Rightarrow> wheap \<Rightarrow> wheap option" where
  "uwifi_essids_update m E pp np h =
    (case (np, pp) of
       (Some i, Some p) \<Rightarrow>
         if flag_set (phy_flags p) PHY_FLAG_BADFCS then Some h
         else do {
           c \<leftarrow> rd (wlan_essid p) 0;
           if c = 0 \<or> \<not> essid_relevant p then Some h
           else do {
             a \<leftarrow> find_essid (wlan_essid p) E h;
             (e, h) \<leftarrow> (if a = E then new_essid m (wlan_essid p) E h
                         else do { e \<leftarrow> list_essid a; Some (e, h) });
             essid_enter i e h } }
     | _ \<Rightarrow> Some h)"

definition uwifi_essids_free :: "addr \<Rightarrow> wheap \<Rightarrow> wheap option" where
  "uwifi_essids_free E h = cc_list_for_each_safe links
     (\<lambda>a h. do {
        e \<leftarrow> list_essid a;
        h \<leftarrow> on_links (\<lambda>s. cc_list_del_from s E a) h;
        free_essid e h }) E h"

end
