(* ===== verification/Node.thy ===== *)
theory Node
  imports Essid
begin

text \<open>
  \<open>core/node.c\<close>: the table of the stations that were seen, updated from the sender and the
  receiver of every packet; the relation between a station and its access point; and the
  removal of stations that have been silent.  The time that \<open>plat_time_usec\<close> returns is an
  argument.
\<close>

subsection \<open>Copying packet information into a node\<close>

text \<open>The assignments of \<open>copy_nodeinfo\<close>, in groups and in the order of the code.\<close>

definition node_common :: "u32 \<Rightarrow> uwifi_packet \<Rightarrow> uwifi_node \<Rightarrow> uwifi_node" where
  "node_common now p n =
    n\<lparr>n_wlan_src := wlan_ta p,
      n_rx_only := 0,
      n_wlan_bssid := (if MAC_NOT_EMPTY (wlan_bssid p) then wlan_bssid p else n_wlan_bssid n),
      n_last_seen := now,
      n_pkt_count := n_pkt_count n + 1,
      n_pkt_types := n_pkt_types n OR pkt_types p,
      n_ip_src := (if ip_src p \<noteq> 0 then ip_src p else n_ip_src n),
      n_wlan_mode := (if wlan_mode p \<noteq> 0 then n_wlan_mode n OR wlan_mode p else n_wlan_mode n),
      n_olsr_tc := (if olsr_tc p \<noteq> 0 then olsr_tc p else n_olsr_tc n),
      n_olsr_neigh := (if olsr_neigh p \<noteq> 0 then olsr_neigh p else n_olsr_neigh n),
      n_bat_gw := (if bat_gw p then True else n_bat_gw n),
      n_wlan_ht40plus := (if wlan_ht40plus p then True else n_wlan_ht40plus n),
      n_wlan_tx_streams := (if wlan_tx_streams p \<noteq> 0 then wlan_tx_streams p else n_wlan_tx_streams n),
      n_wlan_rx_streams := (if wlan_rx_streams p \<noteq> 0 then wlan_rx_streams p else n_wlan_rx_streams n)\<rparr>"

text \<open>
  The channel of a station that is not known from a beacon: that of its access point, and
  otherwise that of the packet if none is known yet.
\<close>

definition node_guess_channel :: "wheap \<Rightarrow> uwifi_packet \<Rightarrow> uwifi_node \<Rightarrow> uwifi_node option" where
  "node_guess_channel h p n =
    (if flag_set (n_wlan_mode n) WLAN_MODE_STA \<and> n_ap_node n \<noteq> None then do {
       j \<leftarrow> n_ap_node n;
       ap \<leftarrow> node_at h j;
       Some (n\<lparr>n_wlan_channel := n_wlan_channel ap\<rparr>) }
     else if n_wlan_channel n = 0 \<and> wlan_channel p \<noteq> 0
       then Some (n\<lparr>n_wlan_channel := ucast (wlan_channel p)\<rparr>)
     else Some n)"

definition node_channel :: "wheap \<Rightarrow> uwifi_packet \<Rightarrow> uwifi_node \<Rightarrow> uwifi_node option" where
  "node_channel h p n =
    (if wlan_type p = WLAN_FRAME_BEACON \<or> wlan_type p = WLAN_FRAME_PROBE_RESP
     then Some (n\<lparr>n_wlan_tsf := wlan_tsf p, n_wlan_bintval := wlan_bintval p, n_wlan_wpa := wlan_wpa p,
                  n_wlan_rsn := wlan_rsn p, n_wlan_channel := ucast (wlan_channel p)\<rparr>)
     else node_guess_channel h p n)"

definition node_signal :: "uwifi_packet \<Rightarrow> uwifi_node \<Rightarrow> uwifi_node" where
  "node_signal p n =
    n\<lparr>n_phy_rate_last := phy_rate p,
      n_phy_sig_last := phy_signal p,
      n_phy_sig_avg := ewma_add (n_phy_sig_avg n) (word_of_int (- phy_signal p)),
      n_phy_sig_sum := n_phy_sig_sum n + word_of_int (- phy_signal p),
      n_phy_sig_count := n_phy_sig_count n + 1,
      n_phy_sig_max := (if phy_signal p > n_phy_sig_max n \<or> n_phy_sig_max n = 0 then phy_signal p
                        else n_phy_sig_max n)\<rparr>"

definition wep_types :: "u16 list" where
  "wep_types = [WLAN_FRAME_DATA, WLAN_FRAME_QDATA, WLAN_FRAME_AUTH, WLAN_FRAME_BEACON,
     WLAN_FRAME_PROBE_RESP, WLAN_FRAME_DATA_CF_ACK, WLAN_FRAME_DATA_CF_POLL,
     WLAN_FRAME_DATA_CF_ACKPOLL, WLAN_FRAME_QDATA_CF_ACK, WLAN_FRAME_QDATA_CF_POLL,
     WLAN_FRAME_QDATA_CF_ACKPOLL]"

definition node_wep :: "uwifi_packet \<Rightarrow> uwifi_node \<Rightarrow> uwifi_node" where
  "node_wep p n = (if wlan_type p \<in> set wep_types then n\<lparr>n_wlan_wep := wlan_wep p\<rparr> else n)"

definition node_retries :: "uwifi_packet \<Rightarrow> uwifi_node \<Rightarrow> uwifi_node" where
  "node_retries p n =
    (if wlan_seqno p \<noteq> 0 then
       (if wlan_retry p \<and> wlan_seqno p = n_wlan_seqno n
        then n\<lparr>n_wlan_retries_all := n_wlan_retries_all n + 1, n_wlan_retries_last := n_wlan_retries_last n + 1\<rparr>
        else n\<lparr>n_wlan_retries_last := 0\<rparr>)\<lparr>n_wlan_seqno := wlan_seqno p\<rparr>
     else n)"

definition node_std :: "uwifi_packet \<Rightarrow> uwifi_node \<Rightarrow> uwifi_node" where
  "node_std p n =
    n\<lparr>n_wlan_chan_width := (if wlan_chan_width p > n_wlan_chan_width n then wlan_chan_width p
                            else n_wlan_chan_width n),
      n_wlan_std := max (n_wlan_std n)
        (max (max (wlan_80211std_from_chan (wlan_chan_width p) (uint (wlan_channel p)))
                  (wlan_80211std_from_rate (uint (phy_rate_idx p)) (uint (wlan_channel p))))
             (wlan_80211std_from_type (wlan_type p)))\<rparr>"

definition copy_nodeinfo :: "u32 \<Rightarrow> nat \<Rightarrow> uwifi_packet \<Rightarrow> wheap \<Rightarrow> (uwifi_packet \<times> wheap) option" where
  "copy_nodeinfo now i p h = do {
     n \<leftarrow> node_at h i;
     n \<leftarrow> node_channel h p (node_common now p n);
     let n = node_std p (node_retries p (node_wep p (node_signal p n)));
     Some (p\<lparr>wlan_retries := i32 (n_wlan_retries_last n)\<rparr>, h\<lparr>node_at := (node_at h)(i \<mapsto> n)\<rparr>) }"

definition rx_common :: "u32 \<Rightarrow> uwifi_packet \<Rightarrow> uwifi_node \<Rightarrow> uwifi_node" where
  "rx_common now p n =
    n\<lparr>n_wlan_src := wlan_ra p,
      n_wlan_bssid := (if MAC_NOT_EMPTY (wlan_bssid p) then wlan_bssid p else n_wlan_bssid n),
      n_last_seen := now,
      n_rx_pkt_count := n_rx_pkt_count n + 1,
      n_pkt_types := n_pkt_types n OR pkt_types p,
      n_wlan_mode := (if wlan_mode p = WLAN_MODE_AP then WLAN_MODE_STA
                      else if wlan_mode p = WLAN_MODE_STA then WLAN_MODE_AP
                      else if wlan_mode p = WLAN_MODE_IBSS then WLAN_MODE_IBSS
                      else n_wlan_mode n)\<rparr>"

definition copy_rx_nodeinfo :: "u32 \<Rightarrow> nat \<Rightarrow> uwifi_packet \<Rightarrow> wheap \<Rightarrow> wheap option" where
  "copy_rx_nodeinfo now i p h = do {
     n \<leftarrow> node_at h i;
     n \<leftarrow> node_guess_channel h p (rx_common now p n);
     Some (h\<lparr>node_at := (node_at h)(i \<mapsto> node_wep p n)\<rparr>) }"

subsection \<open>Finding and adding nodes\<close>

definition find_node :: "bytes \<Rightarrow> addr \<Rightarrow> wheap \<Rightarrow> addr option" where
  "find_node mac H h = cc_list_find (links h)
     (\<lambda>a. do { i \<leftarrow> list_node a; n \<leftarrow> node_at h i; Some (n_wlan_src n = mac) }) H"

definition new_node :: "nat option \<Rightarrow> addr \<Rightarrow> wheap \<Rightarrow> (nat \<times> wheap) option" where
  "new_node m H h = do {
     (i, h) \<leftarrow> malloc_node m h;
     avg \<leftarrow> ewma_init 1024 8;
     h \<leftarrow> upd_node i (\<lambda>n. n\<lparr>n_phy_sig_avg := avg\<rparr>) h;
     h \<leftarrow> on_links (\<lambda>s. cc_list_head_init s (NOnChan i)) h;
     h \<leftarrow> on_links (\<lambda>s. cc_list_head_init s (NApNodes i)) h;
     h \<leftarrow> on_links (\<lambda>s. cc_list_add_tail s H (NList i)) h;
     Some (i, h) }"

text \<open>The results: the returned pointer, the packet, which gets the retry count, and the heap.\<close>

definition uwifi_node_update ::
    "u32 \<Rightarrow> nat option \<Rightarrow> uwifi_packet \<Rightarrow> addr \<Rightarrow> wheap \<Rightarrow> (nat option \<times> uwifi_packet \<times> wheap) option" where
  "uwifi_node_update now m p H h =
    (if flag_set (phy_flags p) PHY_FLAG_BADFCS then Some (None, p, h)
     else if MAC_EMPTY (wlan_ta p) then Some (None, p, h)
     else do {
       a \<leftarrow> find_node (wlan_ta p) H h;
       (i, h) \<leftarrow> (if a = H then new_node m H h else do { i \<leftarrow> list_node a; Some (i, h) });
       (p, h) \<leftarrow> copy_nodeinfo now i p h;
       Some (Some i, p, h) })"

definition uwifi_node_update_receiver ::
    "u32 \<Rightarrow> nat option \<Rightarrow> uwifi_packet \<Rightarrow> addr \<Rightarrow> wheap \<Rightarrow> (nat option \<times> wheap) option" where
  "uwifi_node_update_receiver now m p H h =
    (if flag_set (phy_flags p) PHY_FLAG_BADFCS then Some (None, h)
     else if MAC_EMPTY (wlan_ra p) \<or> MAC_BCAST (wlan_ra p) then Some (None, h)
     else do {
       a \<leftarrow> find_node (wlan_ra p) H h;
       (i, h) \<leftarrow> (if a = H then do {
                      (i, h) \<leftarrow> new_node m H h;
                      h \<leftarrow> upd_node i (\<lambda>n. n\<lparr>n_rx_only := 1\<rparr>) h;
                      Some (i, h) }
                  else do { i \<leftarrow> list_node a; Some (i, h) });
       h \<leftarrow> copy_rx_nodeinfo now i p h;
       Some (Some i, h) })"

subsection \<open>Access points\<close>

definition leave_ap :: "nat \<Rightarrow> wheap \<Rightarrow> wheap option" where
  "leave_ap i h = do {
     n \<leftarrow> node_at h i;
     case n_ap_node n of
       None \<Rightarrow> Some h
     | Some j \<Rightarrow> do {
         ap \<leftarrow> node_at h j;
         h \<leftarrow> on_links (\<lambda>s. cc_list_del_from s (NApNodes j) (NApList i)) h;
         upd_node i (\<lambda>n. n\<lparr>n_ap_node := None\<rparr>) h } }"

text \<open>Whether the node is a station whose BSSID names another access point than it has.\<close>

definition ap_differs :: "nat \<Rightarrow> wheap \<Rightarrow> bool option" where
  "ap_differs i h = do {
     n \<leftarrow> node_at h i;
     b0 \<leftarrow> rd (n_wlan_bssid n) 0;
     if flag_set (n_wlan_mode n) WLAN_MODE_STA \<and> b0 \<noteq> 0xff \<and> MAC_NOT_EMPTY (n_wlan_bssid n)
     then (case n_ap_node n of
             None \<Rightarrow> Some True
           | Some j \<Rightarrow> do { ap \<leftarrow> node_at h j; Some (n_wlan_bssid n \<noteq> n_wlan_src ap) })
     else Some False }"

definition uwifi_nodes_find_ap :: "nat \<Rightarrow> addr \<Rightarrow> wheap \<Rightarrow> wheap option" where
  "uwifi_nodes_find_ap i H h = do {
     d \<leftarrow> ap_differs i h;
     if d then do {
       h \<leftarrow> leave_ap i h;
       n \<leftarrow> node_at h i;
       a \<leftarrow> find_node (n_wlan_bssid n) H h;
       if a = H then Some h
       else do {
         j \<leftarrow> list_node a;
         h \<leftarrow> on_links (\<lambda>s. cc_list_add_tail s (NApNodes j) (NApList i)) h;
         upd_node i (\<lambda>n. n\<lparr>n_ap_node := Some j\<rparr>) h } }
     else Some h }"

subsection \<open>Removing nodes\<close>

definition clear_ap_nodes :: "nat \<Rightarrow> wheap \<Rightarrow> wheap option" where
  "clear_ap_nodes i h = cc_list_for_each_safe links
     (\<lambda>a h. do {
        j \<leftarrow> ap_list_node a;
        h \<leftarrow> on_links (\<lambda>s. cc_list_del_from s (NApNodes i) a) h;
        upd_node j (\<lambda>n. n\<lparr>n_ap_node := None\<rparr>) h }) (NApNodes i) h"

definition expire_node :: "addr \<Rightarrow> nat \<Rightarrow> wheap \<Rightarrow> wheap option" where
  "expire_node H i h = do {
     h \<leftarrow> on_links (\<lambda>s. cc_list_del_from s H (NList i)) h;
     h \<leftarrow> leave_ap i h;
     n \<leftarrow> node_at h i;
     h \<leftarrow> (if n_essid n \<noteq> None then uwifi_essids_remove_node i h else Some h);
     h \<leftarrow> clear_ap_nodes i h;
     free_node i h }"

definition node_stale :: "u32 \<Rightarrow> u32 \<Rightarrow> uwifi_node \<Rightarrow> bool" where
  "node_stale the_time timeout_sec n \<longleftrightarrow> the_time - n_last_seen n > timeout_sec * 1000000"

text \<open>The result is the heap and \<open>*last_nodetimeout\<close>.\<close>

definition uwifi_nodes_timeout :: "addr \<Rightarrow> u32 \<Rightarrow> u32 \<Rightarrow> u32 \<Rightarrow> wheap \<Rightarrow> (wheap \<times> u32) option" where
  "uwifi_nodes_timeout H timeout_sec last_nodetimeout the_time h =
    (if the_time - last_nodetimeout < timeout_sec * 1000000 then Some (h, last_nodetimeout)
     else do {
       h \<leftarrow> cc_list_for_each_safe links
         (\<lambda>a h. do {
            i \<leftarrow> list_node a;
            n \<leftarrow> node_at h i;
            if node_stale the_time timeout_sec n then expire_node H i h else Some h }) H h;
       Some (h, the_time) })"

definition uwifi_nodes_free :: "addr \<Rightarrow> wheap \<Rightarrow> wheap option" where
  "uwifi_nodes_free H h = do {
     f \<leftarrow> get_next (links h) (Some H);
     if f = None then Some h
     else cc_list_for_each_safe links
       (\<lambda>a h. do {
          i \<leftarrow> list_node a;
          h \<leftarrow> on_links (\<lambda>s. cc_list_del_from s H a) h;
          free_node i h }) H h }"

end
