(* ===== verification/Node_Inv.thy ===== *)
theory Node_Inv
  imports Node Parser_Facts
begin

text \<open>
  The invariant of the node and ESSID tables.  A value of \<open>tables\<close> says what the lists hold;
  \<open>heap_rep h T\<close> relates it to the heap: the lists are rings with disjoint footprints, and the
  back pointers (\<open>ap_node\<close>, \<open>essid\<close>) and the counters agree with the lists.  Every primitive
  step of the operations is a lemma that keeps \<open>heap_rep\<close> and changes \<open>T\<close> in the expected way.
\<close>

subsection \<open>Views of the heap\<close>

definition ap_of :: "wheap \<Rightarrow> nat \<Rightarrow> nat option" where
  "ap_of h j = node_at h j \<bind> n_ap_node"

definition essid_of :: "wheap \<Rightarrow> nat \<Rightarrow> nat option" where
  "essid_of h j = node_at h j \<bind> n_essid"

abbreviation NODES :: addr where "NODES \<equiv> List_Head 0"
abbreviation ESSIDS :: addr where "ESSIDS \<equiv> List_Head (Suc 0)"

text \<open>
  The lists: \<open>t_live\<close> are the nodes in memory, \<open>t_nodes\<close> the entries of the node list,
  \<open>t_stations i\<close> the stations of access point \<open>i\<close>, \<open>t_essids\<close> the entries of the ESSID list and
  \<open>t_members e\<close> the nodes of ESSID \<open>e\<close>.
\<close>

record tables =
  t_live :: "nat set"
  t_nodes :: "nat list"
  t_stations :: "nat \<Rightarrow> nat list"
  t_essids :: "nat list"
  t_members :: "nat \<Rightarrow> nat list"

fun fam :: "tables \<Rightarrow> addr family" where
  "fam T (List_Head k) = (if k = 0 then Some (map NList (t_nodes T))
                          else if k = 1 then Some (map EList (t_essids T)) else None)"
| "fam T (NApNodes i) = (if i \<in> t_live T then Some (map NApList (t_stations T i)) else None)"
| "fam T (NOnChan i) = (if i \<in> t_live T then Some [] else None)"
| "fam T (ENodes e) = (if e \<in> set (t_essids T) then Some (map NEssid (t_members T e)) else None)"
| "fam T _ = None"

lemma fam_Some_cases:
  assumes "fam T a = Some xs"
  obtains "a = NODES" "xs = map NList (t_nodes T)"
    | "a = ESSIDS" "xs = map EList (t_essids T)"
    | i where "a = NApNodes i" "i \<in> t_live T" "xs = map NApList (t_stations T i)"
    | i where "a = NOnChan i" "i \<in> t_live T" "xs = []"
    | e where "a = ENodes e" "e \<in> set (t_essids T)" "xs = map NEssid (t_members T e)"
  using assms by (cases a) (auto split: if_splits)

lemma foot_fam:
  "a \<in> foot (fam T) \<longleftrightarrow> (case a of
     List_Head k \<Rightarrow> k = 0 \<or> k = 1
   | NList i \<Rightarrow> i \<in> set (t_nodes T)
   | NEssid i \<Rightarrow> \<exists>e \<in> set (t_essids T). i \<in> set (t_members T e)
   | NOnChan i \<Rightarrow> i \<in> t_live T
   | NApNodes i \<Rightarrow> i \<in> t_live T
   | NApList j \<Rightarrow> \<exists>i \<in> t_live T. j \<in> set (t_stations T i)
   | EList e \<Rightarrow> e \<in> set (t_essids T)
   | ENodes e \<Rightarrow> e \<in> set (t_essids T))" (is "?l \<longleftrightarrow> ?r")
proof
  assume ?l
  then obtain k xs where "fam T k = Some xs" "a \<in> insert k (set xs)" by (auto simp: foot_def)
  then show ?r by (elim fam_Some_cases) auto
next
  assume r: ?r
  have in_list: "a \<in> foot (fam T)" if "fam T k = Some xs" "a \<in> insert k (set xs)" for k xs
    using that by (rule footI)
  have head: "NODES \<in> foot (fam T)" "List_Head (Suc 0) \<in> foot (fam T)"
    "\<And>i. i \<in> t_live T \<Longrightarrow> NOnChan i \<in> foot (fam T)" "\<And>i. i \<in> t_live T \<Longrightarrow> NApNodes i \<in> foot (fam T)"
    "\<And>e. e \<in> set (t_essids T) \<Longrightarrow> ENodes e \<in> foot (fam T)"
    by (rule footI [OF _ insertI1], simp)+
  show ?l
  proof (cases a)
    case (NEssid i)
    with r obtain e where "e \<in> set (t_essids T)" "i \<in> set (t_members T e)" by auto
    with NEssid show ?thesis by (intro in_list [of "ENodes e"]) auto
  next
    case (NApList j)
    with r obtain i where "i \<in> t_live T" "j \<in> set (t_stations T i)" by auto
    with NApList show ?thesis by (intro in_list [of "NApNodes i"]) auto
  next
    case (NList i)
    with r show ?thesis by (intro in_list [of NODES]) auto
  next
    case (EList e)
    with r show ?thesis by (intro in_list [of ESSIDS]) auto
  qed (use r head in auto)
qed

lemmas foot_fam_simps [simp] =
  foot_fam [of "List_Head k" for k, simplified] foot_fam [of "NList i" for i, simplified]
  foot_fam [of "NEssid i" for i, simplified] foot_fam [of "NOnChan i" for i, simplified]
  foot_fam [of "NApNodes i" for i, simplified] foot_fam [of "NApList i" for i, simplified]
  foot_fam [of "EList e" for e, simplified] foot_fam [of "ENodes e" for e, simplified]

subsection \<open>The representation\<close>

definition links_ok :: "wheap \<Rightarrow> tables \<Rightarrow> bool" where
  "links_ok h T \<longleftrightarrow> family is_list (links h) (fam T) \<and>
     (\<forall>i \<in> t_live T. node_cells i \<subseteq> dom (links h)) \<and>
     (\<forall>e \<in> set (t_essids T). essid_cells e \<subseteq> dom (links h))"

definition rels_ok :: "wheap \<Rightarrow> tables \<Rightarrow> bool" where
  "rels_ok h T \<longleftrightarrow>
     (\<forall>i \<in> t_live T. \<forall>j. j \<in> set (t_stations T i) \<longleftrightarrow> ap_of h j = Some i) \<and>
     (\<forall>j i. ap_of h j = Some i \<longrightarrow> i \<in> t_live T) \<and>
     (\<forall>e \<in> set (t_essids T). \<forall>j. j \<in> set (t_members T e) \<longleftrightarrow> essid_of h j = Some e) \<and>
     (\<forall>j e. essid_of h j = Some e \<longrightarrow> e \<in> set (t_essids T))"

definition counts_ok :: "wheap \<Rightarrow> tables \<Rightarrow> bool" where
  "counts_ok h T \<longleftrightarrow>
     (\<forall>e x. essid_at h e = Some x \<longrightarrow> e_num_nodes x = word_of_nat (length (t_members T e)))"

definition heap_rep :: "wheap \<Rightarrow> tables \<Rightarrow> bool" where
  "heap_rep h T \<longleftrightarrow> dom (node_at h) = t_live T \<and> set (t_nodes T) \<subseteq> t_live T \<and>
     dom (essid_at h) = set (t_essids T) \<and> links_ok h T \<and> rels_ok h T \<and> counts_ok h T"

lemma heap_repE:
  assumes "heap_rep h T"
  obtains "dom (node_at h) = t_live T" "set (t_nodes T) \<subseteq> t_live T" "dom (essid_at h) = set (t_essids T)"
    "links_ok h T" "rels_ok h T" "counts_ok h T"
  using assms by (simp add: heap_rep_def)

lemma live_cells:
  assumes "heap_rep h T" "i \<in> t_live T" "a \<in> node_cells i"
  shows "a \<in> dom (links h)"
  using assms by (auto simp: heap_rep_def links_ok_def)

lemma essid_cells_live:
  assumes "heap_rep h T" "e \<in> set (t_essids T)" "a \<in> essid_cells e"
  shows "a \<in> dom (links h)"
  using assms by (auto simp: heap_rep_def links_ok_def)

lemma stations_iff: "heap_rep h T \<Longrightarrow> i \<in> t_live T \<Longrightarrow> j \<in> set (t_stations T i) \<longleftrightarrow> ap_of h j = Some i"
  and ap_live: "heap_rep h T \<Longrightarrow> ap_of h j = Some i \<Longrightarrow> i \<in> t_live T"
  and members_iff: "heap_rep h T \<Longrightarrow> e \<in> set (t_essids T) \<Longrightarrow> j \<in> set (t_members T e) \<longleftrightarrow> essid_of h j = Some e"
  and essid_live: "heap_rep h T \<Longrightarrow> essid_of h j = Some e \<Longrightarrow> e \<in> set (t_essids T)"
  by (simp_all add: heap_rep_def rels_ok_def)

lemma ap_of_live: "heap_rep h T \<Longrightarrow> ap_of h j = Some i \<Longrightarrow> j \<in> t_live T"
  and essid_of_live: "heap_rep h T \<Longrightarrow> essid_of h j = Some e \<Longrightarrow> j \<in> t_live T"
  by (auto simp: heap_rep_def ap_of_def essid_of_def bind_conv)

lemma rep_family: "heap_rep h T \<Longrightarrow> family is_list (links h) (fam T)"
  by (simp add: heap_rep_def links_ok_def)

lemma rep_list: "heap_rep h T \<Longrightarrow> fam T a = Some xs \<Longrightarrow> is_list (links h) a xs"
  by (rule cc.family_rep [OF rep_family])

lemma nodes_list: "heap_rep h T \<Longrightarrow> is_list (links h) NODES (map NList (t_nodes T))"
  and essids_list: "heap_rep h T \<Longrightarrow> is_list (links h) ESSIDS (map EList (t_essids T))"
  by (simp_all add: rep_list)

lemma distinct_nodes: "heap_rep h T \<Longrightarrow> distinct (t_nodes T)"
  and distinct_essids: "heap_rep h T \<Longrightarrow> distinct (t_essids T)"
  using is_list_distinct [OF nodes_list] is_list_distinct [OF essids_list] by (auto simp: distinct_map)

lemma distinct_stations: "heap_rep h T \<Longrightarrow> i \<in> t_live T \<Longrightarrow> distinct (t_stations T i)"
  using is_list_distinct [OF rep_list, of h T "NApNodes i"] by (simp add: distinct_map)

lemma distinct_members: "heap_rep h T \<Longrightarrow> e \<in> set (t_essids T) \<Longrightarrow> distinct (t_members T e)"
  using is_list_distinct [OF rep_list, of h T "ENodes e"] by (simp add: distinct_map)

lemma node_live: "heap_rep h T \<Longrightarrow> i \<in> t_live T \<longleftrightarrow> (\<exists>n. node_at h i = Some n)"
  by (auto simp: heap_rep_def)

lemma essid_in: "heap_rep h T \<Longrightarrow> e \<in> set (t_essids T) \<longleftrightarrow> (\<exists>x. essid_at h e = Some x)"
  by (auto simp: heap_rep_def)


subsection \<open>Changes of one list\<close>

lemma fam_upd:
  "i \<in> t_live T \<Longrightarrow> fam (T\<lparr>t_stations := (t_stations T)(i := xs)\<rparr>) = (fam T)(NApNodes i \<mapsto> map NApList xs)"
  "e \<in> set (t_essids T) \<Longrightarrow> fam (T\<lparr>t_members := (t_members T)(e := xs)\<rparr>) = (fam T)(ENodes e \<mapsto> map NEssid xs)"
  "fam (T\<lparr>t_nodes := xs\<rparr>) = (fam T)(NODES \<mapsto> map NList xs)"
  by (rule ext, rename_tac a, case_tac a, auto)+

lemma fam_same:
  "t_live T' = t_live T \<Longrightarrow> t_nodes T' = t_nodes T \<Longrightarrow> t_essids T' = t_essids T \<Longrightarrow>
   t_stations T' = t_stations T \<Longrightarrow> t_members T' = t_members T \<Longrightarrow> fam T' = fam T"
  by (rule ext, case_tac x) auto

text \<open>Links change, the objects stay.\<close>

lemma links_ok_change:
  assumes "heap_rep h T" "family is_list s (fam T')" "dom s = dom (links h)"
    "t_live T' = t_live T" "t_essids T' = t_essids T"
  shows "links_ok (h\<lparr>links := s\<rparr>) T'"
  using assms by (simp add: heap_rep_def links_ok_def)

lemma add_tail_step:
  assumes T: "heap_rep h T" and k: "fam T k = Some xs" and a: "a \<in> dom (links h)" "a \<notin> foot (fam T)"
  obtains s where "cc_list_add_tail (links h) k a = Some s" "dom s = dom (links h)"
    "family is_list s ((fam T)(k \<mapsto> xs @ [a]))"
  using cc.family_add_tail [OF rep_family [OF T] k a] by blast

lemma del_from_step:
  assumes T: "heap_rep h T" and k: "fam T k = Some (map f (ys @ i # zs))"
  obtains s where "cc_list_del_from (links h) k (f i) = Some s" "dom s = dom (links h)"
    "family is_list s ((fam T)(k \<mapsto> map f (ys @ zs)))" "cc_list_del (links h) (f i) = Some s"
proof -
  from k have k': "fam T k = Some (map f ys @ f i # map f zs)" by simp
  from cc.family_del_from [OF rep_family [OF T] k'] obtain s where
    s: "cc_list_del_from (links h) k (f i) = Some s" "family is_list s ((fam T)(k \<mapsto> map f ys @ map f zs))"
      "dom s = dom (links h)" by blast
  from s(1) have "cc_list_del (links h) (f i) = Some s"
    by (auto simp: cc_list_del_from_def bind_conv)
  with s that [of s] show thesis by simp
qed

lemma remove1_split: "distinct xs \<Longrightarrow> x \<in> set xs \<Longrightarrow> \<exists>ys zs. xs = ys @ x # zs \<and> remove1 x xs = ys @ zs"
  by (metis distinct_append not_distinct_conv_prefix remove1_append remove1.simps(2) split_list in_set_conv_decomp
      disjoint_iff list.set_intros(1))

text \<open>A list without its entry, for the lists that the operations delete from.\<close>

lemma del_step:
  assumes T: "heap_rep h T" and k: "fam T k = Some (map f xs)" and f: "inj f" and i: "i \<in> set xs"
  obtains s where "cc_list_del_from (links h) k (f i) = Some s" "dom s = dom (links h)"
    "family is_list s ((fam T)(k \<mapsto> map f (remove1 i xs)))" "cc_list_del (links h) (f i) = Some s"
proof -
  have "distinct xs" using is_list_distinct [OF rep_list [OF T k]] by (simp add: distinct_map)
  from remove1_split [OF this i] obtain ys zs where "xs = ys @ i # zs" "remove1 i xs = ys @ zs" by blast
  with k del_from_step [OF T, of k f ys i zs] that show thesis by metis
qed


subsection \<open>Steps on the nodes\<close>

lemma of_upd [heap_simps]:
  "ap_of (h\<lparr>node_at := (node_at h)(i \<mapsto> n)\<rparr>) = (ap_of h)(i := n_ap_node n)"
  "essid_of (h\<lparr>node_at := (node_at h)(i \<mapsto> n)\<rparr>) = (essid_of h)(i := n_essid n)"
  "ap_of (h\<lparr>links := s, node_at := (node_at h)(i \<mapsto> n)\<rparr>) = (ap_of h)(i := n_ap_node n)"
  "essid_of (h\<lparr>links := s, node_at := (node_at h)(i \<mapsto> n)\<rparr>) = (essid_of h)(i := n_essid n)"
  "ap_of (h\<lparr>links := s, node_at := (node_at h)(i \<mapsto> n), essid_at := m\<rparr>) = (ap_of h)(i := n_ap_node n)"
  "essid_of (h\<lparr>links := s, node_at := (node_at h)(i \<mapsto> n), essid_at := m\<rparr>) = (essid_of h)(i := n_essid n)"
  "ap_of (h\<lparr>links := s\<rparr>) = ap_of h" "essid_of (h\<lparr>links := s\<rparr>) = essid_of h"
  "ap_of (h\<lparr>essid_at := m\<rparr>) = ap_of h" "essid_of (h\<lparr>essid_at := m\<rparr>) = essid_of h"
  by (auto simp: ap_of_def essid_of_def fun_eq_iff)

lemma addr_inj [simp]: "inj NList" "inj NEssid" "inj NApList" "inj EList"
  by (simp_all add: inj_def)

lemma of_at [simp]: "node_at h i = Some n \<Longrightarrow> ap_of h i = n_ap_node n" "node_at h i = Some n \<Longrightarrow> essid_of h i = n_essid n"
  by (simp_all add: ap_of_def essid_of_def)

lemma on_links_Some [heap_simps]: "f (links h) = Some s \<Longrightarrow> on_links f h = Some (h\<lparr>links := s\<rparr>)"
  by (simp add: on_links_def)

lemma upd_node_Some [heap_simps]:
  "node_at h i = Some n \<Longrightarrow> upd_node i f h = Some (h\<lparr>node_at := (node_at h)(i \<mapsto> f n)\<rparr>)"
  by (simp add: upd_node_def)

lemma upd_essid_Some [heap_simps]:
  "essid_at h e = Some x \<Longrightarrow> upd_essid e f h = Some (h\<lparr>essid_at := (essid_at h)(e \<mapsto> f x)\<rparr>)"
  by (simp add: upd_essid_def)

text \<open>A node's data changes, its two pointers do not.\<close>

lemma rep_upd_node:
  assumes T: "heap_rep h T" and i: "node_at h i = Some n"
    and n': "n_ap_node n' = n_ap_node n" "n_essid n' = n_essid n"
  shows "heap_rep (h\<lparr>node_at := (node_at h)(i \<mapsto> n')\<rparr>) T"
proof -
  have "ap_of (h\<lparr>node_at := (node_at h)(i \<mapsto> n')\<rparr>) = ap_of h"
    "essid_of (h\<lparr>node_at := (node_at h)(i \<mapsto> n')\<rparr>) = essid_of h"
    using i n' by (auto simp: heap_simps)
  moreover have "insert i (t_live T) = t_live T" using T i by (auto simp: node_live)
  ultimately show ?thesis
    using T by (simp add: heap_rep_def links_ok_def rels_ok_def counts_ok_def)
qed

lemma rep_upd_essid:
  assumes T: "heap_rep h T" and e: "essid_at h e = Some x" and x': "e_num_nodes x' = e_num_nodes x"
  shows "heap_rep (h\<lparr>essid_at := (essid_at h)(e \<mapsto> x')\<rparr>) T"
proof -
  have "insert e (set (t_essids T)) = set (t_essids T)" using T e by (auto simp: essid_in)
  then show ?thesis
    using T e x' by (auto simp: heap_rep_def links_ok_def rels_ok_def counts_ok_def heap_simps)
qed

text \<open>A station joins and leaves the list of an access point.\<close>

lemma rep_join_ap:
  assumes T: "heap_rep h T" and i: "node_at h i = Some n" "n_ap_node n = None" and j: "j \<in> t_live T"
  obtains s where "cc_list_add_tail (links h) (NApNodes j) (NApList i) = Some s"
    "heap_rep (h\<lparr>links := s, node_at := (node_at h)(i \<mapsto> n\<lparr>n_ap_node := Some j\<rparr>)\<rparr>)
       (T\<lparr>t_stations := (t_stations T)(j := t_stations T j @ [i])\<rparr>)"
proof -
  let ?T = "T\<lparr>t_stations := (t_stations T)(j := t_stations T j @ [i])\<rparr>"
  from T i have il: "i \<in> t_live T" by (auto simp: node_live)
  have "ap_of h i = None" and es: "(essid_of h)(i := n_essid n) = essid_of h" using i by auto
  then have nf: "NApList i \<notin> foot (fam T)" using T by (auto simp: stations_iff)
  have dom: "NApList i \<in> dom (links h)" using live_cells [OF T il] by (simp add: node_cells_def)
  from add_tail_step [OF T _ dom nf, of "NApNodes j" "map NApList (t_stations T j)"] j obtain s where
    s: "cc_list_add_tail (links h) (NApNodes j) (NApList i) = Some s" "dom s = dom (links h)"
      "family is_list s ((fam T)(NApNodes j \<mapsto> map NApList (t_stations T j @ [i])))" by auto
  from s(3) have "family is_list s (fam ?T)" using j by (simp add: fam_upd)
  then have "links_ok (h\<lparr>links := s\<rparr>) ?T" using T s(2) by (intro links_ok_change [of h T]) simp_all
  moreover have "rels_ok (h\<lparr>links := s, node_at := (node_at h)(i \<mapsto> n\<lparr>n_ap_node := Some j\<rparr>)\<rparr>) ?T"
    using T j \<open>ap_of h i = None\<close> es by (auto simp: heap_rep_def rels_ok_def heap_simps split: if_splits)
  moreover have "insert i (t_live T) = t_live T" using il by auto
  ultimately have "heap_rep (h\<lparr>links := s, node_at := (node_at h)(i \<mapsto> n\<lparr>n_ap_node := Some j\<rparr>)\<rparr>) ?T"
    using T by (simp add: heap_rep_def links_ok_def counts_ok_def)
  with s(1) that show thesis by blast
qed

lemma rep_leave_ap:
  assumes T: "heap_rep h T" and i: "node_at h i = Some n" "n_ap_node n = Some j"
  obtains s where "cc_list_del_from (links h) (NApNodes j) (NApList i) = Some s"
    "heap_rep (h\<lparr>links := s, node_at := (node_at h)(i \<mapsto> n\<lparr>n_ap_node := None\<rparr>)\<rparr>)
       (T\<lparr>t_stations := (t_stations T)(j := remove1 i (t_stations T j))\<rparr>)"
proof -
  let ?T = "T\<lparr>t_stations := (t_stations T)(j := remove1 i (t_stations T j))\<rparr>"
  have ap: "ap_of h i = Some j" and es: "(essid_of h)(i := n_essid n) = essid_of h" using i by auto
  have jl: "j \<in> t_live T" using ap_live [OF T ap] .
  from T i have il: "insert i (t_live T) = t_live T" by (auto simp: node_live)
  have mem: "i \<in> set (t_stations T j)" using T jl ap by (simp add: stations_iff)
  have fj: "fam T (NApNodes j) = Some (map NApList (t_stations T j))" using jl by simp
  obtain s where s: "cc_list_del_from (links h) (NApNodes j) (NApList i) = Some s" "dom s = dom (links h)"
      "family is_list s ((fam T)(NApNodes j \<mapsto> map NApList (remove1 i (t_stations T j))))"
    by (rule del_step [OF T fj _ mem]) simp_all
  from s(3) have "family is_list s (fam ?T)" using jl by (simp add: fam_upd)
  then have "links_ok (h\<lparr>links := s\<rparr>) ?T" using T s(2) by (intro links_ok_change [of h T]) simp_all
  moreover have "rels_ok (h\<lparr>links := s, node_at := (node_at h)(i \<mapsto> n\<lparr>n_ap_node := None\<rparr>)\<rparr>) ?T"
    using T ap es distinct_stations [OF T jl]
    by (auto simp: heap_rep_def rels_ok_def heap_simps split: if_splits)
  ultimately have "heap_rep (h\<lparr>links := s, node_at := (node_at h)(i \<mapsto> n\<lparr>n_ap_node := None\<rparr>)\<rparr>) ?T"
    using T il by (simp add: heap_rep_def links_ok_def counts_ok_def)
  with s(1) that show thesis by blast
qed


text \<open>A node leaves the node list; one that is in no list any more is freed.\<close>

lemma rep_del_node:
  assumes T: "heap_rep h T" and i: "i \<in> set (t_nodes T)"
  obtains s where "cc_list_del_from (links h) NODES (NList i) = Some s"
    "heap_rep (h\<lparr>links := s\<rparr>) (T\<lparr>t_nodes := remove1 i (t_nodes T)\<rparr>)"
proof -
  have f: "fam T NODES = Some (map NList (t_nodes T))" by simp
  obtain s where s: "cc_list_del_from (links h) NODES (NList i) = Some s" "dom s = dom (links h)"
      "family is_list s ((fam T)(NODES \<mapsto> map NList (remove1 i (t_nodes T))))"
    by (rule del_step [OF T f _ i]) simp_all
  have "set (remove1 i (t_nodes T)) \<subseteq> t_live T" using T set_remove1_subset [of i "t_nodes T"]
    by (auto simp: heap_rep_def)
  moreover from s(3) have "family is_list s (fam (T\<lparr>t_nodes := remove1 i (t_nodes T)\<rparr>))" by (simp add: fam_upd)
  ultimately have "heap_rep (h\<lparr>links := s\<rparr>) (T\<lparr>t_nodes := remove1 i (t_nodes T)\<rparr>)"
    using T s(2) by (simp add: heap_rep_def links_ok_def rels_ok_def counts_ok_def heap_simps)
  with s(1) that show thesis by blast
qed

lemma foot_not_free_node:
  assumes "heap_rep h T" "i \<notin> set (t_nodes T)" "ap_of h i = None" "essid_of h i = None"
    "a \<in> foot (fam (T\<lparr>t_live := t_live T - {i}\<rparr>))"
  shows "a \<notin> node_cells i"
proof -
  have "i \<notin> set (t_stations T j)" if "j \<in> t_live T" for j using assms(1,3) that by (simp add: stations_iff)
  moreover have "i \<notin> set (t_members T e)" if "e \<in> set (t_essids T)" for e using assms(1,4) that by (simp add: members_iff)
  ultimately show ?thesis using assms(2,5) by (auto simp: node_cells_def)
qed

lemma fam_less_node: "fam (T\<lparr>t_live := t_live T - {i}\<rparr>) = (fam T)(NApNodes i := None, NOnChan i := None)"
  by (rule ext, rename_tac a, case_tac a) auto

lemma rep_free_node:
  assumes T: "heap_rep h T" and i: "i \<in> t_live T" "i \<notin> set (t_nodes T)" "ap_of h i = None" "essid_of h i = None"
    and st: "t_stations T i = []"
  obtains h' where "free_node i h = Some h'" "node_at h' = (node_at h)(i := None)" "essid_at h' = essid_at h"
    "heap_rep h' (T\<lparr>t_live := t_live T - {i}\<rparr>)"
proof -
  let ?T = "T\<lparr>t_live := t_live T - {i}\<rparr>"
  let ?s = "\<lambda>a. if a \<in> node_cells i then None else links h a"
  let ?h = "h\<lparr>links := ?s, node_at := (node_at h)(i := None)\<rparr>"
  from i T obtain n where n: "node_at h i = Some n" by (auto simp: node_live)
  have ap: "ap_of ?h = ap_of h" "essid_of ?h = essid_of h" using i n by (auto simp: ap_of_def essid_of_def)
  have no_ap: "ap_of h j \<noteq> Some i" for j using stations_iff [OF T i(1), of j] st by simp
  have "family is_list (links h) (fam ?T)"
    unfolding fam_less_node by (intro cc.family_forget rep_family T)
  then have "family is_list ?s (fam ?T)"
    by (rule cc.family_frame) (use foot_not_free_node [OF T i(2-4)] in auto)
  moreover have "node_cells j \<subseteq> dom ?s" if "j \<in> t_live T" "j \<noteq> i" for j
  proof
    fix a assume a: "a \<in> node_cells j"
    with that(2) have "a \<notin> node_cells i" by (auto simp: node_cells_def)
    with live_cells [OF T that(1) a] show "a \<in> dom ?s" by auto
  qed
  moreover have "essid_cells e \<subseteq> dom ?s" if "e \<in> set (t_essids T)" for e
  proof
    fix a assume a: "a \<in> essid_cells e"
    then have "a \<notin> node_cells i" by (auto simp: node_cells_def essid_cells_def)
    with essid_cells_live [OF T that a] show "a \<in> dom ?s" by auto
  qed
  ultimately have "links_ok ?h ?T" by (simp add: links_ok_def)
  moreover have "rels_ok ?h ?T"
    using T no_ap by (auto simp: heap_rep_def rels_ok_def ap)
  ultimately have "heap_rep ?h ?T"
    using T i(2) by (auto simp: heap_rep_def counts_ok_def)
  moreover have "free_node i h = Some ?h" using n by (simp add: free_node_def)
  ultimately show thesis by (intro that) simp_all
qed

text \<open>A fresh node is entered in the node list.\<close>

lemma fam_more_node:
  "fam (T\<lparr>t_live := insert i (t_live T), t_nodes := t_nodes T @ [i], t_stations := (t_stations T)(i := [])\<rparr>) =
    (fam T)(NOnChan i \<mapsto> [], NApNodes i \<mapsto> [], NODES \<mapsto> map NList (t_nodes T @ [i]))"
  by (rule ext, rename_tac a, case_tac a) auto

lemma ewma_1024_8: "\<exists>avg. ewma_init 1024 8 = Some avg"
proof -
  have "(1024 :: u64) = 2 ^ 10" "(8 :: u64) = 2 ^ 3" by simp_all
  then show ?thesis by (simp only: ewma_init_def i32_exp ilog2_exp) simp
qed

definition fresh_node :: uwifi_node where
  "fresh_node = zero_node\<lparr>n_phy_sig_avg := the (ewma_init 1024 8)\<rparr>"

lemma fresh_node_simps [simp]: "n_ap_node fresh_node = None" "n_essid fresh_node = None"
  "n_wlan_bssid fresh_node = replicate 6 0" "n_wlan_src fresh_node = replicate 6 0"
  by (simp_all add: fresh_node_def zero_node_def)

lemma rep_new_node:
  assumes T: "heap_rep h T" and i: "i \<notin> t_live T"
  obtains h' where "new_node (Some i) NODES h = Some (i, h')" "essid_at h' = essid_at h"
    "node_at h' = (node_at h)(i \<mapsto> fresh_node)"
    "heap_rep h' (T\<lparr>t_live := insert i (t_live T), t_nodes := t_nodes T @ [i], t_stations := (t_stations T)(i := [])\<rparr>)"
proof -
  define S where "S = (\<lambda>a. if a \<in> node_cells i then Some null_link else links h a)"
  let ?T = "T\<lparr>t_live := insert i (t_live T), t_nodes := t_nodes T @ [i], t_stations := (t_stations T)(i := [])\<rparr>"
  have "node_at h i = None" using T i by (auto simp: heap_rep_def)
  then have nil: "node_at h i = None" "ap_of h i = None" "essid_of h i = None"
    by (simp_all add: ap_of_def essid_of_def)
  have nst: "i \<notin> set (t_stations T j)" if "j \<in> t_live T" for j using T nil that by (simp add: stations_iff)
  have nm: "i \<notin> set (t_members T e)" if "e \<in> set (t_essids T)" for e using T nil that by (simp add: members_iff)
  have nn: "i \<notin> set (t_nodes T)" using T i by (auto simp: heap_rep_def)
  have nf: "a \<notin> foot (fam T)" if "a \<in> node_cells i" for a
    using that i nst nm nn by (auto simp: node_cells_def)
  have F: "family is_list S (fam T)"
    by (rule cc.family_frame [OF rep_family [OF T]]) (use nf in \<open>auto simp: S_def\<close>)
  have d: "a \<in> dom S" if "a \<in> node_cells i" for a using that by (auto simp: S_def)
  have oc: "NOnChan i \<in> node_cells i" and ap: "NApNodes i \<in> node_cells i" "NApNodes i \<noteq> NOnChan i"
    by (simp_all add: node_cells_def)
  obtain s1 where s1: "cc_list_head_init S (NOnChan i) = Some s1"
    "family is_list s1 ((fam T)(NOnChan i \<mapsto> []))" "dom s1 = dom S"
    using cc.family_init [OF F d [OF oc] nf [OF oc]] by (elim exE conjE)
  have in1: "a \<notin> foot ((fam T)(NOnChan i \<mapsto> []))" if "a \<in> node_cells i" "a \<noteq> NOnChan i" for a
    using foot_upd_subset [of "fam T" "NOnChan i" "[]"] that nf by auto
  obtain s2 where s2: "cc_list_head_init s1 (NApNodes i) = Some s2"
    "family is_list s2 ((fam T)(NOnChan i \<mapsto> [], NApNodes i \<mapsto> []))" "dom s2 = dom S"
    using cc.family_init [OF s1(2) d [OF ap(1), folded s1(3)] in1 [OF ap]] unfolding s1(3) by (elim exE conjE)
  have nl: "NList i \<notin> foot ((fam T)(NOnChan i \<mapsto> [], NApNodes i \<mapsto> []))"
    using foot_upd_subset [of "(fam T)(NOnChan i \<mapsto> [])" "NApNodes i" "[]"] in1 [of "NList i"]
    by (auto simp: node_cells_def)
  have nk: "((fam T)(NOnChan i \<mapsto> [], NApNodes i \<mapsto> [])) NODES = Some (map NList (t_nodes T))" by simp
  have nd: "NList i \<in> dom s2" unfolding s2(3) by (rule d) (simp add: node_cells_def)
  obtain s3 where
    s3: "cc_list_add_tail s2 NODES (NList i) = Some s3"
      "family is_list s3 ((fam T)(NOnChan i \<mapsto> [], NApNodes i \<mapsto> [], NODES \<mapsto> map NList (t_nodes T) @ [NList i]))"
      "dom s3 = dom S"
    using cc.family_add_tail [OF s2(2) nk nd nl] unfolding s2(3) by (elim exE conjE)
  let ?h = "h\<lparr>links := s3, node_at := (node_at h)(i \<mapsto> fresh_node)\<rparr>"
  obtain avg where avg: "ewma_init 1024 8 = Some avg" using ewma_1024_8 by blast
  have run: "new_node (Some i) NODES h = Some (i, ?h)"
    using s1(1) s2(1) s3(1) avg
    by (simp add: S_def new_node_def malloc_node_def upd_node_def on_links_def fresh_node_def)
  have of: "ap_of ?h = ap_of h" "essid_of ?h = essid_of h" using nil by (auto simp: heap_simps)
  have "family is_list s3 (fam ?T)" using s3(2) by (simp only: fam_more_node map_append list.map)
  moreover have "node_cells j \<subseteq> dom s3" if "j \<in> insert i (t_live T)" for j
  proof
    fix a assume "a \<in> node_cells j"
    with that live_cells [OF T, of j a] show "a \<in> dom s3" unfolding s3(3) S_def by auto
  qed
  moreover have "essid_cells e \<subseteq> dom s3" if "e \<in> set (t_essids T)" for e
  proof
    fix a assume "a \<in> essid_cells e"
    from essid_cells_live [OF T that this] show "a \<in> dom s3" unfolding s3(3) S_def by auto
  qed
  ultimately have "links_ok ?h ?T" by (simp add: links_ok_def)
  moreover have "ap_of h j \<noteq> Some i" for j using ap_live [OF T] i by blast
  then have "rels_ok ?h ?T" using T by (auto simp: heap_rep_def rels_ok_def of)
  ultimately have "heap_rep ?h ?T"
    using T by (auto simp: heap_rep_def counts_ok_def)
  with run show thesis by (intro that) simp_all
qed


subsection \<open>Steps on the ESSIDs\<close>

text \<open>A node joins the list of an ESSID; with the counter it is \<open>heap_rep\<close> again.\<close>

lemma rep_join_essid:
  assumes T: "heap_rep h T" and i: "node_at h i = Some n" "n_essid n = None" and e: "essid_at h e = Some x"
  obtains s where "cc_list_add_tail (links h) (ENodes e) (NEssid i) = Some s"
    "heap_rep (h\<lparr>links := s, node_at := (node_at h)(i \<mapsto> n\<lparr>n_essid := Some e\<rparr>),
        essid_at := (essid_at h)(e \<mapsto> x\<lparr>e_num_nodes := e_num_nodes x + 1\<rparr>)\<rparr>)
       (T\<lparr>t_members := (t_members T)(e := t_members T e @ [i])\<rparr>)"
proof -
  let ?T = "T\<lparr>t_members := (t_members T)(e := t_members T e @ [i])\<rparr>"
  let ?h = "\<lambda>s. h\<lparr>links := s, node_at := (node_at h)(i \<mapsto> n\<lparr>n_essid := Some e\<rparr>),
      essid_at := (essid_at h)(e \<mapsto> x\<lparr>e_num_nodes := e_num_nodes x + 1\<rparr>)\<rparr>"
  from T i e have il: "i \<in> t_live T" and el: "e \<in> set (t_essids T)" by (auto simp: node_live essid_in)
  have es: "essid_of h i = None" and ap: "(ap_of h)(i := n_ap_node n) = ap_of h" using i by auto
  then have nf: "NEssid i \<notin> foot (fam T)" using T by (auto simp: members_iff)
  have dom: "NEssid i \<in> dom (links h)" using live_cells [OF T il] by (simp add: node_cells_def)
  from add_tail_step [OF T _ dom nf, of "ENodes e" "map NEssid (t_members T e)"] el obtain s where
    s: "cc_list_add_tail (links h) (ENodes e) (NEssid i) = Some s" "dom s = dom (links h)"
      "family is_list s ((fam T)(ENodes e \<mapsto> map NEssid (t_members T e @ [i])))" by auto
  from s(3) have "family is_list s (fam ?T)" using el by (simp add: fam_upd)
  then have "links_ok (h\<lparr>links := s\<rparr>) ?T" using T s(2) by (intro links_ok_change [of h T]) simp_all
  then have "links_ok (?h s) ?T" by (simp add: links_ok_def)
  moreover have "rels_ok (?h s) ?T"
    using T el es ap by (auto simp: heap_rep_def rels_ok_def heap_simps split: if_splits)
  moreover have "counts_ok (?h s) ?T" using T e by (auto simp: heap_rep_def counts_ok_def)
  moreover have "insert i (t_live T) = t_live T" "insert e (set (t_essids T)) = set (t_essids T)" using il el by auto
  ultimately have "heap_rep (?h s) ?T" using T by (simp add: heap_rep_def)
  with s(1) that show thesis by blast
qed

lemma rep_leave_essid:
  assumes T: "heap_rep h T" and i: "node_at h i = Some n" "n_essid n = Some e" and e: "essid_at h e = Some x"
  obtains s where "cc_list_del_from (links h) (ENodes e) (NEssid i) = Some s"
    "heap_rep (h\<lparr>links := s, node_at := (node_at h)(i \<mapsto> n\<lparr>n_essid := None\<rparr>),
        essid_at := (essid_at h)(e \<mapsto> x\<lparr>e_num_nodes := e_num_nodes x - 1\<rparr>)\<rparr>)
       (T\<lparr>t_members := (t_members T)(e := remove1 i (t_members T e))\<rparr>)"
proof -
  let ?T = "T\<lparr>t_members := (t_members T)(e := remove1 i (t_members T e))\<rparr>"
  let ?h = "\<lambda>s. h\<lparr>links := s, node_at := (node_at h)(i \<mapsto> n\<lparr>n_essid := None\<rparr>),
      essid_at := (essid_at h)(e \<mapsto> x\<lparr>e_num_nodes := e_num_nodes x - 1\<rparr>)\<rparr>"
  from T i e have il: "i \<in> t_live T" and el: "e \<in> set (t_essids T)" by (auto simp: node_live essid_in)
  have es: "essid_of h i = Some e" and ap: "(ap_of h)(i := n_ap_node n) = ap_of h" using i by auto
  have mem: "i \<in> set (t_members T e)" using T el es by (simp add: members_iff)
  have f: "fam T (ENodes e) = Some (map NEssid (t_members T e))" using el by simp
  obtain s where s: "cc_list_del_from (links h) (ENodes e) (NEssid i) = Some s" "dom s = dom (links h)"
      "family is_list s ((fam T)(ENodes e \<mapsto> map NEssid (remove1 i (t_members T e))))"
    by (rule del_step [OF T f _ mem]) simp_all
  from s(3) have "family is_list s (fam ?T)" using el by (simp add: fam_upd)
  then have "links_ok (h\<lparr>links := s\<rparr>) ?T" using T s(2) by (intro links_ok_change [of h T]) simp_all
  then have "links_ok (?h s) ?T" by (simp add: links_ok_def)
  moreover have "rels_ok (?h s) ?T"
    using T es ap distinct_members [OF T el]
    by (auto simp: heap_rep_def rels_ok_def heap_simps split: if_splits)
  moreover have "length (t_members T e) = Suc (length (remove1 i (t_members T e)))"
    using mem length_pos_if_in_set [OF mem] by (simp add: length_remove1)
  then have "counts_ok (?h s) ?T" using T e by (auto simp: heap_rep_def counts_ok_def)
  moreover have "insert i (t_live T) = t_live T" "insert e (set (t_essids T)) = set (t_essids T)" using il el by auto
  ultimately have "heap_rep (?h s) ?T" using T by (simp add: heap_rep_def)
  with s(1) that show thesis by blast
qed

text \<open>An ESSID without nodes is taken out of the list and freed.\<close>

lemma fam_less_essid:
  "distinct (t_essids T) \<Longrightarrow> fam (T\<lparr>t_essids := remove1 e (t_essids T)\<rparr>) =
    ((fam T)(ESSIDS \<mapsto> map EList (remove1 e (t_essids T))))(ENodes e := None)"
  by (rule ext, rename_tac a, case_tac a) auto

lemma rep_free_essid:
  assumes T: "heap_rep h T" and e: "e \<in> set (t_essids T)" "t_members T e = []"
  obtains s h' where "cc_list_del (links h) (EList e) = Some s" "free_essid e (h\<lparr>links := s\<rparr>) = Some h'"
    "cc_list_del_from (links h) ESSIDS (EList e) = Some s"
    "node_at h' = node_at h" "essid_at h' = (essid_at h)(e := None)"
    "heap_rep h' (T\<lparr>t_essids := remove1 e (t_essids T)\<rparr>)"
proof -
  let ?T = "T\<lparr>t_essids := remove1 e (t_essids T)\<rparr>"
  have f: "fam T ESSIDS = Some (map EList (t_essids T))" by simp
  obtain s where s: "cc_list_del (links h) (EList e) = Some s" "dom s = dom (links h)"
      "family is_list s ((fam T)(ESSIDS \<mapsto> map EList (remove1 e (t_essids T))))"
      "cc_list_del_from (links h) ESSIDS (EList e) = Some s"
    by (rule del_step [OF T f _ e(1)]) simp_all
  define S where "S = (\<lambda>a. if a \<in> essid_cells e then None else s a)"
  let ?h = "h\<lparr>links := S, essid_at := (essid_at h)(e := None)\<rparr>"
  have d: "distinct (t_essids T)" by (rule distinct_essids [OF T])
  have F: "family is_list s (fam ?T)"
    unfolding fam_less_essid [OF d] by (rule cc.family_forget [OF s(3)])
  have nc: "a \<notin> essid_cells e" if "a \<in> foot (fam ?T)" for a
    using that d by (auto simp: essid_cells_def)
  have "family is_list S (fam ?T)"
    by (rule cc.family_frame [OF F]) (use nc in \<open>simp add: S_def\<close>)
  moreover have "node_cells j \<subseteq> dom S" if "j \<in> t_live T" for j
  proof
    fix a assume a: "a \<in> node_cells j"
    then have "a \<notin> essid_cells e" by (auto simp: node_cells_def essid_cells_def)
    then have "S a = s a" by (simp add: S_def)
    with live_cells [OF T that a, folded s(2)] show "a \<in> dom S" by (simp only: domIff not_False_eq_True)
  qed
  moreover have "essid_cells k \<subseteq> dom S" if "k \<in> set (t_essids T)" "k \<noteq> e" for k
  proof
    fix a assume a: "a \<in> essid_cells k"
    then have "a \<notin> essid_cells e" using that(2) by (auto simp: essid_cells_def)
    then have "S a = s a" by (simp add: S_def)
    with essid_cells_live [OF T that(1) a, folded s(2)] show "a \<in> dom S" by (simp only: domIff not_False_eq_True)
  qed
  ultimately have "links_ok ?h ?T" using d by (simp add: links_ok_def)
  moreover have "essid_of h j \<noteq> Some e" for j using members_iff [OF T e(1), of j] e(2) by simp
  then have "rels_ok ?h ?T" using T d by (auto simp: heap_rep_def rels_ok_def heap_simps)
  moreover have "counts_ok ?h ?T" using T by (auto simp: heap_rep_def counts_ok_def)
  ultimately have "heap_rep ?h ?T" using T d by (auto simp: heap_rep_def)
  moreover from e T obtain x where "essid_at h e = Some x" by (auto simp: essid_in)
  then have "free_essid e (h\<lparr>links := s\<rparr>) = Some ?h" by (simp add: free_essid_def S_def cong: if_cong)
  ultimately show thesis using s(1,4) by (intro that) simp_all
qed


text \<open>A fresh ESSID is entered in the list of ESSIDs.\<close>

lemma fam_more_essid:
  "e \<notin> set (t_essids T) \<Longrightarrow>
    fam (T\<lparr>t_essids := t_essids T @ [e], t_members := (t_members T)(e := [])\<rparr>) =
    (fam T)(ENodes e \<mapsto> [], ESSIDS \<mapsto> map EList (t_essids T @ [e]))"
  by (rule ext, rename_tac a, case_tac a) auto

lemma rep_new_essid:
  assumes T: "heap_rep h T" and e: "e \<notin> set (t_essids T)" and name: "strncpy WLAN_MAX_SSID_LEN name = Some c"
  obtains h' where "new_essid (Some e) name ESSIDS h = Some (e, h')" "node_at h' = node_at h"
    "essid_at h' = (essid_at h)(e \<mapsto> zero_essid\<lparr>e_essid := c[WLAN_MAX_SSID_LEN - 1 := 0]\<rparr>)"
    "heap_rep h' (T\<lparr>t_essids := t_essids T @ [e], t_members := (t_members T)(e := [])\<rparr>)"
proof -
  define S where "S = (\<lambda>a. if a \<in> essid_cells e then Some null_link else links h a)"
  let ?T = "T\<lparr>t_essids := t_essids T @ [e], t_members := (t_members T)(e := [])\<rparr>"
  have nf: "a \<notin> foot (fam T)" if "a \<in> essid_cells e" for a using that e by (auto simp: essid_cells_def)
  have F: "family is_list S (fam T)"
    by (rule cc.family_frame [OF rep_family [OF T]]) (use nf in \<open>auto simp: S_def\<close>)
  have d: "a \<in> dom S" if "a \<in> essid_cells e" for a using that by (auto simp: S_def)
  have c: "ENodes e \<in> essid_cells e" "EList e \<in> essid_cells e" by (simp_all add: essid_cells_def)
  obtain s1 where s1: "cc_list_head_init S (ENodes e) = Some s1" "family is_list s1 ((fam T)(ENodes e \<mapsto> []))"
    "dom s1 = dom S"
    using cc.family_init [OF F d [OF c(1)] nf [OF c(1)]] by (elim exE conjE)
  have nl: "EList e \<notin> foot ((fam T)(ENodes e \<mapsto> []))"
    using foot_upd_subset [of "fam T" "ENodes e" "[]"] e by auto
  have nk: "((fam T)(ENodes e \<mapsto> [])) ESSIDS = Some (map EList (t_essids T))" by simp
  have nd: "EList e \<in> dom s1" unfolding s1(3) by (rule d [OF c(2)])
  obtain s2 where s2: "cc_list_add_tail s1 ESSIDS (EList e) = Some s2"
    "family is_list s2 ((fam T)(ENodes e \<mapsto> [], ESSIDS \<mapsto> map EList (t_essids T) @ [EList e]))" "dom s2 = dom S"
    using cc.family_add_tail [OF s1(2) nk nd nl] unfolding s1(3) by (elim exE conjE)
  let ?x = "zero_essid\<lparr>e_essid := c[WLAN_MAX_SSID_LEN - 1 := 0]\<rparr>"
  let ?h = "h\<lparr>links := s2, essid_at := (essid_at h)(e \<mapsto> ?x)\<rparr>"
  have run: "new_essid (Some e) name ESSIDS h = Some (e, ?h)"
    using s1(1) s2(1) name
    by (simp add: S_def new_essid_def malloc_essid_def upd_essid_def on_links_def)
  have "family is_list s2 (fam ?T)" using s2(2) by (simp only: fam_more_essid [OF e] map_append list.map)
  moreover have "a \<in> dom s2" if "a \<in> dom (links h) \<or> a \<in> essid_cells e" for a
    using that unfolding s2(3) S_def by auto
  then have "node_cells j \<subseteq> dom s2" if "j \<in> t_live T" for j
    using live_cells [OF T that] by (intro subsetI) metis
  moreover have "essid_cells k \<subseteq> dom s2" if "k \<in> insert e (set (t_essids T))" for k
    using essid_cells_live [OF T, of k] that \<open>\<And>a. a \<in> dom (links h) \<or> a \<in> essid_cells e \<Longrightarrow> a \<in> dom s2\<close>
    by (intro subsetI) (metis insertE)
  ultimately have "links_ok ?h ?T" by (simp add: links_ok_def)
  moreover have "essid_of h j \<noteq> Some e" for j using essid_live [OF T] e by blast
  then have "rels_ok ?h ?T" using T by (auto simp: heap_rep_def rels_ok_def heap_simps)
  moreover have "counts_ok ?h ?T" using T by (auto simp: heap_rep_def counts_ok_def zero_essid_def)
  ultimately have "heap_rep ?h ?T" using T by (auto simp: heap_rep_def)
  with run show thesis by (intro that) simp_all
qed

end
