(* ===== verification/Essid_Facts.thy ===== *)
theory Essid_Facts
  imports Node_Inv
begin

text \<open>
  What the operations of \<open>core/essid.c\<close> do to tables that are represented in the heap: names
  are compared and copied as C strings, the mark \<open>split\<close> is computed correctly, and adding and
  removing nodes keeps the representation.
\<close>

subsection \<open>C strings\<close>

definition cstr :: "bytes \<Rightarrow> bytes" where
  "cstr s = takeWhile (\<lambda>c. c \<noteq> 0) s"

definition name_array :: "bytes \<Rightarrow> bool" where
  "name_array s \<longleftrightarrow> length s = WLAN_MAX_SSID_LEN \<and> 0 \<in> set s"

lemma strncmp_0_cstr:
  "length a = n \<Longrightarrow> length b = n \<Longrightarrow> 0 \<in> set a \<Longrightarrow> 0 \<in> set b \<Longrightarrow> strncmp_0 n a b = Some (cstr a = cstr b)"
  by (induction n a b rule: strncmp_0.induct) (auto simp: cstr_def)

lemma strncpy_cstr:
  "length s = n \<Longrightarrow> strncpy n s = Some (cstr s @ replicate (n - length (cstr s)) 0)"
  by (induction n s rule: strncpy.induct) (auto simp: cstr_def)

lemma cstr_short: "0 \<in> set s \<Longrightarrow> length (cstr s) < length s"
  by (induction s) (auto simp: cstr_def)

lemma cstr_pad: "cstr (cstr s @ replicate k 0) = cstr s"
proof -
  have "\<forall>c \<in> set (cstr s). c \<noteq> 0" by (auto simp: cstr_def dest: set_takeWhileD)
  then show ?thesis unfolding cstr_def [of "cstr s @ _"] by (cases k) auto
qed

lemma copied_name:
  assumes "name_array s"
  obtains c where "strncpy WLAN_MAX_SSID_LEN s = Some c" "name_array (c[WLAN_MAX_SSID_LEN - 1 := 0])"
    "cstr (c[WLAN_MAX_SSID_LEN - 1 := 0]) = cstr s"
proof -
  let ?n = "WLAN_MAX_SSID_LEN" and ?k = "length (cstr s)"
  let ?c = "cstr s @ replicate (?n - ?k) 0"
  have k: "?k < ?n" using assms cstr_short [of s] by (simp add: name_array_def)
  have same: "?c[?n - 1 := 0] = ?c"
  proof (rule list_update_same_conv [THEN iffD2])
    show "?n - 1 < length ?c" using k by simp
    show "?c ! (?n - 1) = 0" using k by (simp add: nth_append)
  qed
  have "strncpy ?n s = Some ?c" using assms by (intro strncpy_cstr) (simp add: name_array_def)
  moreover have "name_array ?c" using k by (simp add: name_array_def)
  ultimately show thesis using that [of ?c] same cstr_pad [of s] by simp
qed

subsection \<open>The split mark\<close>

definition counts_for_split :: "uwifi_node \<Rightarrow> bool" where
  "counts_for_split n \<longleftrightarrow> \<not> (flag_set (n_wlan_mode n) WLAN_MODE_AP \<or> flag_set (n_wlan_mode n) WLAN_MODE_PROBE)"

text \<open>The network is split: two members that are not access points use different BSSIDs.\<close>

definition split_nodes :: "uwifi_node list \<Rightarrow> bool" where
  "split_nodes ns \<longleftrightarrow> (\<exists>a \<in> set ns. \<exists>b \<in> set ns. counts_for_split a \<and> counts_for_split b \<and>
     n_wlan_bssid a \<noteq> n_wlan_bssid b)"

definition members_of :: "wheap \<Rightarrow> nat list \<Rightarrow> uwifi_node list" where
  "members_of h is = map (\<lambda>i. the (node_at h i)) is"

lemma two_in_insert:
  "(\<And>a b. R a b \<Longrightarrow> R b a) \<Longrightarrow> (\<And>a. \<not> R a a) \<Longrightarrow>
    (\<exists>a \<in> insert n A. \<exists>b \<in> insert n A. R a b) \<longleftrightarrow> (\<exists>a \<in> A. \<exists>b \<in> A. R a b) \<or> (\<exists>a \<in> A. R a n)"
  by blast

lemma split_step_counts:
  "counts_for_split n \<Longrightarrow> split_step n (l, s) =
     (Some (n_wlan_bssid n), if l \<noteq> None \<and> l \<noteq> Some (n_wlan_bssid n) then 1 else s)"
  "\<not> counts_for_split n \<Longrightarrow> split_step n st = st"
  by (cases st; simp add: split_step_def counts_for_split_def)+

text \<open>The loop compares neighbours only, and that decides the existence of two different ones.\<close>

lemma split_fold:
  "fold split_step ns (None, 0) =
     (let cs = filter counts_for_split ns in
      (if cs = [] then None else Some (n_wlan_bssid (last cs)), if split_nodes ns then 1 else 0))"
proof (induction ns rule: rev_induct)
  case Nil
  then show ?case by (simp add: split_nodes_def)
next
  case (snoc n ns)
  show ?case
  proof (cases "counts_for_split n")
    case False
    then have "split_nodes (ns @ [n]) = split_nodes ns" by (auto simp: split_nodes_def)
    with False snoc show ?thesis by (simp add: split_step_counts)
  next
    case True
    let ?cs = "filter counts_for_split ns"
    have step: "fold split_step (ns @ [n]) (None, 0) = (Some (n_wlan_bssid n),
        if ?cs \<noteq> [] \<and> n_wlan_bssid (last ?cs) \<noteq> n_wlan_bssid n then 1 else if split_nodes ns then 1 else 0)"
      using snoc True by (cases "?cs = []") (simp_all add: split_step_counts Let_def)
    have ex: "split_nodes (ns @ [n]) \<longleftrightarrow> split_nodes ns \<or> (\<exists>a \<in> set ?cs. n_wlan_bssid a \<noteq> n_wlan_bssid n)"
    proof -
      let ?R = "\<lambda>a b. counts_for_split a \<and> counts_for_split b \<and> n_wlan_bssid a \<noteq> n_wlan_bssid b"
      have "(\<exists>a \<in> insert n (set ns). \<exists>b \<in> insert n (set ns). ?R a b) \<longleftrightarrow>
          (\<exists>a \<in> set ns. \<exists>b \<in> set ns. ?R a b) \<or> (\<exists>a \<in> set ns. ?R a n)"
        by (rule two_in_insert, metis, simp)
      moreover have "set (ns @ [n]) = insert n (set ns)" by simp
      moreover have "(\<exists>a \<in> set ns. ?R a n) \<longleftrightarrow> (\<exists>a \<in> set ?cs. n_wlan_bssid a \<noteq> n_wlan_bssid n)"
        using True by auto
      ultimately show ?thesis unfolding split_nodes_def by simp
    qed
    have "split_nodes (ns @ [n]) \<longleftrightarrow> split_nodes ns \<or> (?cs \<noteq> [] \<and> n_wlan_bssid (last ?cs) \<noteq> n_wlan_bssid n)"
    proof (cases "split_nodes ns \<or> ?cs = []")
      case True
      with ex show ?thesis by (metis empty_iff empty_set)
    next
      case False
      then have l: "last ?cs \<in> set ?cs" by (intro last_in_set) simp
      have "n_wlan_bssid a = n_wlan_bssid (last ?cs)" if "a \<in> set ?cs" for a
        using False that l unfolding split_nodes_def set_filter by blast
      with ex False l show ?thesis by metis
    qed
    with step True show ?thesis by (simp add: Let_def)
  qed
qed

lemma split_loop:
  "\<forall>i \<in> set is. node_at h i \<noteq> None \<Longrightarrow>
     foldM (\<lambda>a st. do { i \<leftarrow> essid_node a; n \<leftarrow> node_at h i; Some (split_step n st) }) (map NEssid is) st =
     Some (fold split_step (members_of h is) st)"
  by (induction "is" arbitrary: st) (auto simp: members_of_def)

lemma members_live:
  "heap_rep h T \<Longrightarrow> e \<in> set (t_essids T) \<Longrightarrow> \<forall>i \<in> set (t_members T e). node_at h i \<noteq> None"
  by (auto simp: members_iff essid_of_def bind_conv)

lemma word_small: "n < 2 ^ 32 \<Longrightarrow> (word_of_nat n :: u32) = word_of_nat k \<longleftrightarrow> n = k" if "k < 2 ^ 32" for n k
  using that by (simp add: word_of_nat_eq_iff take_bit_nat_eq_self)

lemma word_small_le_1: "n < 2 ^ 32 \<Longrightarrow> (word_of_nat n :: u32) \<le> 1 \<longleftrightarrow> n \<le> 1"
  by (simp add: word_le_nat_alt unsigned_of_nat take_bit_nat_eq_self)

lemma split_status_run:
  assumes T: "heap_rep h T" and e: "essid_at h e = Some x" and len: "length (t_members T e) < 2 ^ 32"
  shows "update_essid_split_status e h = Some (h\<lparr>essid_at := (essid_at h)(e \<mapsto>
    x\<lparr>e_split := (if split_nodes (members_of h (t_members T e)) then 1 else 0)\<rparr>)\<rparr>)"
proof -
  let ?ms = "t_members T e"
  have el: "e \<in> set (t_essids T)" using T e by (auto simp: essid_in)
  have num: "e_num_nodes x = word_of_nat (length ?ms)" using T e by (simp add: heap_rep_def counts_ok_def)
  have lst: "is_list (links h) (ENodes e) (map NEssid ?ms)" by (rule rep_list [OF T]) (simp add: el)
  show ?thesis
  proof (cases "length ?ms \<le> 1")
    case True
    then have "\<not> split_nodes (members_of h ?ms)"
      by (cases ?ms) (auto simp: split_nodes_def members_of_def)
    moreover have "e_num_nodes x \<le> 1" using True num len by (simp only: word_small_le_1)
    ultimately show ?thesis using e by (simp add: update_essid_split_status_def heap_simps)
  next
    case False
    then have "\<not> e_num_nodes x \<le> 1" using num len by (simp only: word_small_le_1 not_False_eq_True)
    then show ?thesis using e split_loop [OF members_live [OF T el]]
      by (simp add: update_essid_split_status_def heap_simps for_each_list [OF lst] split_fold Let_def)
  qed
qed


subsection \<open>The invariant of the tables\<close>

definition names_ok :: "wheap \<Rightarrow> bool" where
  "names_ok h \<longleftrightarrow> (\<forall>e x. essid_at h e = Some x \<longrightarrow> name_array (e_essid x)) \<and>
     (\<forall>e f x y. essid_at h e = Some x \<longrightarrow> essid_at h f = Some y \<longrightarrow>
        cstr (e_essid x) = cstr (e_essid y) \<longrightarrow> e = f)"

definition macs_ok :: "wheap \<Rightarrow> bool" where
  "macs_ok h \<longleftrightarrow> (\<forall>i n. node_at h i = Some n \<longrightarrow>
        length (n_wlan_src n) = 6 \<and> length (n_wlan_bssid n) = 6 \<and> MAC_NOT_EMPTY (n_wlan_src n)) \<and>
     (\<forall>i j n m. node_at h i = Some n \<longrightarrow> node_at h j = Some m \<longrightarrow> n_wlan_src n = n_wlan_src m \<longrightarrow> i = j)"

text \<open>
  Between operations: the represented lists hold all nodes and all ESSIDs in memory, no ESSID
  is without nodes, no two nodes have the same address and no two ESSIDs the same name.
\<close>

definition tables_ok :: "wheap \<Rightarrow> tables \<Rightarrow> bool" where
  "tables_ok h T \<longleftrightarrow> heap_rep h T \<and> set (t_nodes T) = t_live T \<and>
     (\<forall>e \<in> set (t_essids T). t_members T e \<noteq> []) \<and> macs_ok h \<and> names_ok h"

lemma tables_okD:
  assumes "tables_ok h T"
  shows "heap_rep h T" "set (t_nodes T) = t_live T" "macs_ok h" "names_ok h"
    "\<And>e. e \<in> set (t_essids T) \<Longrightarrow> t_members T e \<noteq> []"
  using assms by (simp_all add: tables_ok_def)

text \<open>The number of nodes bounds the length of the lists of nodes.\<close>

definition few_nodes :: "wheap \<Rightarrow> bool" where
  "few_nodes h \<longleftrightarrow> finite (dom (node_at h)) \<and> card (dom (node_at h)) < 2 ^ 32 - 1"

lemma members_bound:
  assumes T: "heap_rep h T" and "few_nodes h" "e \<in> set (t_essids T)"
  shows "length (t_members T e) < 2 ^ 32 - 1"
proof -
  have "set (t_members T e) \<subseteq> dom (node_at h)"
    using essid_of_live [OF T] T assms(3) by (auto simp: members_iff heap_rep_def)
  then have "card (set (t_members T e)) \<le> card (dom (node_at h))"
    using assms(2) by (intro card_mono) (simp_all add: few_nodes_def)
  then show ?thesis using assms(2) distinct_members [OF T assms(3)] by (simp add: few_nodes_def distinct_card)
qed

lemma names_ok_sub:
  assumes "names_ok h" "\<And>e x'. essid_at h' e = Some x' \<Longrightarrow> \<exists>x. essid_at h e = Some x \<and> e_essid x = e_essid x'"
  shows "names_ok h'"
  unfolding names_ok_def
proof (intro conjI allI impI)
  fix e x assume "essid_at h' e = Some x"
  from assms(2) [OF this] assms(1) show "name_array (e_essid x)" unfolding names_ok_def by metis
next
  fix e f x y assume "essid_at h' e = Some x" "essid_at h' f = Some y" "cstr (e_essid x) = cstr (e_essid y)"
  with assms(2) [of e x] assms(2) [of f y] assms(1) show "e = f" unfolding names_ok_def by metis
qed

lemma macs_ok_sub:
  assumes "macs_ok h" "\<And>i n'. node_at h' i = Some n' \<Longrightarrow> \<exists>n. node_at h i = Some n \<and>
      n_wlan_src n = n_wlan_src n' \<and> n_wlan_bssid n = n_wlan_bssid n'"
  shows "macs_ok h'"
  unfolding macs_ok_def
proof (intro conjI allI impI)
  fix i n assume "node_at h' i = Some n"
  from assms(2) [OF this] assms(1) show "length (n_wlan_src n) = 6" "length (n_wlan_bssid n) = 6"
    "MAC_NOT_EMPTY (n_wlan_src n)" unfolding macs_ok_def by metis+
next
  fix i j n m assume "node_at h' i = Some n" "node_at h' j = Some m" "n_wlan_src n = n_wlan_src m"
  with assms(2) [of i n] assms(2) [of j m] assms(1) show "i = j" unfolding macs_ok_def by metis
qed

subsection \<open>Removing a node from its ESSID\<close>

definition without_member :: "nat \<Rightarrow> nat \<Rightarrow> tables \<Rightarrow> tables" where
  "without_member i e T =
    T\<lparr>t_essids := (if t_members T e = [i] then remove1 e (t_essids T) else t_essids T),
      t_members := (t_members T)(e := remove1 i (t_members T e))\<rparr>"

lemma without_member_rest [simp]:
  "t_live (without_member i e T) = t_live T" "t_nodes (without_member i e T) = t_nodes T"
  "t_stations (without_member i e T) = t_stations T"
  "t_members (without_member i e T) = (t_members T)(e := remove1 i (t_members T e))"
  by (simp_all add: without_member_def)

lemma without_member_nonempty:
  assumes "k \<in> set (t_essids (without_member i e T))" "k \<noteq> e \<Longrightarrow> k \<in> set (t_essids T) \<Longrightarrow> t_members T k \<noteq> []"
    "i \<in> set (t_members T e)" "distinct (t_essids T)"
  shows "t_members (without_member i e T) k \<noteq> []"
proof (cases "k = e")
  case True
  with assms(1,4) have "t_members T e \<noteq> [i]" by (auto simp: without_member_def split: if_splits)
  with assms(3) have "remove1 i (t_members T e) \<noteq> []"
    by (cases "t_members T e") (auto split: if_splits)
  with True show ?thesis by simp
next
  case False
  with assms(1) have "k \<in> set (t_essids T)"
    by (auto simp: without_member_def split: if_splits dest: notin_set_remove1)
  with False assms(2) show ?thesis by simp
qed

lemma remove_node_run:
  assumes T: "heap_rep h T" and i: "node_at h i = Some n" "n_essid n = Some e"
    and len: "length (t_members T e) < 2 ^ 32"
  obtains h' where "uwifi_essids_remove_node i h = Some h'" "heap_rep h' (without_member i e T)"
    "node_at h' = (node_at h)(i \<mapsto> n\<lparr>n_essid := None\<rparr>)"
    "\<And>k x'. essid_at h' k = Some x' \<Longrightarrow> \<exists>x. essid_at h k = Some x \<and> e_essid x = e_essid x' \<and> (k \<noteq> e \<longrightarrow> x = x')"
    "\<And>x'. essid_at h' e = Some x' \<Longrightarrow> t_members T e \<noteq> [i] \<and>
       (e_split x' = 1 \<longleftrightarrow> split_nodes (members_of h' (remove1 i (t_members T e))))"
proof -
  let ?ms = "t_members T e" and ?T1 = "T\<lparr>t_members := (t_members T)(e := remove1 i (t_members T e))\<rparr>"
  have el: "e \<in> set (t_essids T)" using essid_live [OF T, of i e] i by simp
  then obtain x where x: "essid_at h e = Some x" using essid_in [OF T] by blast
  have mem: "i \<in> set ?ms" using T el i by (simp add: members_iff)
  obtain s where s: "cc_list_del_from (links h) (ENodes e) (NEssid i) = Some s"
    "heap_rep (h\<lparr>links := s, node_at := (node_at h)(i \<mapsto> n\<lparr>n_essid := None\<rparr>),
        essid_at := (essid_at h)(e \<mapsto> x\<lparr>e_num_nodes := e_num_nodes x - 1\<rparr>)\<rparr>) ?T1"
    by (rule rep_leave_essid [OF T i x])
  define h1 where "h1 = h\<lparr>links := s, node_at := (node_at h)(i \<mapsto> n\<lparr>n_essid := None\<rparr>),
        essid_at := (essid_at h)(e \<mapsto> x\<lparr>e_num_nodes := e_num_nodes x - 1\<rparr>)\<rparr>"
  have h1: "heap_rep h1 ?T1" "node_at h1 = (node_at h)(i \<mapsto> n\<lparr>n_essid := None\<rparr>)"
    "essid_at h1 = (essid_at h)(e \<mapsto> x\<lparr>e_num_nodes := e_num_nodes x - 1\<rparr>)"
    using s(2) by (simp_all add: h1_def)
  have run: "uwifi_essids_remove_node i h =
      (if e_num_nodes x - 1 = 0 then on_links (\<lambda>s. cc_list_del s (EList e)) h1 \<bind> free_essid e
       else update_essid_split_status e h1)"
    using i x s(1) by (simp add: uwifi_essids_remove_node_def heap_simps h1_def)
  obtain k where k: "length ?ms = Suc k" using length_pos_if_in_set [OF mem] gr0_conv_Suc by auto
  have "e_num_nodes x - 1 = word_of_nat k" using T x k by (simp add: heap_rep_def counts_ok_def)
  then have "e_num_nodes x - 1 = 0 \<longleftrightarrow> k = 0" using word_small [of 0 k] len k by simp
  moreover have "k = 0 \<longleftrightarrow> ?ms = [i]" using mem k by (cases ?ms) auto
  ultimately have zero: "e_num_nodes x - 1 = 0 \<longleftrightarrow> ?ms = [i]" by (rule trans)
  show thesis
  proof (cases "?ms = [i]")
    case True
    have "e \<in> set (t_essids ?T1)" "t_members ?T1 e = []" using el True by simp_all
    from rep_free_essid [OF h1(1) this] obtain t h' where f: "cc_list_del (links h1) (EList e) = Some t"
      "free_essid e (h1\<lparr>links := t\<rparr>) = Some h'" "node_at h' = node_at h1" "essid_at h' = (essid_at h1)(e := None)"
      "heap_rep h' (?T1\<lparr>t_essids := remove1 e (t_essids ?T1)\<rparr>)" by blast
    have "?T1\<lparr>t_essids := remove1 e (t_essids ?T1)\<rparr> = without_member i e T"
      using True by (simp add: without_member_def)
    moreover have "uwifi_essids_remove_node i h = Some h'" using run zero True f(1,2) by (simp add: heap_simps)
    ultimately show thesis using f(3-5) h1 by (intro that) (auto split: if_splits)
  next
    case False
    have x1: "essid_at h1 e = Some (x\<lparr>e_num_nodes := e_num_nodes x - 1\<rparr>)" by (simp add: h1)
    have "length (t_members ?T1 e) < 2 ^ 32" using len by (auto simp: length_remove1)
    note sp = split_status_run [OF h1(1) x1 this]
    define x2 where "x2 = x\<lparr>e_num_nodes := e_num_nodes x - 1, e_split :=
        (if split_nodes (members_of h1 (remove1 i ?ms)) then 1 else 0)\<rparr>"
    define h' where "h' = h1\<lparr>essid_at := (essid_at h1)(e \<mapsto> x2)\<rparr>"
    have "uwifi_essids_remove_node i h = Some h'" using run zero False sp by (simp add: h'_def x2_def)
    moreover have "heap_rep h' ?T1"
      unfolding h'_def by (rule rep_upd_essid [OF h1(1) x1]) (simp add: x2_def)
    moreover have "?T1 = without_member i e T" using False by (simp add: without_member_def)
    moreover have "members_of h' = members_of h1" by (simp add: members_of_def h'_def fun_eq_iff)
    ultimately show thesis using False h1(2,3) x
      by (intro that [of h']) (auto simp: h'_def x2_def split: if_splits)
  qed
qed


subsection \<open>Entering a node in an ESSID\<close>

lemma few_nodes_cong: "dom (node_at h') = dom (node_at h) \<Longrightarrow> few_nodes h' = few_nodes h"
  by (simp add: few_nodes_def)

text \<open>The last two steps, for a node that is a member already or belongs to no ESSID.\<close>

definition nonempty_but :: "nat \<Rightarrow> tables \<Rightarrow> bool" where
  "nonempty_but e T \<longleftrightarrow> (\<forall>k \<in> set (t_essids T). k \<noteq> e \<longrightarrow> t_members T k \<noteq> [])"

definition entered :: "wheap \<Rightarrow> nat \<Rightarrow> nat \<Rightarrow> tables \<Rightarrow> wheap \<Rightarrow> tables \<Rightarrow> bool" where
  "entered h i e T h' T' \<longleftrightarrow> heap_rep h' T' \<and>
     node_at h' = (node_at h)(i := map_option (\<lambda>n. n\<lparr>n_essid := Some e\<rparr>) (node_at h i)) \<and>
     t_live T' = t_live T \<and> t_nodes T' = t_nodes T \<and> t_stations T' = t_stations T \<and>
     (\<forall>k x'. essid_at h' k = Some x' \<longrightarrow> (\<exists>x. essid_at h k = Some x \<and> e_essid x = e_essid x')) \<and>
     (\<exists>x'. essid_at h' e = Some x' \<and> (e_split x' = 1 \<longleftrightarrow> split_nodes (members_of h' (t_members T' e)))) \<and>
     (nonempty_but e T \<longrightarrow> (\<forall>k \<in> set (t_essids T'). t_members T' k \<noteq> []))"

lemma entered_split:
  assumes T: "heap_rep h T" and few: "few_nodes h" and i: "node_at h i = Some n" "n_essid n = Some e"
    and e: "essid_at h e = Some x"
  shows "\<exists>h'. update_essid_split_status e h = Some h' \<and> entered h i e T h' T"
proof -
  have el: "e \<in> set (t_essids T)" using T e by (auto simp: essid_in)
  have mem: "i \<in> set (t_members T e)" using T el i by (simp add: members_iff)
  have "length (t_members T e) < 2 ^ 32" using members_bound [OF T few el] by simp
  note sp = split_status_run [OF T e this]
  define x2 where "x2 = x\<lparr>e_split := (if split_nodes (members_of h (t_members T e)) then 1 else 0)\<rparr>"
  let ?h = "h\<lparr>essid_at := (essid_at h)(e \<mapsto> x2)\<rparr>"
  have "heap_rep ?h T" by (rule rep_upd_essid [OF T e]) (simp add: x2_def)
  moreover have "members_of ?h = members_of h" by (simp add: members_of_def fun_eq_iff)
  moreover have "node_at h = (node_at h)(i \<mapsto> n\<lparr>n_essid := Some e\<rparr>)" using i by (auto simp: fun_eq_iff)
  moreover have "t_members T k \<noteq> []" if "nonempty_but e T" "k \<in> set (t_essids T)" for k
    using that mem by (cases "k = e") (auto simp: nonempty_but_def)
  ultimately have "entered h i e T ?h T"
    using i e by (auto simp: entered_def x2_def)
  with sp show ?thesis by (auto simp: x2_def)
qed

lemma entered_from:
  assumes "entered h1 i e T1 h' T'" "node_at h i = Some n" "node_at h1 = (node_at h)(i \<mapsto> m)"
    "m\<lparr>n_essid := Some e\<rparr> = n\<lparr>n_essid := Some e\<rparr>"
    "t_live T1 = t_live T" "t_nodes T1 = t_nodes T" "t_stations T1 = t_stations T"
    "\<And>k x'. essid_at h1 k = Some x' \<Longrightarrow> \<exists>x. essid_at h k = Some x \<and> e_essid x = e_essid x'"
    "nonempty_but e T \<Longrightarrow> nonempty_but e T1"
  shows "entered h i e T h' T'"
proof -
  note E = assms(1) [unfolded entered_def]
  have "node_at h' = (node_at h)(i := map_option (\<lambda>n. n\<lparr>n_essid := Some e\<rparr>) (node_at h i))"
    using E assms(2-4) by simp
  moreover have "\<exists>x. essid_at h k = Some x \<and> e_essid x = e_essid x'" if "essid_at h' k = Some x'" for k x'
  proof -
    from E that obtain y where "essid_at h1 k = Some y" "e_essid y = e_essid x'" by blast
    with assms(8) [of k y] show ?thesis by auto
  qed
  ultimately show ?thesis
    using E assms(5-7,9) unfolding entered_def by (elim conjE, intro conjI) (assumption | simp)+
qed

lemma entered_join:
  assumes T: "heap_rep h T" and few: "few_nodes h" and i: "node_at h i = Some n" "n_essid n = None"
    and e: "essid_at h e = Some x"
  shows "\<exists>h' T'. (do {
              h \<leftarrow> on_links (\<lambda>s. cc_list_add_tail s (ENodes e) (NEssid i)) h;
              h \<leftarrow> upd_essid e (\<lambda>x. x\<lparr>e_num_nodes := e_num_nodes x + 1\<rparr>) h;
              h \<leftarrow> upd_node i (\<lambda>n. n\<lparr>n_essid := Some e\<rparr>) h;
              update_essid_split_status e h }) = Some h' \<and> entered h i e T h' T'"
proof -
  obtain s where s: "cc_list_add_tail (links h) (ENodes e) (NEssid i) = Some s"
    "heap_rep (h\<lparr>links := s, node_at := (node_at h)(i \<mapsto> n\<lparr>n_essid := Some e\<rparr>),
        essid_at := (essid_at h)(e \<mapsto> x\<lparr>e_num_nodes := e_num_nodes x + 1\<rparr>)\<rparr>)
       (T\<lparr>t_members := (t_members T)(e := t_members T e @ [i])\<rparr>)"
    by (rule rep_join_essid [OF T i e])
  define h1 where "h1 = h\<lparr>links := s, node_at := (node_at h)(i \<mapsto> n\<lparr>n_essid := Some e\<rparr>),
        essid_at := (essid_at h)(e \<mapsto> x\<lparr>e_num_nodes := e_num_nodes x + 1\<rparr>)\<rparr>"
  let ?T1 = "T\<lparr>t_members := (t_members T)(e := t_members T e @ [i])\<rparr>"
  have h1: "heap_rep h1 ?T1" "node_at h1 i = Some (n\<lparr>n_essid := Some e\<rparr>)"
    "essid_at h1 e = Some (x\<lparr>e_num_nodes := e_num_nodes x + 1\<rparr>)"
    using s(2) by (simp_all add: h1_def)
  have "dom (node_at h1) = dom (node_at h)" using i by (auto simp: h1_def)
  from few_nodes_cong [OF this] few have few1: "few_nodes h1" by (rule iffD2)
  from entered_split [OF h1(1) few1 h1(2) _ h1(3)] obtain h' where
    h': "update_essid_split_status e h1 = Some h'" "entered h1 i e ?T1 h' ?T1" by auto
  have "entered h i e T h' ?T1"
    by (rule entered_from [OF h'(2) i(1), where m = "n\<lparr>n_essid := Some e\<rparr>"]) (use e in \<open>auto simp: h1_def nonempty_but_def split: if_splits\<close>)
  moreover have "do {
        h \<leftarrow> on_links (\<lambda>s. cc_list_add_tail s (ENodes e) (NEssid i)) h;
        h \<leftarrow> upd_essid e (\<lambda>x. x\<lparr>e_num_nodes := e_num_nodes x + 1\<rparr>) h;
        h \<leftarrow> upd_node i (\<lambda>n. n\<lparr>n_essid := Some e\<rparr>) h;
        update_essid_split_status e h } = Some h'"
  proof -
    have "h\<lparr>links := s, essid_at := (essid_at h)(e \<mapsto> x\<lparr>e_num_nodes := e_num_nodes x + 1\<rparr>),
        node_at := (node_at h)(i \<mapsto> n\<lparr>n_essid := Some e\<rparr>)\<rparr> = h1" by (simp add: h1_def)
    then show ?thesis using s(1) e i h'(1) by (simp add: heap_simps)
  qed
  ultimately show ?thesis by blast
qed

lemma enter_run:
  assumes T: "heap_rep h T" and few: "few_nodes h" and i: "node_at h i = Some n" and e: "essid_at h e = Some x"
  shows "\<exists>h' T'. essid_enter i e h = Some h' \<and> entered h i e T h' T'"
proof (cases "n_essid n")
  case None
  from entered_join [OF T few i None e] show ?thesis using i None
    by (simp add: essid_enter_def)
next
  case (Some f)
  show ?thesis
  proof (cases "f = e")
    case True
    with Some have "n_essid n = Some e" by simp
    from entered_split [OF T few i this e] show ?thesis using i Some True
      by (auto simp: essid_enter_def)
  next
    case False
    have fl: "f \<in> set (t_essids T)" using essid_live [OF T, of i f] i Some by simp
    have "length (t_members T f) < 2 ^ 32" using members_bound [OF T few fl] by simp
    from remove_node_run [OF T i Some this] obtain h1 where
      r: "uwifi_essids_remove_node i h = Some h1" "heap_rep h1 (without_member i f T)"
        "node_at h1 = (node_at h)(i \<mapsto> n\<lparr>n_essid := None\<rparr>)"
        "\<And>k x'. essid_at h1 k = Some x' \<Longrightarrow> \<exists>x. essid_at h k = Some x \<and> e_essid x = e_essid x' \<and> (k \<noteq> f \<longrightarrow> x = x')"
      by metis
    have "e \<in> set (t_essids T)" using T e by (auto simp: essid_in)
    with False have "e \<in> set (t_essids (without_member i f T))"
      by (auto simp: without_member_def in_set_remove1)
    then obtain x1 where x1: "essid_at h1 e = Some x1" using essid_in [OF r(2)] by blast
    have i1: "node_at h1 i = Some (n\<lparr>n_essid := None\<rparr>)" "n_essid (n\<lparr>n_essid := None\<rparr>) = None"
      using r(3) by simp_all
    have "dom (node_at h1) = dom (node_at h)" using i r(3) by auto
    from few_nodes_cong [OF this] few have few1: "few_nodes h1" by (rule iffD2)
    from entered_join [OF r(2) few1 i1 x1] obtain h' T' where
      h': "(do {
              h \<leftarrow> on_links (\<lambda>s. cc_list_add_tail s (ENodes e) (NEssid i)) h1;
              h \<leftarrow> upd_essid e (\<lambda>x. x\<lparr>e_num_nodes := e_num_nodes x + 1\<rparr>) h;
              h \<leftarrow> upd_node i (\<lambda>n. n\<lparr>n_essid := Some e\<rparr>) h;
              update_essid_split_status e h }) = Some h'" "entered h1 i e (without_member i f T) h' T'" by blast
    have mem: "i \<in> set (t_members T f)" using members_iff [OF T fl, of i] i Some by simp
    have ne: "nonempty_but e (without_member i f T)" if "nonempty_but e T"
      using without_member_nonempty [of _ i f T] mem distinct_essids [OF T] that
      by (auto simp: nonempty_but_def simp del: without_member_rest)
    have "entered h i e T h' T'"
      by (rule entered_from [OF h'(2) i r(3)]) (use ne in \<open>auto dest: r(4)\<close>)
    moreover have "essid_enter i e h = Some h'"
      using i Some False r(1) i1 h'(1) by (simp add: essid_enter_def)
    ultimately show ?thesis by blast
  qed
qed


subsection \<open>Looking up and updating\<close>

lemma find_in_list:
  assumes L: "is_list s H (map f is)" and P: "\<And>i. i \<in> set is \<Longrightarrow> P (f i) = Some (q i)"
  obtains (miss) "cc_list_find s P H = Some H" "\<And>i. i \<in> set is \<Longrightarrow> \<not> q i"
    | (hit) i where "cc_list_find s P H = Some (f i)" "i \<in> set is" "q i" "f i \<noteq> H"
proof -
  define g where "g a = (P a = Some True)" for a
  have P': "\<forall>a \<in> set (map f is). P a = Some (g a)" using P by (auto simp: g_def)
  note run = find_list [OF L P']
  show thesis
  proof (cases "List.find g (map f is)")
    case None
    then have "\<not> q i" if "i \<in> set is" for i using that P [OF that] by (auto simp: find_None_iff g_def)
    with run None miss show thesis by simp
  next
    case (Some a)
    then obtain k where k: "k < length is" "a = f (is ! k)" "g a" by (auto simp: find_Some_iff)
    then have m: "is ! k \<in> set is" by simp
    then have "f (is ! k) \<noteq> H" using is_list_distinct [OF L] m by auto
    moreover have "q (is ! k)" using k P [OF m] by (simp add: g_def)
    moreover have "cc_list_find s P H = Some (f (is ! k))" using run Some k(2) by simp
    ultimately show thesis using m by (intro hit [of "is ! k"])
  qed
qed

lemma find_essid_list:
  assumes L: "is_list (links h) ESSIDS (map EList es)" and es: "\<And>e. e \<in> set es \<longleftrightarrow> (\<exists>x. essid_at h e = Some x)"
    and names: "names_ok h" and s: "name_array s"
  obtains (miss) "find_essid s ESSIDS h = Some ESSIDS" "\<And>e x. essid_at h e = Some x \<Longrightarrow> cstr (e_essid x) \<noteq> cstr s"
    | (hit) e x where "find_essid s ESSIDS h = Some (EList e)" "essid_at h e = Some x" "cstr (e_essid x) = cstr s"
proof -
  let ?P = "\<lambda>a. do { e \<leftarrow> list_essid a; x \<leftarrow> essid_at h e; strncmp_0 WLAN_MAX_SSID_LEN (e_essid x) s }"
  let ?q = "\<lambda>e. cstr (e_essid (the (essid_at h e))) = cstr s"
  have P: "?P (EList e) = Some (?q e)" if el: "e \<in> set es" for e
  proof -
    obtain x where x: "essid_at h e = Some x" using es el by blast
    then have "name_array (e_essid x)" using names by (simp add: names_ok_def)
    with s x show ?thesis by (simp add: name_array_def strncmp_0_cstr)
  qed
  from L P show thesis
  proof (rule find_in_list [where P = ?P and q = ?q])
    assume m: "cc_list_find (links h) ?P ESSIDS = Some ESSIDS" "\<And>e. e \<in> set es \<Longrightarrow> \<not> ?q e"
    have "cstr (e_essid x) \<noteq> cstr s" if "essid_at h e = Some x" for e x
      using m(2) [of e] that es [of e] by auto
    with m(1) miss show thesis unfolding find_essid_def by blast
  next
    fix e assume e: "cc_list_find (links h) ?P ESSIDS = Some (EList e)" "e \<in> set es" "?q e"
    then obtain x where "essid_at h e = Some x" using es by blast
    with e hit show thesis unfolding find_essid_def by simp
  qed
qed

lemma find_essid_run:
  assumes T: "heap_rep h T" and names: "names_ok h" and s: "name_array s"
  obtains (miss) "find_essid s ESSIDS h = Some ESSIDS" "\<And>e x. essid_at h e = Some x \<Longrightarrow> cstr (e_essid x) \<noteq> cstr s"
    | (hit) e x where "find_essid s ESSIDS h = Some (EList e)" "essid_at h e = Some x" "cstr (e_essid x) = cstr s"
  using find_essid_list [OF essids_list [OF T] essid_in [OF T] names s] by metis

lemma entered_tables_ok:
  assumes E: "entered h i e T h' T'" and macs: "macs_ok h" and names: "names_ok h"
    and ns: "set (t_nodes T) = t_live T" and ne: "nonempty_but e T"
  shows "tables_ok h' T'"
proof -
  note E' = E [unfolded entered_def]
  have "macs_ok h'"
  proof (rule macs_ok_sub [OF macs])
    fix j n' assume "node_at h' j = Some n'"
    with E' show "\<exists>n. node_at h j = Some n \<and> n_wlan_src n = n_wlan_src n' \<and> n_wlan_bssid n = n_wlan_bssid n'"
      by (cases "j = i") auto
  qed
  moreover have "names_ok h'" by (rule names_ok_sub [OF names]) (use E' in blast)
  ultimately show ?thesis using E' ns ne by (simp add: tables_ok_def)
qed

definition essid_ignored :: "uwifi_packet \<Rightarrow> bool" where
  "essid_ignored p \<longleftrightarrow> flag_set (phy_flags p) PHY_FLAG_BADFCS \<or> cstr (wlan_essid p) = [] \<or> \<not> essid_relevant p"

lemma essids_update_eq:
  assumes p: "name_array (wlan_essid p)" and r: "\<not> essid_ignored p"
  shows "uwifi_essids_update k ESSIDS (Some p) (Some i) h = do {
      a \<leftarrow> find_essid (wlan_essid p) ESSIDS h;
      (e, h) \<leftarrow> (if a = ESSIDS then new_essid k (wlan_essid p) ESSIDS h
                  else do { e \<leftarrow> list_essid a; Some (e, h) });
      essid_enter i e h }"
proof -
  obtain c cs where c: "wlan_essid p = c # cs" using p by (cases "wlan_essid p") (auto simp: name_array_def)
  have "c = 0 \<longleftrightarrow> cstr (wlan_essid p) = []" using c by (simp add: cstr_def)
  with r c show ?thesis by (simp add: uwifi_essids_update_def essid_ignored_def)
qed

lemma essids_update_run:
  assumes ok: "tables_ok h T" and few: "few_nodes h" and p: "name_array (wlan_essid p)"
    and i: "node_at h i = Some n" and m: "essid_at h e0 = None"
  shows "if essid_ignored p then uwifi_essids_update (Some e0) ESSIDS (Some p) (Some i) h = Some h
    else \<exists>h' T' e x'. uwifi_essids_update (Some e0) ESSIDS (Some p) (Some i) h = Some h' \<and> tables_ok h' T' \<and>
      node_at h' = (node_at h)(i \<mapsto> n\<lparr>n_essid := Some e\<rparr>) \<and> t_nodes T' = t_nodes T \<and>
      t_stations T' = t_stations T \<and> essid_at h' e = Some x' \<and>
      cstr (e_essid x') = cstr (wlan_essid p) \<and> (e_split x' = 1 \<longleftrightarrow> split_nodes (members_of h' (t_members T' e)))"
proof -
  note T = tables_okD [OF ok]
  obtain c cs where c: "wlan_essid p = c # cs" using p by (cases "wlan_essid p") (auto simp: name_array_def)
  have c0: "c = 0 \<longleftrightarrow> cstr (wlan_essid p) = []" using c by (simp add: cstr_def)
  show ?thesis
  proof (cases "essid_ignored p")
    case True
    then show ?thesis using c c0 by (auto simp: uwifi_essids_update_def essid_ignored_def)
  next
    case False
    have run: "uwifi_essids_update (Some e0) ESSIDS (Some p) (Some i) h = do {
        a \<leftarrow> find_essid (wlan_essid p) ESSIDS h;
        (e, h) \<leftarrow> (if a = ESSIDS then new_essid (Some e0) (wlan_essid p) ESSIDS h
                    else do { e \<leftarrow> list_essid a; Some (e, h) });
        essid_enter i e h }"
      by (rule essids_update_eq [OF p False])
    have goal: "\<exists>h' T' x'. essid_enter i e h1 = Some h' \<and> tables_ok h' T' \<and>
        node_at h' = (node_at h)(i \<mapsto> n\<lparr>n_essid := Some e\<rparr>) \<and> t_nodes T' = t_nodes T \<and>
        t_stations T' = t_stations T \<and> essid_at h' e = Some x' \<and>
        cstr (e_essid x') = cstr (wlan_essid p) \<and> (e_split x' = 1 \<longleftrightarrow> split_nodes (members_of h' (t_members T' e)))"
      if h1: "heap_rep h1 T1" "node_at h1 = node_at h" "essid_at h1 e = Some x" "cstr (e_essid x) = cstr (wlan_essid p)"
        "names_ok h1" "nonempty_but e T1" "t_live T1 = t_live T" "t_nodes T1 = t_nodes T" "t_stations T1 = t_stations T"
      for h1 T1 e x
    proof -
      have few1: "few_nodes h1" using few h1(2) by (simp add: few_nodes_def)
      have i1: "node_at h1 i = Some n" using i h1(2) by simp
      from enter_run [OF h1(1) few1 i1 h1(3)] obtain h' T' where
        r: "essid_enter i e h1 = Some h'" "entered h1 i e T1 h' T'" by blast
      have macs: "macs_ok h1" using T(3) h1(2) by (simp add: macs_ok_def)
      have ns: "set (t_nodes T1) = t_live T1" using T(2) h1(7,8) by simp
      have ok': "tables_ok h' T'" by (rule entered_tables_ok [OF r(2) macs h1(5) ns h1(6)])
      note E = r(2) [unfolded entered_def]
      from E obtain x' where x': "essid_at h' e = Some x'"
        "e_split x' = 1 \<longleftrightarrow> split_nodes (members_of h' (t_members T' e))" by blast
      from E x'(1) h1(3) have "e_essid x' = e_essid x" by (metis option.inject)
      with r(1) ok' E x' i1 h1(2,4,8,9) show ?thesis by (intro exI [of _ h'] exI [of _ T'] exI [of _ x']) simp
    qed
    show ?thesis
    proof (rule find_essid_run [OF T(1,4) p])
      assume f: "find_essid (wlan_essid p) ESSIDS h = Some ESSIDS"
        "\<And>e x. essid_at h e = Some x \<Longrightarrow> cstr (e_essid x) \<noteq> cstr (wlan_essid p)"
      obtain cn where cn: "strncpy WLAN_MAX_SSID_LEN (wlan_essid p) = Some cn" "name_array (cn[WLAN_MAX_SSID_LEN - 1 := 0])"
        "cstr (cn[WLAN_MAX_SSID_LEN - 1 := 0]) = cstr (wlan_essid p)" by (rule copied_name [OF p])
      have e0: "e0 \<notin> set (t_essids T)" using m essid_in [OF T(1)] by simp
      obtain h1 where h1: "new_essid (Some e0) (wlan_essid p) ESSIDS h = Some (e0, h1)" "node_at h1 = node_at h"
        "essid_at h1 = (essid_at h)(e0 \<mapsto> zero_essid\<lparr>e_essid := cn[WLAN_MAX_SSID_LEN - 1 := 0]\<rparr>)"
        "heap_rep h1 (T\<lparr>t_essids := t_essids T @ [e0], t_members := (t_members T)(e0 := [])\<rparr>)"
        by (rule rep_new_essid [OF T(1) e0 cn(1)])
      have names: "names_ok h1"
        unfolding names_ok_def
      proof (intro conjI allI impI)
        fix e x assume "essid_at h1 e = Some x"
        then show "name_array (e_essid x)" using h1(3) T(4) cn(2) by (auto simp: names_ok_def split: if_splits)
      next
        fix e f x y assume "essid_at h1 e = Some x" "essid_at h1 f = Some y" "cstr (e_essid x) = cstr (e_essid y)"
        then show "e = f"
          using h1(3) T(4) cn(3) f(2) [of e x] f(2) [of f y] by (cases "e = e0"; cases "f = e0") (auto simp: names_ok_def)
      qed
      have ne: "nonempty_but e0 (T\<lparr>t_essids := t_essids T @ [e0], t_members := (t_members T)(e0 := [])\<rparr>)"
        using T(5) by (auto simp: nonempty_but_def)
      have x0: "essid_at h1 e0 = Some (zero_essid\<lparr>e_essid := cn[WLAN_MAX_SSID_LEN - 1 := 0]\<rparr>)" using h1(3) by simp
      from goal [OF h1(4,2) x0 _ names ne] cn(3) run f(1) h1(1) False show ?thesis by simp blast
    next
      fix e x assume f: "find_essid (wlan_essid p) ESSIDS h = Some (EList e)" "essid_at h e = Some x"
        "cstr (e_essid x) = cstr (wlan_essid p)"
      have "nonempty_but e T" using T(5) by (simp add: nonempty_but_def)
      from goal [OF T(1) _ f(2,3) T(4) this] run f(1) False show ?thesis by simp blast
    qed
  qed
qed

end
