(* ===== verification/Node_Facts.thy ===== *)
theory Node_Facts
  imports Essid_Facts
begin

text \<open>
  What the operations of \<open>core/node.c\<close> do to well-formed tables: each of them returns, keeps
  the invariant \<open>tables_ok\<close> and changes the tables as described.
\<close>

subsection \<open>Finding and changing a node\<close>

lemma find_node_run:
  assumes T: "heap_rep h T"
  obtains (miss) "find_node mac NODES h = Some NODES"
      "\<And>i n. i \<in> set (t_nodes T) \<Longrightarrow> node_at h i = Some n \<Longrightarrow> n_wlan_src n \<noteq> mac"
    | (hit) i n where "find_node mac NODES h = Some (NList i)" "i \<in> set (t_nodes T)" "node_at h i = Some n"
      "n_wlan_src n = mac"
proof -
  let ?P = "\<lambda>a. do { i \<leftarrow> list_node a; n \<leftarrow> node_at h i; Some (n_wlan_src n = mac) }"
  let ?q = "\<lambda>i. n_wlan_src (the (node_at h i)) = mac"
  have ex: "\<exists>n. node_at h i = Some n" if "i \<in> set (t_nodes T)" for i
    using that T by (auto simp: heap_rep_def)
  have P: "?P (NList i) = Some (?q i)" if "i \<in> set (t_nodes T)" for i using ex [OF that] by auto
  from nodes_list [OF T] P show thesis
  proof (rule find_in_list [where P = ?P and q = ?q])
    assume m: "cc_list_find (links h) ?P NODES = Some NODES" "\<And>i. i \<in> set (t_nodes T) \<Longrightarrow> \<not> ?q i"
    then have "n_wlan_src n \<noteq> mac" if "i \<in> set (t_nodes T)" "node_at h i = Some n" for i n
      using that m(2) [of i] by auto
    with m(1) miss show thesis unfolding find_node_def by blast
  next
    fix i assume i: "cc_list_find (links h) ?P NODES = Some (NList i)" "i \<in> set (t_nodes T)" "?q i"
    with ex [OF i(2)] hit show thesis unfolding find_node_def by auto
  qed
qed

lemma touched_ok:
  assumes T: "heap_rep h1 T1" "set (t_nodes T1) = t_live T1" "\<And>e. e \<in> set (t_essids T1) \<Longrightarrow> t_members T1 e \<noteq> []"
      "names_ok h1"
    and i: "node_at h1 i = Some n" and n': "n_ap_node n' = n_ap_node n" "n_essid n' = n_essid n"
    and others: "\<And>j. j \<noteq> i \<Longrightarrow> node_at h1 j = node_at h j" and macs: "macs_ok h"
    and mac: "length (n_wlan_src n') = 6" "MAC_NOT_EMPTY (n_wlan_src n')" "length (n_wlan_bssid n') = 6"
    and fresh: "\<And>j m. j \<noteq> i \<Longrightarrow> node_at h j = Some m \<Longrightarrow> n_wlan_src m \<noteq> n_wlan_src n'"
  shows "tables_ok (h1\<lparr>node_at := (node_at h1)(i \<mapsto> n')\<rparr>) T1"
proof -
  let ?h = "h1\<lparr>node_at := (node_at h1)(i \<mapsto> n')\<rparr>"
  have "heap_rep ?h T1" by (rule rep_upd_node [OF T(1) i n'])
  moreover have "macs_ok ?h"
    unfolding macs_ok_def
  proof (intro conjI allI impI)
    fix j m assume "node_at ?h j = Some m"
    then show "length (n_wlan_src m) = 6" "length (n_wlan_bssid m) = 6" "MAC_NOT_EMPTY (n_wlan_src m)"
      using mac macs others by (cases "j = i"; simp add: macs_ok_def)+
  next
    fix j k m l assume jk: "node_at ?h j = Some m" "node_at ?h k = Some l" "n_wlan_src m = n_wlan_src l"
    show "j = k"
    proof (cases "j = i \<or> k = i")
      case True
      with jk fresh [of j m] fresh [of k l] others [of j] others [of k] show ?thesis
        by (cases "j = i"; cases "k = i") auto
    next
      case False
      with jk others [of j] others [of k] macs show ?thesis by (auto simp: macs_ok_def)
    qed
  qed
  moreover have "names_ok ?h" using T(4) by (simp add: names_ok_def)
  ultimately show ?thesis using T(2,3) by (simp add: tables_ok_def)
qed

text \<open>The fields that the parts of the copy functions leave alone or set.\<close>

lemma node_parts [simp]:
  "n_ap_node (node_std p n) = n_ap_node n" "n_essid (node_std p n) = n_essid n"
  "n_wlan_src (node_std p n) = n_wlan_src n" "n_wlan_bssid (node_std p n) = n_wlan_bssid n"
  "n_last_seen (node_std p n) = n_last_seen n" "n_pkt_count (node_std p n) = n_pkt_count n"
  "n_wlan_mode (node_std p n) = n_wlan_mode n"
  "n_ap_node (node_retries p n) = n_ap_node n" "n_essid (node_retries p n) = n_essid n"
  "n_wlan_src (node_retries p n) = n_wlan_src n" "n_wlan_bssid (node_retries p n) = n_wlan_bssid n"
  "n_last_seen (node_retries p n) = n_last_seen n" "n_pkt_count (node_retries p n) = n_pkt_count n"
  "n_wlan_mode (node_retries p n) = n_wlan_mode n"
  "n_ap_node (node_wep p n) = n_ap_node n" "n_essid (node_wep p n) = n_essid n"
  "n_wlan_src (node_wep p n) = n_wlan_src n" "n_wlan_bssid (node_wep p n) = n_wlan_bssid n"
  "n_last_seen (node_wep p n) = n_last_seen n" "n_pkt_count (node_wep p n) = n_pkt_count n"
  "n_wlan_mode (node_wep p n) = n_wlan_mode n"
  "n_rx_pkt_count (node_wep p n) = n_rx_pkt_count n"
  "n_ap_node (node_signal p n) = n_ap_node n" "n_essid (node_signal p n) = n_essid n"
  "n_wlan_src (node_signal p n) = n_wlan_src n" "n_wlan_bssid (node_signal p n) = n_wlan_bssid n"
  "n_last_seen (node_signal p n) = n_last_seen n" "n_pkt_count (node_signal p n) = n_pkt_count n"
  "n_wlan_mode (node_signal p n) = n_wlan_mode n"
  by (simp_all add: node_std_def node_retries_def node_wep_def node_signal_def)

definition same_identity :: "uwifi_node \<Rightarrow> uwifi_node \<Rightarrow> bool" where
  "same_identity n n' \<longleftrightarrow> n_ap_node n' = n_ap_node n \<and> n_essid n' = n_essid n \<and> n_wlan_src n' = n_wlan_src n \<and>
     n_wlan_bssid n' = n_wlan_bssid n \<and> n_last_seen n' = n_last_seen n \<and> n_pkt_count n' = n_pkt_count n \<and>
     n_rx_pkt_count n' = n_rx_pkt_count n \<and> n_wlan_mode n' = n_wlan_mode n"

lemma guess_channel_run:
  "(\<And>j. n_ap_node n = Some j \<Longrightarrow> node_at h j \<noteq> None) \<Longrightarrow>
     \<exists>n'. node_guess_channel h p n = Some n' \<and> same_identity n n'"
  by (auto simp: node_guess_channel_def same_identity_def)

lemma node_channel_run:
  assumes "\<And>j. n_ap_node n = Some j \<Longrightarrow> node_at h j \<noteq> None"
  shows "\<exists>n'. node_channel h p n = Some n' \<and> same_identity n n'"
  using guess_channel_run [OF assms, where p = p] by (auto simp: node_channel_def same_identity_def)

lemma copy_nodeinfo_run:
  assumes i: "node_at h i = Some n" and ap: "\<And>j. n_ap_node n = Some j \<Longrightarrow> node_at h j \<noteq> None"
  obtains p' n' where "copy_nodeinfo now i p h = Some (p', h\<lparr>node_at := (node_at h)(i \<mapsto> n')\<rparr>)"
    "n_ap_node n' = n_ap_node n" "n_essid n' = n_essid n" "n_wlan_src n' = wlan_ta p"
    "n_wlan_bssid n' = (if MAC_NOT_EMPTY (wlan_bssid p) then wlan_bssid p else n_wlan_bssid n)"
    "n_last_seen n' = now" "n_pkt_count n' = n_pkt_count n + 1"
    "n_wlan_mode n' = (if wlan_mode p \<noteq> 0 then n_wlan_mode n OR wlan_mode p else n_wlan_mode n)"
proof -
  have "\<And>j. n_ap_node (node_common now p n) = Some j \<Longrightarrow> node_at h j \<noteq> None"
    using ap by (simp add: node_common_def)
  from node_channel_run [OF this, where p = p] obtain n1 where
    n1: "node_channel h p (node_common now p n) = Some n1" "same_identity (node_common now p n) n1" by blast
  show thesis
    by (rule that [of "p\<lparr>wlan_retries := i32 (n_wlan_retries_last (node_std p (node_retries p (node_wep p (node_signal p n1)))))\<rparr>"
          "node_std p (node_retries p (node_wep p (node_signal p n1)))"])
      (use i n1 in \<open>simp_all add: copy_nodeinfo_def Let_def same_identity_def node_common_def\<close>)
qed

lemma copy_rx_nodeinfo_run:
  assumes i: "node_at h i = Some n" and ap: "\<And>j. n_ap_node n = Some j \<Longrightarrow> node_at h j \<noteq> None"
  obtains n' where "copy_rx_nodeinfo now i p h = Some (h\<lparr>node_at := (node_at h)(i \<mapsto> n')\<rparr>)"
    "n_ap_node n' = n_ap_node n" "n_essid n' = n_essid n" "n_wlan_src n' = wlan_ra p"
    "n_wlan_bssid n' = (if MAC_NOT_EMPTY (wlan_bssid p) then wlan_bssid p else n_wlan_bssid n)"
    "n_last_seen n' = now" "n_rx_pkt_count n' = n_rx_pkt_count n + 1"
proof -
  have "\<And>j. n_ap_node (rx_common now p n) = Some j \<Longrightarrow> node_at h j \<noteq> None"
    using ap by (simp add: rx_common_def)
  from guess_channel_run [OF this, where p = p] obtain n1 where
    n1: "node_guess_channel h p (rx_common now p n) = Some n1" "same_identity (rx_common now p n) n1" by blast
  show thesis
    by (rule that [of "node_wep p n1"])
      (use i n1 in \<open>simp_all add: copy_rx_nodeinfo_def same_identity_def rx_common_def\<close>)
qed

lemma ap_in_heap: "heap_rep h T \<Longrightarrow> node_at h i = Some n \<Longrightarrow> n_ap_node n = Some j \<Longrightarrow> node_at h j \<noteq> None"
  using ap_live [of h T i j] node_live [of h T j] by auto

subsection \<open>Updates from a packet\<close>

text \<open>
  The entry that an update chooses: the node with the address, or a new one at the end of the
  list when there is none.
\<close>

definition entry_for :: "wheap \<Rightarrow> tables \<Rightarrow> bytes \<Rightarrow> nat \<Rightarrow> nat \<Rightarrow> uwifi_node \<Rightarrow> tables \<Rightarrow> bool" where
  "entry_for h T mac i0 i n T' \<longleftrightarrow>
     (node_at h i = Some n \<and> n_wlan_src n = mac \<and> T' = T) \<or>
     (i = i0 \<and> (\<forall>j m. node_at h j = Some m \<longrightarrow> n_wlan_src m \<noteq> mac) \<and> n = fresh_node \<and>
      T' = T\<lparr>t_live := insert i (t_live T), t_nodes := t_nodes T @ [i], t_stations := (t_stations T)(i := [])\<rparr>)"

lemma update_entry:
  assumes ok: "tables_ok h T" and i0: "node_at h i0 = None" and mac: "length mac = 6" "MAC_NOT_EMPTY mac"
  obtains a i n h1 T1 where "find_node mac NODES h = Some a"
    "(if a = NODES then new_node (Some i0) NODES h else do { i \<leftarrow> list_node a; Some (i, h) }) = Some (i, h1)"
    "entry_for h T mac i0 i n T1" "node_at h1 i = Some n" "essid_at h1 = essid_at h" "heap_rep h1 T1"
    "\<And>n'. n_ap_node n' = n_ap_node n \<Longrightarrow> n_essid n' = n_essid n \<Longrightarrow> n_wlan_src n' = mac \<Longrightarrow>
       length (n_wlan_bssid n') = 6 \<Longrightarrow> tables_ok (h1\<lparr>node_at := (node_at h1)(i \<mapsto> n')\<rparr>) T1"
    "\<And>j. j \<noteq> i \<Longrightarrow> node_at h1 j = node_at h j" "length (n_wlan_bssid n) = 6" "(a = NODES) = (node_at h i = None)"
proof -
  note T = tables_okD [OF ok]
  show thesis
  proof (rule find_node_run [OF T(1), of mac])
    assume f: "find_node mac NODES h = Some NODES"
      "\<And>i n. i \<in> set (t_nodes T) \<Longrightarrow> node_at h i = Some n \<Longrightarrow> n_wlan_src n \<noteq> mac"
    have i0': "i0 \<notin> t_live T" using i0 node_live [OF T(1)] by simp
    obtain h1 where h1: "new_node (Some i0) NODES h = Some (i0, h1)" "essid_at h1 = essid_at h"
      "node_at h1 = (node_at h)(i0 \<mapsto> fresh_node)"
      "heap_rep h1 (T\<lparr>t_live := insert i0 (t_live T), t_nodes := t_nodes T @ [i0], t_stations := (t_stations T)(i0 := [])\<rparr>)"
      by (rule rep_new_node [OF T(1) i0'])
    have none: "n_wlan_src m \<noteq> mac" if "node_at h j = Some m" for j m
      using f(2) [of j m] that T(2) node_live [OF T(1), of j] by simp
    show thesis
    proof (rule that [OF f(1), of i0 h1])
      show "(if NODES = NODES then new_node (Some i0) NODES h else do { i \<leftarrow> list_node NODES; Some (i, h) }) = Some (i0, h1)"
        using h1(1) by simp
      show "entry_for h T mac i0 i0 fresh_node
          (T\<lparr>t_live := insert i0 (t_live T), t_nodes := t_nodes T @ [i0], t_stations := (t_stations T)(i0 := [])\<rparr>)"
        using none by (simp add: entry_for_def)
      fix n' :: uwifi_node assume n': "n_ap_node n' = n_ap_node fresh_node" "n_essid n' = n_essid fresh_node"
        "n_wlan_src n' = mac" "length (n_wlan_bssid n') = 6"
      show "tables_ok (h1\<lparr>node_at := (node_at h1)(i0 \<mapsto> n')\<rparr>)
          (T\<lparr>t_live := insert i0 (t_live T), t_nodes := t_nodes T @ [i0], t_stations := (t_stations T)(i0 := [])\<rparr>)"
      proof (rule touched_ok [OF h1(4) _ _ _ _ n'(1,2)])
        show "names_ok h1" using T(4) h1(2) by (simp add: names_ok_def)
      qed (use T(2,3,5) h1(3) n' mac none in auto)
    qed (use h1 i0 in auto)
  next
    fix i n assume f: "find_node mac NODES h = Some (NList i)" "i \<in> set (t_nodes T)" "node_at h i = Some n"
      "n_wlan_src n = mac"
    have other: "n_wlan_src m \<noteq> mac" if "j \<noteq> i" "node_at h j = Some m" for j m
      using that f(3,4) T(3) unfolding macs_ok_def by blast
    show thesis
    proof (rule that [OF f(1), of i h])
      show "entry_for h T mac i0 i n T" using f by (simp add: entry_for_def)
      fix n' :: uwifi_node assume n': "n_ap_node n' = n_ap_node n" "n_essid n' = n_essid n"
        "n_wlan_src n' = mac" "length (n_wlan_bssid n') = 6"
      show "tables_ok (h\<lparr>node_at := (node_at h)(i \<mapsto> n')\<rparr>) T"
        by (rule touched_ok [OF T(1,2,5,4) f(3) n'(1,2) refl T(3)]) (use n' mac other in auto)
    qed (use T f in \<open>auto simp: macs_ok_def\<close>)
  qed
qed


lemma node_update_run:
  assumes ok: "tables_ok h T" and p: "packet_wf p" and i0: "node_at h i0 = None"
    and used: "\<not> flag_set (phy_flags p) PHY_FLAG_BADFCS" "MAC_NOT_EMPTY (wlan_ta p)"
  shows "\<exists>i n n' p' h' T'. uwifi_node_update now (Some i0) p NODES h = Some (Some i, p', h') \<and> tables_ok h' T' \<and>
    entry_for h T (wlan_ta p) i0 i n T' \<and> node_at h' = (node_at h)(i \<mapsto> n') \<and> essid_at h' = essid_at h \<and>
    n_wlan_src n' = wlan_ta p \<and> n_last_seen n' = now \<and> n_pkt_count n' = n_pkt_count n + 1 \<and>
    n_wlan_bssid n' = (if MAC_NOT_EMPTY (wlan_bssid p) then wlan_bssid p else n_wlan_bssid n) \<and>
    n_wlan_mode n' = (if wlan_mode p \<noteq> 0 then n_wlan_mode n OR wlan_mode p else n_wlan_mode n) \<and>
    n_ap_node n' = n_ap_node n \<and> n_essid n' = n_essid n"
proof -
  have len: "length (wlan_ta p) = 6" "length (wlan_bssid p) = 6" using p by (simp_all add: packet_wf_def)
  from ok i0 len(1) used(2) show ?thesis
  proof (rule update_entry)
    fix a i n h1 T1
    assume f: "find_node (wlan_ta p) NODES h = Some a"
      and e: "(if a = NODES then new_node (Some i0) NODES h else do { i \<leftarrow> list_node a; Some (i, h) }) = Some (i, h1)"
      and ent: "entry_for h T (wlan_ta p) i0 i n T1" and n: "node_at h1 i = Some n" and es: "essid_at h1 = essid_at h"
      and T1: "heap_rep h1 T1" and b: "length (n_wlan_bssid n) = 6"
      and fin: "\<And>n'. n_ap_node n' = n_ap_node n \<Longrightarrow> n_essid n' = n_essid n \<Longrightarrow> n_wlan_src n' = wlan_ta p \<Longrightarrow>
        length (n_wlan_bssid n') = 6 \<Longrightarrow> tables_ok (h1\<lparr>node_at := (node_at h1)(i \<mapsto> n')\<rparr>) T1"
      and oth: "\<And>j. j \<noteq> i \<Longrightarrow> node_at h1 j = node_at h j"
    obtain p' n' where c: "copy_nodeinfo now i p h1 = Some (p', h1\<lparr>node_at := (node_at h1)(i \<mapsto> n')\<rparr>)"
      "n_ap_node n' = n_ap_node n" "n_essid n' = n_essid n" "n_wlan_src n' = wlan_ta p"
      "n_wlan_bssid n' = (if MAC_NOT_EMPTY (wlan_bssid p) then wlan_bssid p else n_wlan_bssid n)"
      "n_last_seen n' = now" "n_pkt_count n' = n_pkt_count n + 1"
      "n_wlan_mode n' = (if wlan_mode p \<noteq> 0 then n_wlan_mode n OR wlan_mode p else n_wlan_mode n)"
      by (rule copy_nodeinfo_run [OF n ap_in_heap [OF T1 n]])
    let ?h = "h1\<lparr>node_at := (node_at h1)(i \<mapsto> n')\<rparr>"
    have run: "uwifi_node_update now (Some i0) p NODES h = Some (Some i, p', ?h)"
      using used c(1) unfolding uwifi_node_update_def f by (simp add: e)
    have "tables_ok ?h T1" using c len(2) b by (intro fin) simp_all
    moreover have "node_at ?h = (node_at h)(i \<mapsto> n')" using oth by (auto simp: fun_eq_iff)
    ultimately show ?thesis using run ent es c by (intro exI conjI) (assumption | simp)+
  qed
qed

lemma node_update_receiver_run:
  assumes ok: "tables_ok h T" and p: "packet_wf p" and i0: "node_at h i0 = None"
    and used: "\<not> flag_set (phy_flags p) PHY_FLAG_BADFCS" "MAC_NOT_EMPTY (wlan_ra p)" "\<not> MAC_BCAST (wlan_ra p)"
  shows "\<exists>i n n' h' T'. uwifi_node_update_receiver now (Some i0) p NODES h = Some (Some i, h') \<and> tables_ok h' T' \<and>
    entry_for h T (wlan_ra p) i0 i n T' \<and> node_at h' = (node_at h)(i \<mapsto> n') \<and> essid_at h' = essid_at h \<and>
    n_wlan_src n' = wlan_ra p \<and> n_last_seen n' = now \<and> n_rx_pkt_count n' = n_rx_pkt_count n + 1 \<and>
    n_ap_node n' = n_ap_node n \<and> n_essid n' = n_essid n"
proof -
  have len: "length (wlan_ra p) = 6" "length (wlan_bssid p) = 6" using p by (simp_all add: packet_wf_def)
  from ok i0 len(1) used(2) show ?thesis
  proof (rule update_entry)
    fix a i n h1 T1
    assume f: "find_node (wlan_ra p) NODES h = Some a"
      and e: "(if a = NODES then new_node (Some i0) NODES h else do { i \<leftarrow> list_node a; Some (i, h) }) = Some (i, h1)"
      and ent: "entry_for h T (wlan_ra p) i0 i n T1" and n: "node_at h1 i = Some n" and es: "essid_at h1 = essid_at h"
      and T1: "heap_rep h1 T1" and b: "length (n_wlan_bssid n) = 6"
      and fin: "\<And>n'. n_ap_node n' = n_ap_node n \<Longrightarrow> n_essid n' = n_essid n \<Longrightarrow> n_wlan_src n' = wlan_ra p \<Longrightarrow>
        length (n_wlan_bssid n') = 6 \<Longrightarrow> tables_ok (h1\<lparr>node_at := (node_at h1)(i \<mapsto> n')\<rparr>) T1"
      and oth: "\<And>j. j \<noteq> i \<Longrightarrow> node_at h1 j = node_at h j"
    define n2 where "n2 = (if a = NODES then n\<lparr>n_rx_only := 1\<rparr> else n)"
    define h2 where "h2 = h1\<lparr>node_at := (node_at h1)(i \<mapsto> n2)\<rparr>"
    have n2: "node_at h2 i = Some n2" by (simp add: h2_def)
    have same: "n_ap_node n2 = n_ap_node n" "n_essid n2 = n_essid n" "n_wlan_bssid n2 = n_wlan_bssid n"
      "n_rx_pkt_count n2 = n_rx_pkt_count n" by (simp_all add: n2_def)
    have T2: "heap_rep h2 T1" unfolding h2_def by (rule rep_upd_node [OF T1 n same(1,2)])
    have e2: "(if a = NODES then do {
                      (i, h) \<leftarrow> new_node (Some i0) NODES h;
                      h \<leftarrow> upd_node i (\<lambda>n. n\<lparr>n_rx_only := 1\<rparr>) h;
                      Some (i, h) }
                  else do { i \<leftarrow> list_node a; Some (i, h) }) = Some (i, h2)"
    proof (cases "a = NODES")
      case True
      with e n show ?thesis by (simp add: h2_def n2_def upd_node_def)
    next
      case False
      with e have "h1 = h" by (simp split: bind_splits)
      moreover have "h2 = h1" using False n by (simp add: h2_def n2_def fun_upd_idem)
      ultimately show ?thesis using e False by simp
    qed
    obtain n' where c: "copy_rx_nodeinfo now i p h2 = Some (h2\<lparr>node_at := (node_at h2)(i \<mapsto> n')\<rparr>)"
      "n_ap_node n' = n_ap_node n2" "n_essid n' = n_essid n2" "n_wlan_src n' = wlan_ra p"
      "n_wlan_bssid n' = (if MAC_NOT_EMPTY (wlan_bssid p) then wlan_bssid p else n_wlan_bssid n2)"
      "n_last_seen n' = now" "n_rx_pkt_count n' = n_rx_pkt_count n2 + 1"
      by (rule copy_rx_nodeinfo_run [OF n2 ap_in_heap [OF T2 n2]])
    let ?h = "h1\<lparr>node_at := (node_at h1)(i \<mapsto> n')\<rparr>"
    have "h2\<lparr>node_at := (node_at h2)(i \<mapsto> n')\<rparr> = ?h" by (simp add: h2_def)
    then have run: "uwifi_node_update_receiver now (Some i0) p NODES h = Some (Some i, ?h)"
      using used c(1) unfolding uwifi_node_update_receiver_def f by (simp add: e2)
    have "tables_ok ?h T1" using c len(2) b same by (intro fin) simp_all
    moreover have "node_at ?h = (node_at h)(i \<mapsto> n')" using oth by (auto simp: fun_eq_iff)
    ultimately show ?thesis using run ent es c same by (intro exI conjI) (assumption | simp)+
  qed
qed


subsection \<open>Access points\<close>

lemma leave_ap_run:
  assumes T: "heap_rep h T" and i: "node_at h i = Some n"
  obtains h' st where "leave_ap i h = Some h'" "heap_rep h' (T\<lparr>t_stations := st\<rparr>)"
    "node_at h' = (node_at h)(i \<mapsto> n\<lparr>n_ap_node := None\<rparr>)" "essid_at h' = essid_at h"
proof (cases "n_ap_node n")
  case None
  then have "node_at h = (node_at h)(i \<mapsto> n\<lparr>n_ap_node := None\<rparr>)" using i by (simp add: fun_upd_idem)
  with None i T show thesis by (intro that [of h "t_stations T"]) (simp_all add: leave_ap_def)
next
  case (Some j)
  obtain s where s: "cc_list_del_from (links h) (NApNodes j) (NApList i) = Some s"
    "heap_rep (h\<lparr>links := s, node_at := (node_at h)(i \<mapsto> n\<lparr>n_ap_node := None\<rparr>)\<rparr>)
       (T\<lparr>t_stations := (t_stations T)(j := remove1 i (t_stations T j))\<rparr>)"
    by (rule rep_leave_ap [OF T i Some])
  from ap_in_heap [OF T i Some] obtain m where "node_at h j = Some m" by auto
  with s(1) i Some have "leave_ap i h = Some (h\<lparr>links := s, node_at := (node_at h)(i \<mapsto> n\<lparr>n_ap_node := None\<rparr>)\<rparr>)"
    by (simp add: leave_ap_def heap_simps)
  then show thesis by (rule that [OF _ s(2)]) simp_all
qed

text \<open>The test of \<open>uwifi_nodes_find_ap\<close>: the node is a station with a usable BSSID.\<close>

definition seeks_ap :: "uwifi_node \<Rightarrow> bool" where
  "seeks_ap n \<longleftrightarrow> flag_set (n_wlan_mode n) WLAN_MODE_STA \<and> n_wlan_bssid n ! 0 \<noteq> 0xff \<and> MAC_NOT_EMPTY (n_wlan_bssid n)"

lemma ap_differs_run:
  assumes T: "heap_rep h T" and i: "node_at h i = Some n" "length (n_wlan_bssid n) = 6"
  shows "ap_differs i h = Some (seeks_ap n \<and>
    (\<forall>j m. n_ap_node n = Some j \<longrightarrow> node_at h j = Some m \<longrightarrow> n_wlan_src m \<noteq> n_wlan_bssid n))"
proof -
  have b: "rd (n_wlan_bssid n) 0 = Some (n_wlan_bssid n ! 0)" using i(2) by (intro rd_Some) simp
  show ?thesis
  proof (cases "n_ap_node n")
    case None
    with i b show ?thesis by (simp add: ap_differs_def seeks_ap_def)
  next
    case (Some j)
    from ap_in_heap [OF T i(1) Some] obtain m where "node_at h j = Some m" by auto
    with Some i b show ?thesis by (auto simp: ap_differs_def seeks_ap_def)
  qed
qed

lemma src_unique: "macs_ok h \<Longrightarrow> node_at h i = Some n \<Longrightarrow> node_at h j = Some m \<Longrightarrow> n_wlan_src n = n_wlan_src m \<Longrightarrow> i = j"
  unfolding macs_ok_def by blast

lemma ap_changed_ok:
  assumes ok: "tables_ok h T" and i: "node_at h i = Some n" and h': "heap_rep h' (T\<lparr>t_stations := st\<rparr>)"
    "node_at h' = (node_at h)(i \<mapsto> n\<lparr>n_ap_node := r\<rparr>)" "essid_at h' = essid_at h"
  shows "tables_ok h' (T\<lparr>t_stations := st\<rparr>)"
proof -
  note T = tables_okD [OF ok]
  have "macs_ok h'" by (rule macs_ok_sub [OF T(3)]) (use h'(2) i in \<open>auto split: if_splits\<close>)
  moreover have "names_ok h'" using T(4) h'(3) by (simp add: names_ok_def)
  ultimately show ?thesis using h'(1) T(2,5) by (simp add: tables_ok_def)
qed

lemma find_ap_run:
  assumes ok: "tables_ok h T" and i: "node_at h i = Some n"
  shows "\<exists>h' st r. uwifi_nodes_find_ap i NODES h = Some h' \<and> tables_ok h' (T\<lparr>t_stations := st\<rparr>) \<and>
    node_at h' = (node_at h)(i \<mapsto> n\<lparr>n_ap_node := r\<rparr>) \<and> essid_at h' = essid_at h \<and>
    (if seeks_ap n then \<forall>j. r = Some j \<longleftrightarrow> (\<exists>m. node_at h j = Some m \<and> n_wlan_src m = n_wlan_bssid n)
     else r = n_ap_node n)"
proof -
  note T = tables_okD [OF ok]
  have len: "length (n_wlan_bssid n) = 6" using T(3) i by (simp add: macs_ok_def)
  note d = ap_differs_run [OF T(1) i len]
  let ?mac = "n_wlan_bssid n"
  show ?thesis
  proof (cases "seeks_ap n \<and> (\<forall>j m. n_ap_node n = Some j \<longrightarrow> node_at h j = Some m \<longrightarrow> n_wlan_src m \<noteq> ?mac)")
    case False
    then have "ap_differs i h = Some False" using d by simp
    then have run: "uwifi_nodes_find_ap i NODES h = Some h" by (simp add: uwifi_nodes_find_ap_def)
    have keep: "if seeks_ap n then \<forall>j. n_ap_node n = Some j \<longleftrightarrow> (\<exists>m. node_at h j = Some m \<and> n_wlan_src m = ?mac)
        else n_ap_node n = n_ap_node n"
    proof (cases "seeks_ap n")
      case True
      with False obtain j m where j: "n_ap_node n = Some j" "node_at h j = Some m" "n_wlan_src m = ?mac" by blast
      have "n_ap_node n = Some k \<longleftrightarrow> (\<exists>m. node_at h k = Some m \<and> n_wlan_src m = ?mac)" for k
      proof (cases "k = j")
        case True
        with j show ?thesis by blast
      next
        case False
        with src_unique [OF T(3) _ j(2)] j(3) have "\<not> (node_at h k = Some l \<and> n_wlan_src l = ?mac)" for l by metis
        with False j(1) show ?thesis by simp
      qed
      with True show ?thesis by simp
    qed simp
    have "node_at h = (node_at h)(i \<mapsto> n\<lparr>n_ap_node := n_ap_node n\<rparr>)" using i by (simp add: fun_upd_idem)
    with run ok keep show ?thesis by (intro exI [of _ h] exI [of _ "t_stations T"] exI [of _ "n_ap_node n"]) simp
  next
    case True
    then have da: "ap_differs i h = Some True" using d by simp
    obtain h1 st where h1: "leave_ap i h = Some h1" "heap_rep h1 (T\<lparr>t_stations := st\<rparr>)"
      "node_at h1 = (node_at h)(i \<mapsto> n\<lparr>n_ap_node := None\<rparr>)" "essid_at h1 = essid_at h"
      by (rule leave_ap_run [OF T(1) i])
    have i1: "node_at h1 i = Some (n\<lparr>n_ap_node := None\<rparr>)" "n_ap_node (n\<lparr>n_ap_node := None\<rparr>) = None" using h1(3) by simp_all
    have run: "uwifi_nodes_find_ap i NODES h = do {
        a \<leftarrow> find_node ?mac NODES h1;
        if a = NODES then Some h1
        else do {
          j \<leftarrow> list_node a;
          h \<leftarrow> on_links (\<lambda>s. cc_list_add_tail s (NApNodes j) (NApList i)) h1;
          upd_node i (\<lambda>n. n\<lparr>n_ap_node := Some j\<rparr>) h } }"
      using da h1(1) i1 by (simp add: uwifi_nodes_find_ap_def)
    have src1: "(\<exists>m. node_at h1 j = Some m \<and> n_wlan_src m = mac) \<longleftrightarrow> (\<exists>m. node_at h j = Some m \<and> n_wlan_src m = mac)" for j mac
      using h1(3) i by (cases "j = i") auto
    have live: "set (t_nodes (T\<lparr>t_stations := st\<rparr>)) = dom (node_at h1)" using T(2) h1(2) by (simp add: heap_rep_def)
    show ?thesis
    proof (rule find_node_run [OF h1(2), of ?mac])
      assume f: "find_node ?mac NODES h1 = Some NODES"
        "\<And>i n. i \<in> set (t_nodes (T\<lparr>t_stations := st\<rparr>)) \<Longrightarrow> node_at h1 i = Some n \<Longrightarrow> n_wlan_src n \<noteq> ?mac"
      then have "\<not> (\<exists>m. node_at h1 j = Some m \<and> n_wlan_src m = ?mac)" for j using live by blast
      then have "\<not> (\<exists>m. node_at h j = Some m \<and> n_wlan_src m = ?mac)" for j by (simp only: src1 not_False_eq_True)
      moreover have "uwifi_nodes_find_ap i NODES h = Some h1" using run f(1) by simp
      ultimately show ?thesis using ap_changed_ok [OF ok i h1(2-4)] h1(3,4) True
        by (intro exI [of _ h1] exI [of _ st] exI [of _ None]) auto
    next
      fix j m assume f: "find_node ?mac NODES h1 = Some (NList j)" "j \<in> set (t_nodes (T\<lparr>t_stations := st\<rparr>))"
        "node_at h1 j = Some m" "n_wlan_src m = ?mac"
      then have jl: "j \<in> t_live (T\<lparr>t_stations := st\<rparr>)" using h1(2) by (auto simp: heap_rep_def)
      obtain s where s: "cc_list_add_tail (links h1) (NApNodes j) (NApList i) = Some s"
        "heap_rep (h1\<lparr>links := s, node_at := (node_at h1)(i \<mapsto> n\<lparr>n_ap_node := None\<rparr>\<lparr>n_ap_node := Some j\<rparr>)\<rparr>)
          ((T\<lparr>t_stations := st\<rparr>)\<lparr>t_stations := (t_stations (T\<lparr>t_stations := st\<rparr>))(j := t_stations (T\<lparr>t_stations := st\<rparr>) j @ [i])\<rparr>)"
        by (rule rep_join_ap [OF h1(2) i1 jl])
      let ?h = "h1\<lparr>links := s, node_at := (node_at h)(i \<mapsto> n\<lparr>n_ap_node := Some j\<rparr>)\<rparr>"
      have rep: "heap_rep ?h (T\<lparr>t_stations := st(j := st j @ [i])\<rparr>)" using s(2) h1(3) by simp
      have "uwifi_nodes_find_ap i NODES h = Some ?h" using run f(1) s(1) i1 h1(3) by (simp add: heap_simps)
      moreover have "tables_ok ?h (T\<lparr>t_stations := st(j := st j @ [i])\<rparr>)"
        using ap_changed_ok [OF ok i rep, of "Some j"] h1(4) by simp
      moreover have "Some j = Some k \<longleftrightarrow> (\<exists>l. node_at h k = Some l \<and> n_wlan_src l = ?mac)" for k
      proof -
        from f(3,4) src1 [of j] obtain l where l: "node_at h j = Some l" "n_wlan_src l = ?mac" by blast
        show ?thesis
        proof
          assume "Some j = Some k"
          with l show "\<exists>l. node_at h k = Some l \<and> n_wlan_src l = ?mac" by auto
        next
          assume "\<exists>l. node_at h k = Some l \<and> n_wlan_src l = ?mac"
          then obtain l' where "node_at h k = Some l'" "n_wlan_src l' = ?mac" by blast
          with src_unique [OF T(3) l(1) this(1)] l(2) show "Some j = Some k" by simp
        qed
      qed
      ultimately have "uwifi_nodes_find_ap i NODES h = Some ?h \<and> tables_ok ?h (T\<lparr>t_stations := st(j := st j @ [i])\<rparr>) \<and>
          node_at ?h = (node_at h)(i \<mapsto> n\<lparr>n_ap_node := Some j\<rparr>) \<and> essid_at ?h = essid_at h \<and>
          (if seeks_ap n then \<forall>k. Some j = Some k \<longleftrightarrow> (\<exists>m. node_at h k = Some m \<and> n_wlan_src m = ?mac)
           else Some j = n_ap_node n)"
        using True h1(4) by (simp only: if_True) simp
      then show ?thesis by blast
    qed
  qed
qed


subsection \<open>Removing nodes\<close>

text \<open>A node after the nodes in \<open>D\<close> have been removed.\<close>

definition forget_ap :: "nat set \<Rightarrow> uwifi_node \<Rightarrow> uwifi_node" where
  "forget_ap D m = (case n_ap_node m of None \<Rightarrow> m | Some k \<Rightarrow> if k \<in> D then m\<lparr>n_ap_node := None\<rparr> else m)"

lemma forget_ap_simps [simp]:
  "n_essid (forget_ap D m) = n_essid m" "n_wlan_src (forget_ap D m) = n_wlan_src m"
  "n_wlan_bssid (forget_ap D m) = n_wlan_bssid m" "n_last_seen (forget_ap D m) = n_last_seen m"
  "forget_ap {} m = m"
  by (simp_all add: forget_ap_def split: option.splits)

lemma forget_ap_insert: "forget_ap {i} (forget_ap D m) = forget_ap (insert i D) m"
  by (auto simp: forget_ap_def split: option.splits)

lemma clear_ap_nodes_run:
  assumes T: "heap_rep h T" and i: "i \<in> t_live T"
  shows "\<exists>h'. clear_ap_nodes i h = Some h' \<and> heap_rep h' (T\<lparr>t_stations := (t_stations T)(i := [])\<rparr>) \<and>
    node_at h' = (\<lambda>j. map_option (forget_ap {i}) (node_at h j)) \<and> essid_at h' = essid_at h"
proof -
  let ?T = "\<lambda>js. T\<lparr>t_stations := (t_stations T)(i := js)\<rparr>"
  define R where "R = (\<lambda>xs h'. \<exists>js. xs = map NApList js \<and> heap_rep h' (?T js) \<and> essid_at h' = essid_at h \<and>
    (\<forall>j. node_at h' j = (if j \<in> set js then node_at h j else map_option (forget_ap {i}) (node_at h j))))"
  have "\<exists>h'. clear_ap_nodes i h = Some h' \<and> R [] h'"
    unfolding clear_ap_nodes_def
  proof (rule for_each_safe_list)
    fix x xs h1 assume "R (x # xs) h1"
    then obtain k js where r: "x = NApList k" "xs = map NApList js" "heap_rep h1 (?T (k # js))" "essid_at h1 = essid_at h"
      "\<forall>j. node_at h1 j = (if j \<in> set (k # js) then node_at h j else map_option (forget_ap {i}) (node_at h j))"
      unfolding R_def by auto
    have il: "i \<in> t_live (?T (k # js))" using i by simp
    have d: "k \<notin> set js" using distinct_stations [OF r(3) il] by simp
    have "ap_of h1 k = Some i" using stations_iff [OF r(3) il, of k] by simp
    then obtain n where n: "node_at h1 k = Some n" "n_ap_node n = Some i" by (auto simp: ap_of_def bind_conv)
    obtain s where s: "cc_list_del_from (links h1) (NApNodes i) (NApList k) = Some s"
      "heap_rep (h1\<lparr>links := s, node_at := (node_at h1)(k \<mapsto> n\<lparr>n_ap_node := None\<rparr>)\<rparr>)
        ((?T (k # js))\<lparr>t_stations := (t_stations (?T (k # js)))(i := remove1 k (t_stations (?T (k # js)) i))\<rparr>)"
      by (rule rep_leave_ap [OF r(3) n])
    let ?h = "h1\<lparr>links := s, node_at := (node_at h1)(k \<mapsto> n\<lparr>n_ap_node := None\<rparr>)\<rparr>"
    have "node_at h k = Some n" using r(5) n(1) by simp
    then have "map_option (forget_ap {i}) (node_at h k) = Some (n\<lparr>n_ap_node := None\<rparr>)"
      using n(2) by (simp add: forget_ap_def)
    then have "R xs ?h" unfolding R_def using s(2) r(2,4,5) d by (intro exI [of _ js]) auto
    moreover have "do { j \<leftarrow> ap_list_node x; h \<leftarrow> on_links (\<lambda>s. cc_list_del_from s (NApNodes i) x) h1;
        upd_node j (\<lambda>n. n\<lparr>n_ap_node := None\<rparr>) h } = Some ?h"
      using r(1) s(1) n(1) by (simp add: heap_simps)
    ultimately show "\<exists>h'. do { j \<leftarrow> ap_list_node x; h \<leftarrow> on_links (\<lambda>s. cc_list_del_from s (NApNodes i) x) h1;
        upd_node j (\<lambda>n. n\<lparr>n_ap_node := None\<rparr>) h } = Some h' \<and> R xs h'" by blast
  next
    fix xs h1 assume "R xs h1"
    then obtain js where "xs = map NApList js" "heap_rep h1 (?T js)" unfolding R_def by blast
    from rep_list [OF this(2), of "NApNodes i" xs] this(1) i
    have "is_list (links h1) (NApNodes i) ([] @ xs)" by simp
    then show "\<exists>pre. is_list (links h1) (NApNodes i) (pre @ xs)" by blast
  next
    have "node_at h j = (if j \<in> set (t_stations T i) then node_at h j else map_option (forget_ap {i}) (node_at h j))" for j
    proof (cases "node_at h j")
      case (Some n)
      then have "j \<in> set (t_stations T i) \<longleftrightarrow> n_ap_node n = Some i" using stations_iff [OF T i, of j] by simp
      with Some show ?thesis by (auto simp: forget_ap_def split: option.splits)
    qed simp
    moreover have "?T (t_stations T i) = T" by simp
    ultimately show "R (map NApList (t_stations T i)) h" unfolding R_def using T by (intro exI [of _ "t_stations T i"]) simp
    show "is_list (links h) (NApNodes i) (map NApList (t_stations T i))" by (rule rep_list [OF T]) (simp add: i)
  qed
  then show ?thesis unfolding R_def by (auto simp: fun_eq_iff)
qed

lemma expire_node_run:
  assumes ok: "tables_ok h T" and few: "few_nodes h" and i: "i \<in> set (t_nodes T)"
  shows "\<exists>h' T'. expire_node NODES i h = Some h' \<and> tables_ok h' T' \<and> t_nodes T' = remove1 i (t_nodes T) \<and>
    node_at h' = (\<lambda>j. if j = i then None else map_option (forget_ap {i}) (node_at h j))"
proof -
  note T = tables_okD [OF ok]
  have il: "i \<in> t_live T" using i T(2) by simp
  then obtain n where n: "node_at h i = Some n" using node_live [OF T(1)] by blast
  let ?ns = "remove1 i (t_nodes T)"
  obtain s where s: "cc_list_del_from (links h) NODES (NList i) = Some s"
    "heap_rep (h\<lparr>links := s\<rparr>) (T\<lparr>t_nodes := ?ns\<rparr>)" by (rule rep_del_node [OF T(1) i])
  have n1: "node_at (h\<lparr>links := s\<rparr>) i = Some n" using n by simp
  obtain h2 st where h2: "leave_ap i (h\<lparr>links := s\<rparr>) = Some h2" "heap_rep h2 (T\<lparr>t_nodes := ?ns\<rparr>\<lparr>t_stations := st\<rparr>)"
    "node_at h2 = (node_at (h\<lparr>links := s\<rparr>))(i \<mapsto> n\<lparr>n_ap_node := None\<rparr>)" "essid_at h2 = essid_at (h\<lparr>links := s\<rparr>)"
    by (rule leave_ap_run [OF s(2) n1])
  let ?T2 = "T\<lparr>t_nodes := ?ns\<rparr>\<lparr>t_stations := st\<rparr>" and ?n2 = "n\<lparr>n_ap_node := None\<rparr>"
  have n2: "node_at h2 i = Some ?n2" using h2(3) by simp
  obtain h3 T3 where h3: "(if n_essid ?n2 \<noteq> None then uwifi_essids_remove_node i h2 else Some h2) = Some h3"
    "heap_rep h3 T3" "node_at h3 = (node_at h)(i \<mapsto> n\<lparr>n_ap_node := None, n_essid := None\<rparr>)"
    "t_live T3 = t_live T" "t_nodes T3 = ?ns" "names_ok h3" "\<And>e. e \<in> set (t_essids T3) \<Longrightarrow> t_members T3 e \<noteq> []"
  proof (cases "n_essid n")
    case None
    have "n\<lparr>n_ap_node := None, n_essid := None\<rparr> = n\<lparr>n_ap_node := None\<rparr>" using None by (cases n) simp
    then have "node_at h2 = (node_at h)(i \<mapsto> n\<lparr>n_ap_node := None, n_essid := None\<rparr>)" using h2(3) by simp
    moreover have "names_ok h2" using T(4) h2(4) by (simp add: names_ok_def)
    ultimately show thesis using None h2(2) T(5) by (intro that [of h2 ?T2]) simp_all
  next
    case (Some e)
    then have e: "n_essid ?n2 = Some e" by simp
    have el: "e \<in> set (t_essids T)" using essid_live [OF T(1), of i e] n Some by simp
    have len: "length (t_members ?T2 e) < 2 ^ 32" using members_bound [OF T(1) few el] by simp
    obtain h3 where r: "uwifi_essids_remove_node i h2 = Some h3"
      "heap_rep h3 (without_member i e ?T2)" "node_at h3 = (node_at h2)(i \<mapsto> ?n2\<lparr>n_essid := None\<rparr>)"
      "\<And>k x'. essid_at h3 k = Some x' \<Longrightarrow> \<exists>x. essid_at h2 k = Some x \<and> e_essid x = e_essid x' \<and> (k \<noteq> e \<longrightarrow> x = x')"
      by (rule remove_node_run [OF h2(2) n2 e len]) (rule that; assumption)
    have "names_ok h3"
    proof (rule names_ok_sub [OF T(4)])
      fix k x' assume "essid_at h3 k = Some x'"
      from r(4) [OF this] h2(4) show "\<exists>x. essid_at h k = Some x \<and> e_essid x = e_essid x'" by auto
    qed
    moreover have "i \<in> set (t_members ?T2 e)" using members_iff [OF T(1) el, of i] n Some by simp
    then have "t_members (without_member i e ?T2) k \<noteq> []" if "k \<in> set (t_essids (without_member i e ?T2))" for k
      using without_member_nonempty [OF that] T(5) distinct_essids [OF T(1)] by simp
    moreover have "node_at h3 = (node_at h)(i \<mapsto> n\<lparr>n_ap_node := None, n_essid := None\<rparr>)" using r(3) h2(3) by simp
    ultimately show thesis using Some r(1,2) by (intro that [of h3 "without_member i e ?T2"]) simp_all
  qed
  have il3: "i \<in> t_live T3" using il h3(4) by simp
  from clear_ap_nodes_run [OF h3(2) il3] obtain h4 where h4: "clear_ap_nodes i h3 = Some h4"
    "heap_rep h4 (T3\<lparr>t_stations := (t_stations T3)(i := [])\<rparr>)" "essid_at h4 = essid_at h3"
    "node_at h4 = (\<lambda>j. map_option (forget_ap {i}) (node_at h3 j))" by blast
  let ?T4 = "T3\<lparr>t_stations := (t_stations T3)(i := [])\<rparr>"
  have n4: "node_at h4 i = Some (n\<lparr>n_ap_node := None, n_essid := None\<rparr>)"
    using h4(4) h3(3) by (simp add: forget_ap_def)
  have ns: "set ?ns = t_live T - {i}" using distinct_nodes [OF T(1)] T(2) by simp
  have free: "i \<in> t_live ?T4" "i \<notin> set (t_nodes ?T4)" "ap_of h4 i = None" "essid_of h4 i = None" "t_stations ?T4 i = []"
    using il3 h3(5) ns n4 by simp_all
  obtain h5 where h5: "free_node i h4 = Some h5" "node_at h5 = (node_at h4)(i := None)" "essid_at h5 = essid_at h4"
    "heap_rep h5 (?T4\<lparr>t_live := t_live ?T4 - {i}\<rparr>)" by (rule rep_free_node [OF h4(2) free])
  have at: "node_at h5 = (\<lambda>j. if j = i then None else map_option (forget_ap {i}) (node_at h j))"
    using h5(2) h4(4) h3(3) by (auto simp: fun_eq_iff)
  have run: "expire_node NODES i h = Some h5"
    using s(1) h2(1) n2 h3(1) h4(1) h5(1) by (simp add: expire_node_def heap_simps)
  have "macs_ok h5" by (rule macs_ok_sub [OF T(3)]) (use at in \<open>auto split: if_splits\<close>)
  moreover have "names_ok h5" using h3(6) h4(3) h5(3) by (simp add: names_ok_def)
  ultimately have "tables_ok h5 (?T4\<lparr>t_live := t_live ?T4 - {i}\<rparr>)"
    using h5(4) h3(4,5,7) ns by (simp add: tables_ok_def)
  with run at h3(5) show ?thesis by (intro exI [of _ h5] exI [of _ "?T4\<lparr>t_live := t_live ?T4 - {i}\<rparr>"]) simp
qed


lemma few_nodes_fewer: "few_nodes h \<Longrightarrow> dom (node_at h') \<subseteq> dom (node_at h) \<Longrightarrow> few_nodes h'"
  unfolding few_nodes_def using card_mono [of "dom (node_at h)" "dom (node_at h')"] finite_subset by fastforce

text \<open>The nodes that the timeout removes.\<close>

definition stale_at :: "wheap \<Rightarrow> u32 \<Rightarrow> u32 \<Rightarrow> nat \<Rightarrow> bool" where
  "stale_at h now timeout i = (\<exists>n. node_at h i = Some n \<and> node_stale now timeout n)"

definition survivors :: "wheap \<Rightarrow> nat set \<Rightarrow> nat \<Rightarrow> uwifi_node option" where
  "survivors h D j = (if j \<in> D then None else map_option (forget_ap D) (node_at h j))"

lemma survivors_insert:
  "(if j = i then None else map_option (forget_ap {i}) (survivors h D j)) = survivors h (insert i D) j"
  by (auto simp: survivors_def option.map_comp o_def forget_ap_insert)

lemma survivors_none: "survivors h {} = node_at h"
proof
  show "survivors h {} j = node_at h j" for j by (cases "node_at h j") (simp_all add: survivors_def)
qed

lemma timeout_run:
  assumes ok: "tables_ok h T" and few: "few_nodes h"
  shows "\<exists>h' T'. cc_list_for_each_safe links
         (\<lambda>a h. do {
            i \<leftarrow> list_node a;
            n \<leftarrow> node_at h i;
            if node_stale now timeout n then expire_node NODES i h else Some h }) NODES h = Some h' \<and>
    tables_ok h' T' \<and> t_nodes T' = filter (\<lambda>i. \<not> stale_at h now timeout i) (t_nodes T) \<and>
    node_at h' = survivors h {i. stale_at h now timeout i}"
proof -
  note T = tables_okD [OF ok]
  let ?st = "stale_at h now timeout"
  let ?body = "\<lambda>a h. do {
            i \<leftarrow> list_node a;
            n \<leftarrow> node_at h i;
            if node_stale now timeout n then expire_node NODES i h else Some h }"
  define R where "R = (\<lambda>xs h'. \<exists>pre js T'. t_nodes T = pre @ js \<and> xs = map NList js \<and> tables_ok h' T' \<and>
    t_nodes T' = filter (\<lambda>i. \<not> ?st i) pre @ js \<and> node_at h' = survivors h {i \<in> set pre. ?st i})"
  have "\<exists>h'. cc_list_for_each_safe links ?body NODES h = Some h' \<and> R [] h'"
  proof (rule for_each_safe_list)
    fix x xs h1 assume "R (x # xs) h1"
    then obtain pre i js T1 where r: "t_nodes T = pre @ i # js" "x = NList i" "xs = map NList js" "tables_ok h1 T1"
      "t_nodes T1 = filter (\<lambda>i. \<not> ?st i) pre @ i # js" "node_at h1 = survivors h {i \<in> set pre. ?st i}"
      unfolding R_def by auto
    have d: "distinct (pre @ i # js)" using distinct_nodes [OF T(1)] r(1) by simp
    have "i \<in> t_live T" using T(2) r(1) by auto
    then obtain n where n: "node_at h i = Some n" using node_live [OF T(1)] by blast
    then have n1: "node_at h1 i = Some (forget_ap {i \<in> set pre. ?st i} n)" using r(6) d by (simp add: survivors_def)
    have st: "node_stale now timeout (forget_ap {i \<in> set pre. ?st i} n) = ?st i"
      using n by (simp add: stale_at_def node_stale_def)
    show "\<exists>h'. ?body x h1 = Some h' \<and> R xs h'"
    proof (cases "?st i")
      case False
      then have "{k \<in> set (pre @ [i]). ?st k} = {k \<in> set pre. ?st k}" by auto
      with r False have "R xs h1" unfolding R_def
        by (intro exI [of _ "pre @ [i]"] exI [of _ js] exI [of _ T1]) simp
      with False n1 st r(2) show ?thesis by simp
    next
      case True
      have "dom (node_at h1) \<subseteq> dom (node_at h)" by (auto simp: r(6) survivors_def split: if_splits)
      with few have few1: "few_nodes h1" by (rule few_nodes_fewer)
      have i1: "i \<in> set (t_nodes T1)" using r(5) by simp
      from expire_node_run [OF r(4) few1 i1] obtain h2 T2 where h2: "expire_node NODES i h1 = Some h2" "tables_ok h2 T2"
        "t_nodes T2 = remove1 i (t_nodes T1)"
        "node_at h2 = (\<lambda>j. if j = i then None else map_option (forget_ap {i}) (node_at h1 j))" by blast
      have ns: "t_nodes T2 = filter (\<lambda>i. \<not> ?st i) (pre @ [i]) @ js"
        using h2(3) r(5) d True by (simp add: remove1_append)
      have set_eq: "{k \<in> set (pre @ [i]). ?st k} = insert i {k \<in> set pre. ?st k}" using True by auto
      have at: "node_at h2 = survivors h {k \<in> set (pre @ [i]). ?st k}"
        unfolding h2(4) r(6) survivors_insert set_eq by (rule refl)
      have "R xs h2" unfolding R_def using r(1,3) h2(2) ns at
        by (intro exI [of _ "pre @ [i]"] exI [of _ js] exI [of _ T2]) simp
      with True n1 st r(2) h2(1) show ?thesis by simp
    qed
  next
    fix xs h1 assume "R xs h1"
    then obtain pre js T1 where r: "xs = map NList js" "tables_ok h1 T1" "t_nodes T1 = filter (\<lambda>i. \<not> ?st i) pre @ js"
      unfolding R_def by auto
    from nodes_list [OF tables_okD(1) [OF r(2)]] r(1,3)
    have "is_list (links h1) NODES (map NList (filter (\<lambda>i. \<not> ?st i) pre) @ xs)" by simp
    then show "\<exists>pre. is_list (links h1) NODES (pre @ xs)" by blast
  next
    have "node_at h = survivors h {i \<in> set []. ?st i}" by (simp add: survivors_none)
    then show "R (map NList (t_nodes T)) h" unfolding R_def using ok
      by (intro exI [of _ "[]"] exI [of _ "t_nodes T"] exI [of _ T]) simp
    show "is_list (links h) NODES (map NList (t_nodes T))" by (rule nodes_list [OF T(1)])
  qed
  then obtain h' T' where h': "cc_list_for_each_safe links ?body NODES h = Some h'" "tables_ok h' T'"
    "t_nodes T' = filter (\<lambda>i. \<not> ?st i) (t_nodes T)" "node_at h' = survivors h {i \<in> set (t_nodes T). ?st i}"
    unfolding R_def by auto
  have "{i \<in> set (t_nodes T). ?st i} = {i. ?st i}" using T(1,2) by (auto simp: stale_at_def heap_rep_def)
  with h' show ?thesis by auto
qed


subsection \<open>Freeing the table\<close>

lemma nodes_free_run:
  assumes ok: "tables_ok h T"
  shows "\<exists>h'. uwifi_nodes_free NODES h = Some h' \<and> node_at h' = Map.empty \<and> essid_at h' = essid_at h \<and>
    is_list (links h') NODES [] \<and>
    (\<forall>a. a \<noteq> NODES \<longrightarrow> (\<forall>i \<in> t_live T. a \<notin> node_cells i) \<longrightarrow> links h' a = links h a) \<and>
    (\<forall>i \<in> t_live T. \<forall>a \<in> node_cells i. links h' a = None)"
proof -
  note T = tables_okD [OF ok]
  let ?body = "\<lambda>a h. do {
          i \<leftarrow> list_node a;
          h \<leftarrow> on_links (\<lambda>s. cc_list_del_from s NODES a) h;
          free_node i h }"
  define R where "R = (\<lambda>xs (h' :: wheap). \<exists>pre js. t_nodes T = pre @ js \<and> xs = map NList js \<and> is_list (links h') NODES xs \<and>
    essid_at h' = essid_at h \<and> (\<forall>j. node_at h' j = (if j \<in> set pre then None else node_at h j)) \<and>
    (\<forall>a. a \<noteq> NODES \<longrightarrow> (\<forall>i \<in> t_live T. a \<notin> node_cells i) \<longrightarrow> links h' a = links h a) \<and> (\<forall>i \<in> set pre. \<forall>a \<in> node_cells i. links h' a = None))"
  have "\<exists>h'. cc_list_for_each_safe links ?body NODES h = Some h' \<and> R [] h'"
  proof (rule for_each_safe_list)
    fix x xs h1 assume "R (x # xs) h1"
    then obtain pre i js where r: "t_nodes T = pre @ i # js" "x = NList i" "xs = map NList js"
      "is_list (links h1) NODES ([] @ NList i # xs)" "essid_at h1 = essid_at h"
      "\<forall>j. node_at h1 j = (if j \<in> set pre then None else node_at h j)"
      "\<forall>a. a \<noteq> NODES \<longrightarrow> (\<forall>i \<in> t_live T. a \<notin> node_cells i) \<longrightarrow> links h1 a = links h a"
      "\<forall>i \<in> set pre. \<forall>a \<in> node_cells i. links h1 a = None"
      unfolding R_def by auto
    have d: "distinct (pre @ i # js)" using distinct_nodes [OF T(1)] r(1) by simp
    have "i \<in> t_live T" using T(2) r(1) by auto
    then obtain n where n: "node_at h i = Some n" using node_live [OF T(1)] by blast
    have n1: "node_at h1 i = Some n" using r(6) d n by simp
    from cc.del_from_law [OF r(4)] obtain s where s: "cc_list_del_from (links h1) NODES (NList i) = Some s"
      "is_list s NODES xs" "dom s = dom (links h1)" "\<forall>a. a \<notin> insert NODES (set xs) \<longrightarrow> s a = links h1 a" by auto
    let ?h = "h1\<lparr>links := (\<lambda>a. if a \<in> node_cells i then None else s a), node_at := (node_at h1)(i := None)\<rparr>"
    have run: "?body x h1 = Some ?h"
      using r(2) s(1) n1 by (simp add: heap_simps free_node_def cong: if_cong)
    have off: "a \<notin> node_cells i" if "a \<in> insert NODES (set xs)" for a using that r(3) d by (auto simp: node_cells_def)
    have l: "is_list (links ?h) NODES xs"
      by (rule iffD2 [OF is_list_frame [of NODES xs "links ?h" s] s(2)]) (use off in simp)
    have dead: "links ?h a = None" if "k \<in> set (pre @ [i])" "a \<in> node_cells k" for k a
    proof (cases "a \<in> node_cells i")
      case False
      with that have "links h1 a = None" using r(8) by auto
      with s(3) have "s a = None" by (metis domIff)
      with False show ?thesis by simp
    qed simp
    have en: "links ?h a = links h a" if a: "a \<noteq> NODES" "\<forall>k \<in> t_live T. a \<notin> node_cells k" for a
    proof -
      have "NList k \<noteq> a" if "k \<in> set js" for k
      proof -
        have "k \<in> t_live T" using T(2) r(1) that by auto
        with a(2) show ?thesis by (auto simp: node_cells_def)
      qed
      then have "s a = links h1 a" using s(4) r(3) a(1) by auto
      moreover have "a \<notin> node_cells i" using a(2) \<open>i \<in> t_live T\<close> by blast
      ultimately show ?thesis using r(7) a by simp
    qed
    have "R xs ?h" unfolding R_def using r(1,3,5,6) l dead en
      by (intro exI [of _ "pre @ [i]"] exI [of _ js]) auto
    with run show "\<exists>h'. ?body x h1 = Some h' \<and> R xs h'" by blast
  next
    fix xs h1 assume "R xs h1"
    then have "is_list (links h1) NODES ([] @ xs)" unfolding R_def by auto
    then show "\<exists>pre. is_list (links h1) NODES (pre @ xs)" by blast
  next
    show "R (map NList (t_nodes T)) h" unfolding R_def using nodes_list [OF T(1)]
      by (intro exI [of _ "[]"] exI [of _ "t_nodes T"]) simp
    show "is_list (links h) NODES (map NList (t_nodes T))" by (rule nodes_list [OF T(1)])
  qed
  then obtain h' where h': "cc_list_for_each_safe links ?body NODES h = Some h'" "R [] h'" by blast
  note nl = nodes_list [OF T(1)]
  have nx: "get_next (links h) (Some NODES) = Some (Some (hd (map NList (t_nodes T) @ [NODES])))"
    using get_next_Some [OF is_list_head_dom [OF nl]] is_list_nx_head [OF nl] by simp
  have run: "uwifi_nodes_free NODES h = Some h'" using h'(1) nx by (simp add: uwifi_nodes_free_def)
  from h'(2) have r: "is_list (links h') NODES []" "essid_at h' = essid_at h"
    "\<forall>a. a \<noteq> NODES \<longrightarrow> (\<forall>i \<in> t_live T. a \<notin> node_cells i) \<longrightarrow> links h' a = links h a"
    "\<forall>j. node_at h' j = (if j \<in> set (t_nodes T) then None else node_at h j)"
    "\<forall>i \<in> set (t_nodes T). \<forall>a \<in> node_cells i. links h' a = None"
    unfolding R_def by auto
  have "node_at h' = Map.empty"
  proof
    show "node_at h' j = None" for j using r(4) T(1,2) by (auto simp: heap_rep_def)
  qed
  with run r T(2) show ?thesis by simp
qed

text \<open>The first node that is entered in an empty list: memory outside its own cells and the list head is not touched.\<close>

lemma first_node:
  assumes L: "is_list (links h) NODES []"
  obtains h' where "new_node (Some m) NODES h = Some (m, h')" "node_at h' = (node_at h)(m \<mapsto> fresh_node)"
    "essid_at h' = essid_at h" "\<forall>a. a \<noteq> NODES \<longrightarrow> a \<notin> node_cells m \<longrightarrow> links h' a = links h a"
proof -
  have n: "links h NODES = Some \<lparr>nxt = Some NODES, prv = Some NODES\<rparr>"
    using L by (cases "links h NODES") (auto simp: is_list_def nx_def pv_def intro: cc_list_node.equality)
  obtain avg where avg: "ewma_init 1024 8 = Some avg" using ewma_1024_8 by blast
  obtain g where g: "new_node (Some m) NODES h = Some (m, g)" "node_at g = (node_at h)(m \<mapsto> fresh_node)"
    "essid_at g = essid_at h" "\<forall>a. a \<noteq> NODES \<longrightarrow> a \<notin> node_cells m \<longrightarrow> links g a = links h a"
    using n avg
    by (simp add: new_node_def malloc_node_def upd_node_def on_links_def fresh_node_def node_cells_def cc_list_head_init_def
       cc_list_add_tail_def set_next_def set_prev_def get_prev_def get_next_def null_link_def)
  with that show thesis by blast
qed

lemma first_node_update:
  assumes L: "is_list (links h) NODES []" and h: "node_at h = Map.empty"
    and p: "\<not> flag_set (phy_flags p) PHY_FLAG_BADFCS" "MAC_NOT_EMPTY (wlan_ta p)"
  obtains p' h' n where "uwifi_node_update now (Some m) p NODES h = Some (Some m, p', h')" "node_at h' = [m \<mapsto> n]"
    "n_essid n = None" "essid_at h' = essid_at h" "wlan_essid p' = wlan_essid p" "essid_ignored p' = essid_ignored p"
    "\<forall>a. a \<noteq> NODES \<longrightarrow> a \<notin> node_cells m \<longrightarrow> links h' a = links h a"
proof -
  have L0: "is_list (links h) NODES (map NList [])" using L by simp
  have f: "find_node (wlan_ta p) NODES h = Some NODES"
    unfolding find_node_def by (rule find_in_list [OF L0, where P = "\<lambda>a. do { i \<leftarrow> list_node a; n \<leftarrow> node_at h i; Some (n_wlan_src n = wlan_ta p) }"
      and q = "\<lambda>i. False"]) simp_all
  obtain g where g: "new_node (Some m) NODES h = Some (m, g)" "node_at g = (node_at h)(m \<mapsto> fresh_node)"
    "essid_at g = essid_at h" "\<forall>a. a \<noteq> NODES \<longrightarrow> a \<notin> node_cells m \<longrightarrow> links g a = links h a"
    by (rule first_node [OF L, where m = m])
  have i: "node_at g m = Some fresh_node" using g(2) by simp
  obtain p' n where c: "copy_nodeinfo now m p g = Some (p', g\<lparr>node_at := (node_at g)(m \<mapsto> n)\<rparr>)" "n_essid n = n_essid fresh_node"
    by (rule copy_nodeinfo_run [OF i, where now = now and p = p]) simp_all
  have p': "p' = p\<lparr>wlan_retries := wlan_retries p'\<rparr>" using c(1) by (auto simp: copy_nodeinfo_def bind_conv Let_def)
  have same: "wlan_essid p' = wlan_essid p" "essid_ignored p' = essid_ignored p"
    by (subst p', simp add: essid_ignored_def essid_relevant_def)+
  have "uwifi_node_update now (Some m) p NODES h = Some (Some m, p', g\<lparr>node_at := (node_at g)(m \<mapsto> n)\<rparr>)"
    using p f g(1) c(1) by (simp add: uwifi_node_update_def)
  then show thesis using that [of p' "g\<lparr>node_at := (node_at g)(m \<mapsto> n)\<rparr>" n] g c(2) h same by simp
qed

end
