(* ===== verification/Network.thy ===== *)
theory Network
  imports Node_Facts
begin

text \<open>
  The node and ESSID tables as one component: the calls that an application makes for every
  packet and now and then, as a transition system, and the theorems about its states.  The
  tables start with two initialised list heads; a step is a call of one of the public
  functions with a well-formed packet, a live node and memory that \<open>malloc\<close> has not given
  out before.
\<close>

subsection \<open>Steps\<close>

definition init_tables :: "wheap \<Rightarrow> wheap option" where
  "init_tables h = do {
     h \<leftarrow> on_links (\<lambda>s. cc_list_head_init s NODES) h;
     on_links (\<lambda>s. cc_list_head_init s ESSIDS) h }"

definition blank_heap :: wheap where
  "blank_heap = \<lparr>links = [NODES \<mapsto> null_link, ESSIDS \<mapsto> null_link], node_at = Map.empty, essid_at = Map.empty\<rparr>"

datatype call =
    Node_Update u32 nat uwifi_packet
  | Node_Update_Receiver u32 nat uwifi_packet
  | Nodes_Find_Ap nat
  | Essids_Update nat uwifi_packet nat
  | Essids_Remove_Node nat
  | Nodes_Timeout u32 u32 u32

fun exec :: "call \<Rightarrow> wheap \<Rightarrow> wheap option" where
  "exec (Node_Update now m p) h = map_option (\<lambda>(r, p', h'). h') (uwifi_node_update now (Some m) p NODES h)"
| "exec (Node_Update_Receiver now m p) h = map_option snd (uwifi_node_update_receiver now (Some m) p NODES h)"
| "exec (Nodes_Find_Ap i) h = uwifi_nodes_find_ap i NODES h"
| "exec (Essids_Update m p i) h = uwifi_essids_update (Some m) ESSIDS (Some p) (Some i) h"
| "exec (Essids_Remove_Node i) h = uwifi_essids_remove_node i h"
| "exec (Nodes_Timeout sec prev now) h = map_option fst (uwifi_nodes_timeout NODES sec prev now h)"

text \<open>What the caller has to see to.\<close>

fun allowed :: "call \<Rightarrow> wheap \<Rightarrow> bool" where
  "allowed (Node_Update now m p) h \<longleftrightarrow> packet_wf p \<and> node_at h m = None"
| "allowed (Node_Update_Receiver now m p) h \<longleftrightarrow> packet_wf p \<and> node_at h m = None"
| "allowed (Nodes_Find_Ap i) h \<longleftrightarrow> node_at h i \<noteq> None"
| "allowed (Essids_Update m p i) h \<longleftrightarrow> packet_wf p \<and> essid_at h m = None \<and> node_at h i \<noteq> None"
| "allowed (Essids_Remove_Node i) h \<longleftrightarrow> node_at h i \<noteq> None"
| "allowed (Nodes_Timeout sec prev now) h \<longleftrightarrow> True"

inductive reachable :: "wheap \<Rightarrow> bool" where
  reachable_init: "init_tables blank_heap = Some h \<Longrightarrow> reachable h"
| reachable_step: "reachable h \<Longrightarrow> few_nodes h \<Longrightarrow> allowed c h \<Longrightarrow> exec c h = Some h' \<Longrightarrow> reachable h'"

inductive_cases reachable_cases: "reachable h"

subsection \<open>Every call returns and keeps the tables well formed\<close>

definition tables_inv :: "wheap \<Rightarrow> bool" where
  "tables_inv h \<longleftrightarrow> (\<exists>T. tables_ok h T)"

definition node_list :: "wheap \<Rightarrow> nat list \<Rightarrow> bool" where
  "node_list h ns \<longleftrightarrow> is_list (links h) NODES (map NList ns)"

lemma node_list_unique:
  assumes "tables_ok h T" "node_list h ns"
  shows "ns = t_nodes T"
proof -
  have "map NList ns = map NList (t_nodes T)"
    using assms nodes_list [OF tables_okD(1) [OF assms(1)]] is_list_unique
    unfolding node_list_def by metis
  then show ?thesis using map_injective [OF _ addr_inj(1)] by blast
qed

lemma node_list_ok: "tables_ok h T \<Longrightarrow> node_list h (t_nodes T)"
  unfolding node_list_def by (rule nodes_list [OF tables_okD(1)])

definition no_tables :: tables where
  "no_tables = \<lparr>t_live = {}, t_nodes = [], t_stations = (\<lambda>_. []), t_essids = [], t_members = (\<lambda>_. [])\<rparr>"

lemma init_tables_run:
  obtains h where "init_tables blank_heap = Some h" "tables_ok h no_tables"
proof -
  let ?s = "links blank_heap"
  have F: "family is_list ?s (\<lambda>_. None)" by (simp add: family_def apart_def)
  have d: "NODES \<in> dom ?s" "ESSIDS \<in> dom ?s" by (simp_all add: blank_heap_def)
  have e: "NODES \<notin> foot (\<lambda>_. None)" by (simp add: foot_def)
  obtain s1 where s1: "cc_list_head_init ?s NODES = Some s1" "family is_list s1 ((\<lambda>_. None)(NODES \<mapsto> []))" "dom s1 = dom ?s"
    using cc.family_init [OF F d(1) e] by (elim exE conjE)
  have n: "ESSIDS \<notin> foot ((\<lambda>_. None)(NODES \<mapsto> []))" by (auto simp: foot_def split: if_splits)
  have d1: "ESSIDS \<in> dom s1" unfolding s1(3) by (rule d(2))
  obtain s2 where s2: "cc_list_head_init s1 ESSIDS = Some s2"
    "family is_list s2 ((\<lambda>_. None)(NODES \<mapsto> [], ESSIDS \<mapsto> []))"
    using cc.family_init [OF s1(2) d1 n] by (elim exE conjE)
  let ?h = "blank_heap\<lparr>links := s2\<rparr>"
  have "fam no_tables = (\<lambda>_. None)(NODES \<mapsto> [], ESSIDS \<mapsto> [])"
    by (rule ext, rename_tac a, case_tac a) (auto simp: no_tables_def)
  then have "heap_rep ?h no_tables" using s2(2)
    by (simp add: heap_rep_def links_ok_def rels_ok_def counts_ok_def no_tables_def blank_heap_def ap_of_def essid_of_def)
  then have "tables_ok ?h no_tables"
    by (simp add: tables_ok_def macs_ok_def names_ok_def no_tables_def blank_heap_def)
  moreover have "init_tables blank_heap = Some ?h" using s1(1) s2(1) by (simp add: init_tables_def heap_simps)
  ultimately show thesis using that by blast
qed

lemma packet_name: "packet_wf p \<Longrightarrow> name_array (wlan_essid p)"
  by (simp add: packet_wf_def name_array_def)

lemma exec_ok:
  assumes ok: "tables_ok h T" and few: "few_nodes h" and c: "allowed c h"
  shows "\<exists>h' T'. exec c h = Some h' \<and> tables_ok h' T'"
proof (cases c)
  case (Node_Update now m p)
  then have p: "packet_wf p" "node_at h m = None" using c by simp_all
  show ?thesis
  proof (cases "flag_set (phy_flags p) PHY_FLAG_BADFCS \<or> \<not> MAC_NOT_EMPTY (wlan_ta p)")
    case True
    with ok Node_Update show ?thesis by (auto simp: uwifi_node_update_def)
  next
    case False
    with node_update_run [OF ok p, of now] Node_Update show ?thesis by auto
  qed
next
  case (Node_Update_Receiver now m p)
  then have p: "packet_wf p" "node_at h m = None" using c by simp_all
  show ?thesis
  proof (cases "flag_set (phy_flags p) PHY_FLAG_BADFCS \<or> \<not> MAC_NOT_EMPTY (wlan_ra p) \<or> MAC_BCAST (wlan_ra p)")
    case True
    with ok Node_Update_Receiver show ?thesis by (auto simp: uwifi_node_update_receiver_def)
  next
    case False
    with node_update_receiver_run [OF ok p, of now] Node_Update_Receiver show ?thesis by auto
  qed
next
  case (Nodes_Find_Ap i)
  with c obtain n where "node_at h i = Some n" by auto
  from find_ap_run [OF ok this] Nodes_Find_Ap show ?thesis by auto
next
  case (Essids_Update m p i)
  with c obtain n where n: "node_at h i = Some n" "packet_wf p" "essid_at h m = None" by auto
  from essids_update_run [OF ok few packet_name [OF n(2)] n(1,3)] ok Essids_Update show ?thesis
    by (cases "essid_ignored p") auto
next
  case (Essids_Remove_Node i)
  with c obtain n where n: "node_at h i = Some n" by auto
  note T = tables_okD [OF ok]
  show ?thesis
  proof (cases "n_essid n")
    case None
    with n ok Essids_Remove_Node show ?thesis by (auto simp: uwifi_essids_remove_node_def)
  next
    case (Some e)
    have el: "e \<in> set (t_essids T)" using essid_live [OF T(1), of i e] n Some by simp
    have len: "length (t_members T e) < 2 ^ 32" using members_bound [OF T(1) few el] by simp
    have mem: "i \<in> set (t_members T e)" using members_iff [OF T(1) el, of i] n Some by simp
    obtain h' where r: "uwifi_essids_remove_node i h = Some h'" "heap_rep h' (without_member i e T)"
      "node_at h' = (node_at h)(i \<mapsto> n\<lparr>n_essid := None\<rparr>)"
      "\<And>k x'. essid_at h' k = Some x' \<Longrightarrow> \<exists>x. essid_at h k = Some x \<and> e_essid x = e_essid x' \<and> (k \<noteq> e \<longrightarrow> x = x')"
      by (rule remove_node_run [OF T(1) n Some len]) (rule that; assumption)
    have "macs_ok h'" by (rule macs_ok_sub [OF T(3)]) (use r(3) n in \<open>auto split: if_splits\<close>)
    moreover have "names_ok h'" by (rule names_ok_sub [OF T(4)]) (use r(4) in blast)
    moreover have "t_members (without_member i e T) k \<noteq> []" if "k \<in> set (t_essids (without_member i e T))" for k
      using without_member_nonempty [OF that _ mem distinct_essids [OF T(1)]] T(5) by simp
    ultimately have "tables_ok h' (without_member i e T)" using r(2) T(2) by (simp add: tables_ok_def)
    with r(1) Essids_Remove_Node show ?thesis by auto
  qed
next
  case (Nodes_Timeout sec prev now)
  with timeout_run [OF ok few, of now sec] ok show ?thesis
    by (auto simp: uwifi_nodes_timeout_def)
qed

lemma reachable_ok: "reachable h \<Longrightarrow> \<exists>T. tables_ok h T"
proof (induction rule: reachable.induct)
  case (reachable_init h)
  then show ?case using init_tables_run by (metis option.inject)
next
  case (reachable_step h c h')
  then obtain T where "tables_ok h T" by blast
  from exec_ok [OF this reachable_step.hyps(2,3)] reachable_step.hyps(4) show ?case by auto
qed


lemma network_sound_step:
  assumes r: "reachable h" and few: "few_nodes h" and c: "allowed c h"
  shows "\<exists>h'. exec c h = Some h' \<and> reachable h'"
proof -
  from reachable_ok [OF r] obtain T where "tables_ok h T" by blast
  from exec_ok [OF this few c] reachable_step [OF r few c] show ?thesis by blast
qed

subsection \<open>An example\<close>

definition mac1 :: bytes where "mac1 = [2, 0, 0, 0, 0, 1]"
definition mac2 :: bytes where "mac2 = [2, 0, 0, 0, 0, 2]"

definition ap_packet :: uwifi_packet where
  "ap_packet = zero_packet\<lparr>wlan_type := WLAN_FRAME_BEACON, wlan_ta := mac1, wlan_bssid := mac1,
     wlan_mode := WLAN_MODE_AP, wlan_channel := 6, wlan_essid := [110, 101, 116] @ replicate 31 0\<rparr>"

definition sta_packet :: uwifi_packet where
  "sta_packet = zero_packet\<lparr>wlan_type := WLAN_FRAME_DATA, wlan_ta := mac2, wlan_ra := mac1, wlan_bssid := mac1,
     wlan_mode := WLAN_MODE_STA\<rparr>"

lemma example_packets [simp]:
  "packet_wf ap_packet" "wlan_ta ap_packet = mac1" "phy_flags ap_packet = 0"
  "packet_wf sta_packet" "wlan_ta sta_packet = mac2" "phy_flags sta_packet = 0"
  "wlan_bssid sta_packet = mac1" "wlan_mode sta_packet = WLAN_MODE_STA"
  "\<not> essid_ignored ap_packet" "cstr (wlan_essid ap_packet) = [110, 101, 116]"
  by (simp_all add: ap_packet_def sta_packet_def packet_wf_def zero_packet_def mac1_def mac2_def
      essid_ignored_def essid_relevant_def cstr_def)

lemma example_macs [simp]: "mac1 \<noteq> mac2" "mac2 \<noteq> mac1" "MAC_NOT_EMPTY mac1" "MAC_NOT_EMPTY mac2" "mac1 ! 0 = 2"
  by (simp_all add: mac1_def mac2_def MAC_NOT_EMPTY_def)

text \<open>Tables with an access point, seen at time 10, and a station, seen at 90 seconds.\<close>

lemma example_tables:
  obtains h T n m where "tables_ok h T" "few_nodes h" "node_at h = [0 \<mapsto> n, 1 \<mapsto> m]" "essid_at h = Map.empty"
    "n_wlan_src n = mac1" "n_last_seen n = 10" "n_wlan_src m = mac2" "n_last_seen m = 90000000" "seeks_ap m"
    "n_wlan_bssid m = mac1" "t_nodes T = [0, 1]" "n_ap_node m = None"
proof -
  obtain h0 where h0: "init_tables blank_heap = Some h0" "tables_ok h0 no_tables" by (rule init_tables_run)
  have e0: "node_at h0 = Map.empty" "essid_at h0 = Map.empty"
    using tables_okD(1) [OF h0(2)] by (auto simp: heap_rep_def no_tables_def)
  have z: "node_at h0 0 = None" using e0 by simp
  obtain i n n1 p1 h1 T1 where u1: "tables_ok h1 T1" "entry_for h0 no_tables mac1 0 i n T1"
    "node_at h1 = (node_at h0)(i \<mapsto> n1)" "essid_at h1 = essid_at h0" "n_wlan_src n1 = mac1" "n_last_seen n1 = 10"
    using node_update_run [OF h0(2) example_packets(1) z, of 10] by auto
  have i: "i = 0" "t_nodes T1 = [0]" using u1(2) e0 by (auto simp: entry_for_def no_tables_def)
  have at1: "node_at h1 = [0 \<mapsto> n1]" using u1(3) e0(1) i by simp
  have z1: "node_at h1 1 = None" using at1 by simp
  obtain j m n2 p2 h2 T2 where u2: "tables_ok h2 T2" "entry_for h1 T1 mac2 1 j m T2"
    "node_at h2 = (node_at h1)(j \<mapsto> n2)" "essid_at h2 = essid_at h1" "n_wlan_src n2 = mac2" "n_last_seen n2 = 90000000"
    "n_wlan_bssid n2 = mac1" "n_wlan_mode n2 = n_wlan_mode m OR WLAN_MODE_STA" "n_ap_node n2 = n_ap_node m"
    using node_update_run [OF u1(1) example_packets(4) z1, of 90000000] by (auto simp: mode_vals)
  have j: "j = 1" "m = fresh_node" "t_nodes T2 = [0, 1]"
    using u2(2) at1 u1(5) i by (auto simp: entry_for_def split: if_splits)
  have at2: "node_at h2 = [0 \<mapsto> n1, 1 \<mapsto> n2]" using u2(3) at1 j by simp
  have "seeks_ap n2" using u2(7,8) j by (simp add: seeks_ap_def flag_set_def mode_vals fresh_node_def zero_node_def)
  moreover have "few_nodes h2" by (simp add: few_nodes_def at2)
  ultimately show thesis using that [OF u2(1) _ at2] u2 u1 e0 j by simp
qed


subsection \<open>The theorems\<close>

text \<open>C1: The tables are type safe.  In every state that calls of
  the public functions reach, the invariant holds: all lists are consistent rings with
  disjoint nodes, the back pointers and counters agree with the lists, no pointer dangles, no
  two nodes have the same address and no two ESSIDs the same name, and no ESSID is empty.
  And in every such state with fewer than \<open>2^32 - 1\<close> nodes every allowed call returns, reading
  and writing live memory only, and its result is such a state again.\<close>

theorem network_sound:
  assumes "reachable h"
  shows "tables_inv h \<and> (few_nodes h \<longrightarrow> (\<forall>c. allowed c h \<longrightarrow> (\<exists>h'. exec c h = Some h' \<and> reachable h')))"
proof -
  from reachable_ok [OF assms] obtain T where T: "tables_ok h T" by blast
  with network_sound_step [OF assms] show ?thesis by (auto simp: tables_inv_def)
qed

lemma init_reachable: "\<exists>h. reachable h \<and> node_at h = Map.empty"
proof -
  obtain h where h: "init_tables blank_heap = Some h" "tables_ok h no_tables" by (rule init_tables_run)
  have "node_at h = Map.empty" using tables_okD(1) [OF h(2)] by (auto simp: heap_rep_def no_tables_def)
  with reachable_init [OF h(1)] show ?thesis by blast
qed

lemma network_sound_witness:
  "\<exists>h h'. reachable h \<and> tables_inv h \<and> exec (Node_Update 10 0 ap_packet) h = Some h' \<and> reachable h'"
proof -
  obtain h where h: "reachable h" "node_at h = Map.empty" using init_reachable by blast
  then have "few_nodes h" "allowed (Node_Update 10 0 ap_packet) h" by (simp_all add: few_nodes_def)
  with network_sound [OF h(1)] h(1) show ?thesis by blast
qed

text \<open>C9: For a packet with a good checksum and a sender,
  \<open>uwifi_node_update\<close> returns the node of the sender: the one that has its address, and only
  if there is none a new one, which is appended to the list.  That node gets the address, the
  time, the BSSID if the packet has one, the mode and a packet count that is one higher; no
  other node and no ESSID changes.\<close>

theorem node_update_spec:
  assumes inv: "tables_inv h" and p: "packet_wf p" and m: "node_at h m = None"
    and used: "\<not> flag_set (phy_flags p) PHY_FLAG_BADFCS" "MAC_NOT_EMPTY (wlan_ta p)" and ns: "node_list h ns"
  shows "\<exists>i n' p' h'. uwifi_node_update now (Some m) p NODES h = Some (Some i, p', h') \<and> tables_inv h' \<and>
    node_at h' = (node_at h)(i \<mapsto> n') \<and> essid_at h' = essid_at h \<and>
    n_wlan_src n' = wlan_ta p \<and> n_last_seen n' = now \<and>
    (case node_at h i of
       Some n \<Rightarrow> n_wlan_src n = wlan_ta p \<and> node_list h' ns \<and> n_pkt_count n' = n_pkt_count n + 1 \<and>
         n_wlan_bssid n' = (if MAC_NOT_EMPTY (wlan_bssid p) then wlan_bssid p else n_wlan_bssid n) \<and>
         n_wlan_mode n' = n_wlan_mode n OR wlan_mode p
     | None \<Rightarrow> i = m \<and> (\<forall>j n. node_at h j = Some n \<longrightarrow> n_wlan_src n \<noteq> wlan_ta p) \<and> node_list h' (ns @ [m]) \<and>
         n_pkt_count n' = 1 \<and> n_wlan_mode n' = wlan_mode p)"
proof -
  from inv obtain T where T: "tables_ok h T" by (auto simp: tables_inv_def)
  from node_update_run [OF T p m used, of now] obtain i n n' p' h' T' where
    u: "uwifi_node_update now (Some m) p NODES h = Some (Some i, p', h')" "tables_ok h' T'"
      "entry_for h T (wlan_ta p) m i n T'" "node_at h' = (node_at h)(i \<mapsto> n')" "essid_at h' = essid_at h"
      "n_wlan_src n' = wlan_ta p" "n_last_seen n' = now" "n_pkt_count n' = n_pkt_count n + 1"
      "n_wlan_bssid n' = (if MAC_NOT_EMPTY (wlan_bssid p) then wlan_bssid p else n_wlan_bssid n)"
      "n_wlan_mode n' = (if wlan_mode p \<noteq> 0 then n_wlan_mode n OR wlan_mode p else n_wlan_mode n)"
    by blast
  have mode: "n_wlan_mode n' = n_wlan_mode n OR wlan_mode p" using u(10) by (simp split: if_splits)
  have l: "node_list h' (t_nodes T')" by (rule node_list_ok [OF u(2)])
  have eq: "ns = t_nodes T" by (rule node_list_unique [OF T ns])
  show ?thesis
  proof (cases "node_at h i")
    case None
    with u(3) have "i = m" "\<forall>j n. node_at h j = Some n \<longrightarrow> n_wlan_src n \<noteq> wlan_ta p" "n = fresh_node"
      "t_nodes T' = t_nodes T @ [m]" by (auto simp: entry_for_def)
    with None u l eq mode show ?thesis
      by (intro exI conjI) (assumption | simp add: fresh_node_def zero_node_def tables_inv_def | blast)+
  next
    case (Some k)
    with u(3) m have "k = n" "n_wlan_src n = wlan_ta p" "T' = T" by (auto simp: entry_for_def)
    with Some u l eq mode show ?thesis
      by (intro exI conjI) (assumption | simp add: tables_inv_def | blast)+
  qed
qed

lemma node_update_spec_witness:
  "\<exists>h i p' h' n'. node_list h [0, 1] \<and> uwifi_node_update 7 (Some 2) sta_packet NODES h = Some (Some i, p', h') \<and>
    node_at h' i = Some n' \<and> n_wlan_src n' = mac2 \<and> n_last_seen n' = 7"
proof -
  obtain h T n m where e: "tables_ok h T" "node_at h = [0 \<mapsto> n, 1 \<mapsto> m]" "t_nodes T = [0, 1]"
    by (rule example_tables)
  have h: "tables_inv h" "node_at h 2 = None" "node_list h [0, 1]"
    using e node_list_ok [OF e(1)] by (auto simp: tables_inv_def)
  have u: "\<not> flag_set (phy_flags sta_packet) PHY_FLAG_BADFCS" "MAC_NOT_EMPTY (wlan_ta sta_packet)" by simp_all
  obtain i n' p' h' where r: "uwifi_node_update 7 (Some 2) sta_packet NODES h = Some (Some i, p', h')"
    "node_at h' = (node_at h)(i \<mapsto> n')" "n_wlan_src n' = wlan_ta sta_packet" "n_last_seen n' = 7"
    using node_update_spec [OF h(1) example_packets(4) h(2) u h(3), of 7] by blast
  have "node_at h' i = Some n'" by (simp add: r(2))
  with h(3) r(1,3,4) show ?thesis unfolding example_packets(5) by blast
qed


text \<open>The list of the stations of an access point.\<close>

definition station_list :: "wheap \<Rightarrow> nat \<Rightarrow> nat list \<Rightarrow> bool" where
  "station_list h j js \<longleftrightarrow> is_list (links h) (NApNodes j) (map NApList js)"

lemma station_lists:
  assumes "tables_ok h T" "node_at h j \<noteq> None"
  shows "\<exists>js. station_list h j js \<and> distinct js \<and> set js = {k. ap_of h k = Some j}"
proof -
  note T = tables_okD [OF assms(1)]
  have j: "j \<in> t_live T" using assms(2) node_live [OF T(1)] by auto
  have "station_list h j (t_stations T j)" unfolding station_list_def by (rule rep_list [OF T(1)]) (simp add: j)
  moreover have "set (t_stations T j) = {k. ap_of h k = Some j}" using stations_iff [OF T(1) j] by auto
  ultimately show ?thesis using distinct_stations [OF T(1) j] by blast
qed

text \<open>C17: After \<open>uwifi_nodes_find_ap\<close> a station with a usable BSSID
  points to the node that has this address, if there is one, and to no access point
  otherwise; any other node keeps its pointer.  Nothing else of any node changes, and the
  list of every node holds exactly the stations that point to it.\<close>

theorem find_ap_spec:
  assumes inv: "tables_inv h" and i: "node_at h i = Some n"
  shows "\<exists>h' r. uwifi_nodes_find_ap i NODES h = Some h' \<and> tables_inv h' \<and>
    node_at h' = (node_at h)(i \<mapsto> n\<lparr>n_ap_node := r\<rparr>) \<and> essid_at h' = essid_at h \<and>
    (if seeks_ap n then \<forall>j. r = Some j \<longleftrightarrow> (\<exists>m. node_at h j = Some m \<and> n_wlan_src m = n_wlan_bssid n)
     else r = n_ap_node n) \<and>
    (\<forall>j. node_at h' j \<noteq> None \<longrightarrow>
       (\<exists>js. station_list h' j js \<and> distinct js \<and> set js = {k. ap_of h' k = Some j}))"
proof -
  from inv obtain T where T: "tables_ok h T" by (auto simp: tables_inv_def)
  from find_ap_run [OF T i] obtain h' st r where f: "uwifi_nodes_find_ap i NODES h = Some h'"
    "tables_ok h' (T\<lparr>t_stations := st\<rparr>)" "node_at h' = (node_at h)(i \<mapsto> n\<lparr>n_ap_node := r\<rparr>)"
    "essid_at h' = essid_at h"
    "if seeks_ap n then \<forall>j. r = Some j \<longleftrightarrow> (\<exists>m. node_at h j = Some m \<and> n_wlan_src m = n_wlan_bssid n)
     else r = n_ap_node n" by blast
  have inv': "tables_inv h'" unfolding tables_inv_def using f(2) by (rule exI)
  have "\<forall>j. node_at h' j \<noteq> None \<longrightarrow> (\<exists>js. station_list h' j js \<and> distinct js \<and> set js = {k. ap_of h' k = Some j})"
    using station_lists [OF f(2)] by blast
  with f(1,3-5) inv' show ?thesis by (intro exI conjI)
qed

lemma find_ap_spec_witness:
  "\<exists>h h' n. node_at h 1 = Some n \<and> n_ap_node n = None \<and> uwifi_nodes_find_ap 1 NODES h = Some h' \<and> ap_of h' 1 = Some 0"
proof -
  obtain h T n m where e: "tables_ok h T" "node_at h = [0 \<mapsto> n, 1 \<mapsto> m]" "n_wlan_src n = mac1" "seeks_ap m"
    "n_wlan_bssid m = mac1" "n_ap_node m = None" by (rule example_tables)
  have h: "tables_inv h" "node_at h 1 = Some m" using e(1,2) by (auto simp: tables_inv_def)
  obtain h' r where f: "uwifi_nodes_find_ap 1 NODES h = Some h'" "node_at h' = (node_at h)(1 \<mapsto> m\<lparr>n_ap_node := r\<rparr>)"
    "\<forall>j. r = Some j \<longleftrightarrow> (\<exists>k. node_at h j = Some k \<and> n_wlan_src k = n_wlan_bssid m)"
    using find_ap_spec [OF h] unfolding if_P [OF e(4)] by blast
  have "r = Some 0" using f(3) e(2,3,5) by simp
  then have "ap_of h' 1 = Some 0" by (simp add: ap_of_def f(2))
  with f(1) h(2) e(6) show ?thesis by blast
qed

text \<open>C7: When less than \<open>timeout_sec\<close> seconds have passed since
  the last run, \<open>uwifi_nodes_timeout\<close> does nothing.  Otherwise it removes from the list and
  frees exactly the nodes that have been silent for longer than \<open>timeout_sec\<close> seconds of the
  32-bit clock, clears the pointer of every station to an access point that is gone, keeps all
  else of the other nodes, keeps the order of the list, and leaves the tables well formed.\<close>

theorem timeout_spec:
  assumes inv: "tables_inv h" and few: "few_nodes h" and ns: "node_list h ns"
  shows "\<exists>h'. uwifi_nodes_timeout NODES sec prev now h =
      Some (h', if now - prev < sec * 1000000 then prev else now) \<and> tables_inv h' \<and>
    (if now - prev < sec * 1000000 then h' = h
     else node_list h' (filter (\<lambda>i. \<not> stale_at h now sec i) ns) \<and>
       node_at h' = survivors h {i. stale_at h now sec i})"
proof -
  from inv obtain T where T: "tables_ok h T" by (auto simp: tables_inv_def)
  show ?thesis
  proof (cases "now - prev < sec * 1000000")
    case True
    with inv show ?thesis by (simp add: uwifi_nodes_timeout_def)
  next
    case False
    from timeout_run [OF T few, of now sec] obtain h' T' where r: "cc_list_for_each_safe links
         (\<lambda>a h. do {
            i \<leftarrow> list_node a;
            n \<leftarrow> node_at h i;
            if node_stale now sec n then expire_node NODES i h else Some h }) NODES h = Some h'"
      "tables_ok h' T'" "t_nodes T' = filter (\<lambda>i. \<not> stale_at h now sec i) (t_nodes T)"
      "node_at h' = survivors h {i. stale_at h now sec i}" by blast
    from node_list_ok [OF r(2)] r(3) node_list_unique [OF T ns]
    have "node_list h' (filter (\<lambda>i. \<not> stale_at h now sec i) ns)" by simp
    moreover have "tables_inv h'" unfolding tables_inv_def using r(2) by (rule exI)
    moreover have "uwifi_nodes_timeout NODES sec prev now h = Some (h', now)"
      unfolding uwifi_nodes_timeout_def r(1) by (simp add: False)
    ultimately show ?thesis using r(4) by (simp add: False)
  qed
qed

lemma timeout_spec_witness:
  "\<exists>h h'. node_list h [0, 1] \<and> uwifi_nodes_timeout NODES 60 0 90000000 h = Some (h', 90000000) \<and> node_list h' [1]"
proof -
  obtain h T n m where e: "tables_ok h T" "few_nodes h" "node_at h = [0 \<mapsto> n, 1 \<mapsto> m]" "n_last_seen n = 10"
    "n_last_seen m = 90000000" "t_nodes T = [0, 1]" by (rule example_tables)
  have h: "tables_inv h" "node_list h [0, 1]" using e(1,6) node_list_ok [OF e(1)] by (auto simp: tables_inv_def)
  have s: "stale_at h 90000000 60 0" "\<not> stale_at h 90000000 60 1"
    using e(3-5) by (simp_all add: stale_at_def node_stale_def)
  from timeout_spec [OF h(1) e(2) h(2), where sec = 60 and prev = 0 and now = 90000000] s h(2) show ?thesis by auto
qed

text \<open>C8: For a beacon or probe response with a good checksum
  and a name, \<open>uwifi_essids_update\<close> makes the node a member of the ESSID with this name, which
  is added if it is not known yet; any other ESSID loses the node.  The list of the ESSID holds
  exactly the nodes that point to it, the counter is their number, and the mark \<open>split\<close> is set
  exactly when two members that are not access points use different BSSIDs, although the code
  compares neighbours in the list only.  Other packets change nothing.\<close>

theorem essids_update_spec:
  assumes inv: "tables_inv h" and few: "few_nodes h" and p: "packet_wf p" and i: "node_at h i = Some n"
    and m: "essid_at h m = None"
  shows "\<exists>h'. uwifi_essids_update (Some m) ESSIDS (Some p) (Some i) h = Some h' \<and> tables_inv h' \<and>
    (if essid_ignored p then h' = h
     else \<exists>e x ms. node_at h' = (node_at h)(i \<mapsto> n\<lparr>n_essid := Some e\<rparr>) \<and> essid_at h' e = Some x \<and>
       cstr (e_essid x) = cstr (wlan_essid p) \<and>
       is_list (links h') (ENodes e) (map NEssid ms) \<and> set ms = {k. essid_of h' k = Some e} \<and>
       e_num_nodes x = word_of_nat (length ms) \<and>
       (e_split x = 1 \<longleftrightarrow> split_nodes (members_of h' ms)))"
proof -
  from inv obtain T where T: "tables_ok h T" by (auto simp: tables_inv_def)
  note run = essids_update_run [OF T few packet_name [OF p] i m]
  show ?thesis
  proof (cases "essid_ignored p")
    case True
    with run inv show ?thesis by simp
  next
    case False
    with run obtain h' T' e x where r: "uwifi_essids_update (Some m) ESSIDS (Some p) (Some i) h = Some h'"
      "tables_ok h' T'" "node_at h' = (node_at h)(i \<mapsto> n\<lparr>n_essid := Some e\<rparr>)" "essid_at h' e = Some x"
      "cstr (e_essid x) = cstr (wlan_essid p)" "e_split x = 1 \<longleftrightarrow> split_nodes (members_of h' (t_members T' e))"
      unfolding if_not_P [OF False] by blast
    note T' = tables_okD [OF r(2)]
    have el: "e \<in> set (t_essids T')" using essid_in [OF T'(1)] r(4) by blast
    have "is_list (links h') (ENodes e) (map NEssid (t_members T' e))" by (rule rep_list [OF T'(1)]) (simp add: el)
    moreover have "set (t_members T' e) = {k. essid_of h' k = Some e}" using members_iff [OF T'(1) el] by auto
    moreover have "e_num_nodes x = word_of_nat (length (t_members T' e))"
      using T'(1) r(4) by (simp add: heap_rep_def counts_ok_def)
    moreover have "tables_inv h'" unfolding tables_inv_def using r(2) by (rule exI)
    ultimately show ?thesis unfolding if_not_P [OF False] using r(1,3-6) by blast
  qed
qed

lemma essids_update_spec_witness:
  "\<exists>h h' e x. essid_at h = Map.empty \<and> uwifi_essids_update (Some 5) ESSIDS (Some ap_packet) (Some 0) h = Some h' \<and>
    essid_of h' 0 = Some e \<and> essid_at h' e = Some x \<and> cstr (e_essid x) = [110, 101, 116]"
proof -
  obtain h T n m where e: "tables_ok h T" "few_nodes h" "node_at h = [0 \<mapsto> n, 1 \<mapsto> m]" "essid_at h = Map.empty"
    by (rule example_tables)
  have h: "tables_inv h" "node_at h 0 = Some n" "essid_at h 5 = None" using e(1,3,4) by (auto simp: tables_inv_def)
  obtain h' k x where r: "uwifi_essids_update (Some 5) ESSIDS (Some ap_packet) (Some 0) h = Some h'"
    "node_at h' = (node_at h)(0 \<mapsto> n\<lparr>n_essid := Some k\<rparr>)" "essid_at h' k = Some x"
    "cstr (e_essid x) = cstr (wlan_essid ap_packet)"
    using essids_update_spec [OF h(1) e(2) example_packets(1) h(2,3)] unfolding if_not_P [OF example_packets(9)] by blast
  have "essid_of h' 0 = Some k" by (simp add: essid_of_def r(2))
  with r e(4) show ?thesis unfolding example_packets(10) by blast
qed


subsection \<open>Freeing the nodes\<close>

text \<open>Appending to a list whose last entry has been freed accesses freed memory.\<close>

lemma add_tail_after_freed:
  assumes H: "pv s H = Some k" and dead: "s k = None"
  shows "cc_list_add_tail s H a = None"
proof (cases "s a")
  case None
  then show ?thesis by (simp add: cc_list_add_tail_def set_next_def)
next
  case (Some c)
  then have ak: "a \<noteq> k" using dead by auto
  let ?s = "s(a \<mapsto> c\<lparr>nxt := Some H\<rparr>)"
  have p1: "get_prev ?s (Some H) = Some (Some k)" using H Some by (auto simp: get_prev_def pv_def bind_conv)
  have s1: "set_next s (Some a) (Some H) = Some ?s" using Some by (simp add: set_next_def)
  obtain d where d: "?s a = Some d" by simp
  let ?t = "?s(a \<mapsto> d\<lparr>prv := Some k\<rparr>)"
  have s2: "set_prev ?s (Some a) (Some k) = Some ?t" using d by (simp add: set_prev_def)
  have p2: "get_prev ?t (Some H) = Some (Some k)" using p1 by (auto simp: get_prev_def)
  have "set_next ?t (Some k) (Some a) = None" using dead ak by (simp add: set_next_def)
  then show ?thesis unfolding cc_list_add_tail_def s1 by (simp only: bind.bind_lunit p1 s2 p2) simp
qed

lemma enter_after_freed:
  assumes i: "node_at h i = Some n" "n_essid n = None" and e: "pv (links h) (ENodes e) = Some k" "links h k = None"
  shows "essid_enter i e h = None"
  using i add_tail_after_freed [OF e] by (simp add: essid_enter_def on_links_def)

text \<open>The heap after \<open>uwifi_nodes_free\<close>: the ESSIDs keep their lists, and the first and the last entry of each are freed.\<close>

lemma freed_tables:
  assumes ok: "tables_ok h T"
  obtains h' where "uwifi_nodes_free NODES h = Some h'" "is_list (links h') NODES []" "node_at h' = Map.empty" "essid_at h' = essid_at h"
    "is_list (links h') ESSIDS (map EList (t_essids T))" "\<forall>i. node_at h i \<noteq> None \<longrightarrow> links h' (NEssid i) = None"
    "\<forall>e x. essid_at h e = Some x \<longrightarrow> (\<exists>i j. nx (links h') (ENodes e) = Some (NEssid i) \<and> pv (links h') (ENodes e) = Some (NEssid j) \<and>
       essid_of h i = Some e \<and> essid_of h j = Some e)"
proof -
  note T = tables_okD [OF ok]
  from nodes_free_run [OF ok] obtain h' where f: "uwifi_nodes_free NODES h = Some h'" "node_at h' = Map.empty"
    "essid_at h' = essid_at h" "is_list (links h') NODES []"
    "\<forall>a. a \<noteq> NODES \<longrightarrow> (\<forall>i \<in> t_live T. a \<notin> node_cells i) \<longrightarrow> links h' a = links h a"
    "\<forall>i \<in> t_live T. \<forall>a \<in> node_cells i. links h' a = None" by blast
  have keep: "links h' ESSIDS = links h ESSIDS" "links h' (EList e) = links h (EList e)" "links h' (ENodes e) = links h (ENodes e)" for e
    using f(5) by (simp_all add: node_cells_def)
  have "is_list (links h') ESSIDS (map EList (t_essids T))"
    by (rule iffD2 [OF is_list_frame [of ESSIDS "map EList (t_essids T)" "links h'" "links h"] essids_list [OF T(1)]])
      (use keep in auto)
  moreover have "\<forall>i. node_at h i \<noteq> None \<longrightarrow> links h' (NEssid i) = None"
    using f(6) node_live [OF T(1)] by (auto simp: node_cells_def)
  moreover have "\<exists>i j. nx (links h') (ENodes e) = Some (NEssid i) \<and> pv (links h') (ENodes e) = Some (NEssid j) \<and>
       essid_of h i = Some e \<and> essid_of h j = Some e" if "essid_at h e = Some x" for e x
  proof -
    from that have el: "e \<in> set (t_essids T)" using essid_in [OF T(1)] by auto
    have l: "is_list (links h) (ENodes e) (map NEssid (t_members T e))" by (rule rep_list [OF T(1)]) (simp add: el)
    have ne: "t_members T e \<noteq> []" by (rule T(5) [OF el])
    have "nx (links h') (ENodes e) = Some (NEssid (hd (t_members T e)))"
      using is_list_nx_head [OF l] ne keep(3) [of e] by (cases "t_members T e") (simp_all add: nx_def)
    moreover have "pv (links h') (ENodes e) = Some (NEssid (last (t_members T e)))"
      using is_list_pv_head [OF l] ne keep(3) [of e] by (simp add: pv_def last_map)
    moreover have "essid_of h (hd (t_members T e)) = Some e" "essid_of h (last (t_members T e)) = Some e"
      using members_iff [OF T(1) el, of "hd (t_members T e)"] members_iff [OF T(1) el, of "last (t_members T e)"] ne by simp_all
    ultimately show ?thesis by blast
  qed
  ultimately show thesis using that f by blast
qed

text \<open>C36: \<open>uwifi_nodes_free\<close> returns, frees every node and
  leaves an empty list, but it does not take the nodes out of the lists of the ESSIDs: every
  ESSID that was there is still there, and the first entry of its list is still a node that belonged to it and is freed now.
  So the tables cannot be used again: when a beacon or probe response with the name of one of these ESSIDs is received,
  \<open>uwifi_node_update\<close> enters its transmitter as a new node, at any address that was not that of an old node, and
  \<open>uwifi_essids_update\<close> with this live node then accesses freed memory.\<close>

theorem nodes_free_leaves_members:
  assumes inv: "tables_inv h"
  shows "\<exists>h'. uwifi_nodes_free NODES h = Some h' \<and> node_list h' [] \<and> node_at h' = Map.empty \<and>
    essid_at h' = essid_at h \<and>
    (\<forall>e. essid_at h e \<noteq> None \<longrightarrow> (\<exists>i. essid_of h i = Some e \<and>
       get_next (links h') (Some (ENodes e)) = Some (Some (NEssid i)) \<and> links h' (NEssid i) = None)) \<and>
    (\<forall>e x p m now k. essid_at h e = Some x \<and> packet_wf p \<and> \<not> essid_ignored p \<and> cstr (e_essid x) = cstr (wlan_essid p) \<and>
       MAC_NOT_EMPTY (wlan_ta p) \<and> node_at h m = None \<longrightarrow>
       (\<exists>p' h2. uwifi_node_update now (Some m) p NODES h' = Some (Some m, p', h2) \<and> node_at h2 m \<noteq> None \<and>
          uwifi_essids_update k ESSIDS (Some p') (Some m) h2 = None))"
proof -
  from inv obtain T where ok: "tables_ok h T" by (auto simp: tables_inv_def)
  note T = tables_okD [OF ok]
  obtain h' where f: "uwifi_nodes_free NODES h = Some h'" "is_list (links h') NODES []" "node_at h' = Map.empty" "essid_at h' = essid_at h"
    "is_list (links h') ESSIDS (map EList (t_essids T))" "\<forall>i. node_at h i \<noteq> None \<longrightarrow> links h' (NEssid i) = None"
    "\<forall>e x. essid_at h e = Some x \<longrightarrow> (\<exists>i j. nx (links h') (ENodes e) = Some (NEssid i) \<and> pv (links h') (ENodes e) = Some (NEssid j) \<and>
       essid_of h i = Some e \<and> essid_of h j = Some e)" by (rule freed_tables [OF ok])
  have live: "node_at h i \<noteq> None" if "essid_of h i = Some e" for i e using that by (cases "node_at h i") (auto simp: essid_of_def)
  have stale: "\<exists>i. essid_of h i = Some e \<and> get_next (links h') (Some (ENodes e)) = Some (Some (NEssid i)) \<and>
      links h' (NEssid i) = None" if "essid_at h e \<noteq> None" for e
  proof -
    from that f(7) obtain i where i: "nx (links h') (ENodes e) = Some (NEssid i)" "essid_of h i = Some e" by blast
    then have "ENodes e \<in> dom (links h')" by (auto simp: nx_def split: bind_splits)
    with i f(6) live [OF i(2)] show ?thesis by (auto simp: get_next_iff)
  qed
  have undef: "\<exists>p' h2. uwifi_node_update now (Some m) p NODES h' = Some (Some m, p', h2) \<and> node_at h2 m \<noteq> None \<and>
          uwifi_essids_update k ESSIDS (Some p') (Some m) h2 = None"
    if e: "essid_at h e = Some x" and p: "packet_wf p" "\<not> essid_ignored p" "cstr (e_essid x) = cstr (wlan_essid p)"
      "MAC_NOT_EMPTY (wlan_ta p)" and m: "node_at h m = None" for e x p m now k
  proof -
    have fcs: "\<not> flag_set (phy_flags p) PHY_FLAG_BADFCS" using p(2) by (simp add: essid_ignored_def)
    obtain p' h2 n where u: "uwifi_node_update now (Some m) p NODES h' = Some (Some m, p', h2)" "node_at h2 = [m \<mapsto> n]"
      "n_essid n = None" "essid_at h2 = essid_at h'" "wlan_essid p' = wlan_essid p" "essid_ignored p' = essid_ignored p"
      "\<forall>a. a \<noteq> NODES \<longrightarrow> a \<notin> node_cells m \<longrightarrow> links h2 a = links h' a"
      by (rule first_node_update [OF f(2,3) fcs p(4), where now = now and m = m])
    have off: "links h2 a = links h' a" if "a = ESSIDS \<or> (\<exists>e. a = EList e \<or> a = ENodes e) \<or> (\<exists>j. a = NEssid j \<and> j \<noteq> m)" for a
      using u(7) that by (auto simp: node_cells_def)
    have L: "is_list (links h2) ESSIDS (map EList (t_essids T))"
      by (rule iffD2 [OF is_list_frame [of ESSIDS "map EList (t_essids T)" "links h2" "links h'"] f(5)]) (use off in auto)
    have at2: "essid_at h2 = essid_at h" using u(4) f(4) by simp
    have es: "e \<in> set (t_essids T) \<longleftrightarrow> (\<exists>x. essid_at h2 e = Some x)" for e using essid_in [OF T(1)] at2 by simp
    have names: "names_ok h2" using T(4) at2 by (simp add: names_ok_def)
    have enter: "essid_enter m e' h2 = None" if "essid_at h e' = Some x'" for e' x'
    proof -
      from f(7) that obtain j where j: "pv (links h') (ENodes e') = Some (NEssid j)" "essid_of h j = Some e'" by blast
      have jl: "node_at h j \<noteq> None" by (rule live [OF j(2)])
      then have "j \<noteq> m" using m by auto
      then have "links h2 (NEssid j) = None" using f(6) jl off by simp
      moreover have "pv (links h2) (ENodes e') = Some (NEssid j)" using j(1) off by (simp add: pv_def)
      moreover have "node_at h2 m = Some n" using u(2) by simp
      ultimately show ?thesis using u(3) by (intro enter_after_freed)
    qed
    have name: "name_array (wlan_essid p')" using packet_name [OF p(1)] u(5) by simp
    have "uwifi_essids_update k ESSIDS (Some p') (Some m) h2 = None"
    proof (rule find_essid_list [OF L es names name])
      assume "\<And>e x. essid_at h2 e = Some x \<Longrightarrow> cstr (e_essid x) \<noteq> cstr (wlan_essid p')"
      with e at2 p(3) u(5) show ?thesis by auto
    next
      fix e' x' assume "find_essid (wlan_essid p') ESSIDS h2 = Some (EList e')" "essid_at h2 e' = Some x'"
      with enter [of e' x'] at2 u(6) p(2) show ?thesis by (simp add: essids_update_eq [OF name])
    qed
    with u(1,2) show ?thesis by (intro exI [of _ p'] exI [of _ h2]) simp
  qed
  show ?thesis using f(1-4) stale undef unfolding node_list_def by auto
qed

text \<open>An access point in its network; the nodes are freed; then the same beacon arrives again and gets a node at address 9.\<close>

lemma nodes_free_leaves_members_witness:
  "\<exists>h h' e x p' h2. essid_at h e = Some x \<and> uwifi_nodes_free NODES h = Some h' \<and> node_at h' = Map.empty \<and> essid_at h' e = Some x \<and>
    (\<exists>i. essid_of h i = Some e \<and> get_next (links h') (Some (ENodes e)) = Some (Some (NEssid i)) \<and> links h' (NEssid i) = None) \<and>
    uwifi_node_update 0 (Some 9) ap_packet NODES h' = Some (Some 9, p', h2) \<and> node_at h2 9 \<noteq> None \<and>
    uwifi_essids_update (Some 5) ESSIDS (Some p') (Some 9) h2 = None"
proof -
  obtain h0 T0 n m where e: "tables_ok h0 T0" "few_nodes h0" "node_at h0 = [0 \<mapsto> n, 1 \<mapsto> m]" "essid_at h0 = Map.empty"
    by (rule example_tables)
  have i: "node_at h0 0 = Some n" "essid_at h0 5 = None" using e(3,4) by simp_all
  obtain h T k x where h: "tables_ok h T" "node_at h = (node_at h0)(0 \<mapsto> n\<lparr>n_essid := Some k\<rparr>)" "essid_at h k = Some x"
    "cstr (e_essid x) = cstr (wlan_essid ap_packet)"
    using essids_update_run [OF e(1,2) packet_name [OF example_packets(1)] i] unfolding if_not_P [OF example_packets(9)]
    by blast
  have inv: "tables_inv h" unfolding tables_inv_def using h(1) by (rule exI)
  from nodes_free_leaves_members [OF inv] obtain h' where f: "uwifi_nodes_free NODES h = Some h'" "node_at h' = Map.empty"
    "essid_at h' = essid_at h"
    "\<forall>e. essid_at h e \<noteq> None \<longrightarrow> (\<exists>i. essid_of h i = Some e \<and>
       get_next (links h') (Some (ENodes e)) = Some (Some (NEssid i)) \<and> links h' (NEssid i) = None)"
    "\<forall>e x p m now k. essid_at h e = Some x \<and> packet_wf p \<and> \<not> essid_ignored p \<and> cstr (e_essid x) = cstr (wlan_essid p) \<and>
       MAC_NOT_EMPTY (wlan_ta p) \<and> node_at h m = None \<longrightarrow>
       (\<exists>p' h2. uwifi_node_update now (Some m) p NODES h' = Some (Some m, p', h2) \<and> node_at h2 m \<noteq> None \<and>
          uwifi_essids_update k ESSIDS (Some p') (Some m) h2 = None)" by blast
  have "node_at h 9 = None" using h(2) e(3) by simp
  with f(5) h(3,4) obtain p' h2 where "uwifi_node_update 0 (Some 9) ap_packet NODES h' = Some (Some 9, p', h2)" "node_at h2 9 \<noteq> None"
    "uwifi_essids_update (Some 5) ESSIDS (Some p') (Some 9) h2 = None"
    using example_packets(1,2,9) example_macs(3) by metis
  moreover from f(4) h(3) have "\<exists>i. essid_of h i = Some k \<and> get_next (links h') (Some (ENodes k)) = Some (Some (NEssid i)) \<and>
      links h' (NEssid i) = None" by simp
  ultimately show ?thesis using f h(3) by metis
qed

end
