(* ===== verification/Raw_Parser.thy ===== *)
theory Raw_Parser
  imports Parser_Facts Channel_Scan
begin

text \<open>
  \<open>linux/raw_parser.c\<close> with the structure of \<open>linux/prism_header.h\<close>: the header that the
  capture device puts before the 802.11 frame (Prism or radiotap), the frame behind it, and
  the channel that is entered in the packet afterwards.

  The radiotap library is a submodule that is not part of the repository.  What the parser
  uses of it is the record \<open>radiotap_lib\<close>: the size of the header, the field \<open>it_len\<close>, the
  flag constants, and the run of the iterator, which is the sequence of fields that
  \<open>ieee80211_radiotap_iterator_next\<close> delivers until it returns non-zero.  The case labels of
  the source are the constructors of \<open>radiotap_index\<close>.

  A Prism header is in the byte order of the host, which is little-endian here.
\<close>

subsection \<open>The Prism header\<close>

definition PRISM_HEADER_LEN :: nat where "PRISM_HEADER_LEN = 144"

text \<open>The offsets of the items and of the \<open>data\<close> field in an item.\<close>

definition item_data :: nat where "item_data = 8"
definition ph_channel :: nat where "ph_channel = 48"
definition ph_rssi :: nat where "ph_rssi = 60"
definition ph_signal :: nat where "ph_signal = 84"
definition ph_noise :: nat where "ph_noise = 96"
definition ph_rate :: nat where "ph_rate = 108"

lemmas prism_vals = PRISM_HEADER_LEN_def item_data_def ph_channel_def ph_rssi_def ph_signal_def
  ph_noise_def ph_rate_def

definition prism_data :: "bytes \<Rightarrow> nat \<Rightarrow> u32 option" where
  "prism_data buf item = rd32 buf (item + item_data)"

definition prism_signal :: "bytes \<Rightarrow> int option" where
  "prism_signal buf = do {
     noise \<leftarrow> prism_data buf ph_noise;
     if i32 noise < 0 then map_option i32 (prism_data buf ph_signal)
     else do {
       rssi \<leftarrow> prism_data buf ph_rssi;
       if i32 rssi < 0 then map_option i32 (prism_data buf ph_rssi)
       else map_option i32 (prism_data buf ph_signal) } }"

definition prism_rate :: "bytes \<Rightarrow> u32 option" where
  "prism_rate buf = do {
     rate \<leftarrow> prism_data buf ph_rate;
     if rate * 10 = 0 \<or> rate * 10 > 1080 then do {
       chan \<leftarrow> prism_data buf ph_channel;
       Some (if chan > 14 then 120 else 20) }
     else Some (rate * 10) }"

definition uwifi_parse_prism_header :: "bytes \<Rightarrow> int \<Rightarrow> uwifi_packet \<Rightarrow> (int \<times> uwifi_packet) option" where
  "uwifi_parse_prism_header buf len p =
    (if len > 0 \<and> len < int PRISM_HEADER_LEN then Some (-1, p)
     else do {
       signal \<leftarrow> prism_signal buf;
       rate \<leftarrow> prism_rate buf;
       chan \<leftarrow> prism_data buf ph_channel;
       Some (int PRISM_HEADER_LEN,
         p\<lparr>phy_signal := signal, phy_rate := rate,
           phy_rate_idx := word_of_int (wlan_rate_to_index (i32 rate)),
           phy_flags := (phy_flags p OR (if chan > 14 then PHY_FLAG_A else PHY_FLAG_G)) OR PHY_FLAG_SHORTPRE\<rparr>) })"

subsection \<open>The radiotap header\<close>

datatype radiotap_index =
    IEEE80211_RADIOTAP_TSFT
  | IEEE80211_RADIOTAP_FLAGS
  | IEEE80211_RADIOTAP_RATE
  | IEEE80211_RADIOTAP_CHANNEL
  | IEEE80211_RADIOTAP_FHSS
  | IEEE80211_RADIOTAP_DBM_ANTSIGNAL
  | IEEE80211_RADIOTAP_DBM_ANTNOISE
  | IEEE80211_RADIOTAP_LOCK_QUALITY
  | IEEE80211_RADIOTAP_TX_ATTENUATION
  | IEEE80211_RADIOTAP_DB_TX_ATTENUATION
  | IEEE80211_RADIOTAP_DBM_TX_POWER
  | IEEE80211_RADIOTAP_ANTENNA
  | IEEE80211_RADIOTAP_DB_ANTSIGNAL
  | IEEE80211_RADIOTAP_DB_ANTNOISE
  | IEEE80211_RADIOTAP_RX_FLAGS
  | IEEE80211_RADIOTAP_TX_FLAGS
  | IEEE80211_RADIOTAP_RTS_RETRIES
  | IEEE80211_RADIOTAP_DATA_RETRIES
  | IEEE80211_RADIOTAP_MCS
  | IEEE80211_RADIOTAP_AMPDU_STATUS
  | RADIOTAP_UNKNOWN

text \<open>What the iterator shows of a field: \<open>this_arg\<close> is what may be read from the pointer on.\<close>

record radiotap_field =
  is_radiotap_ns :: bool
  this_arg_index :: radiotap_index
  this_arg :: bytes

record radiotap_lib =
  radiotap_header_size :: nat
  it_len :: "bytes \<Rightarrow> u16 option"
  iterate :: "bytes \<Rightarrow> int \<Rightarrow> radiotap_field list option option"
  F_SHORTPRE :: u8
  F_BADFCS :: u8
  CHAN_5GHZ :: u16
  CHAN_2GHZ :: u16
  CHAN_OFDM :: u16
  MCS_HAVE_BW :: u8
  MCS_BW_MASK :: u8
  MCS_BW_20 :: u8
  MCS_HAVE_GI :: u8
  MCS_SGI :: u8

text \<open>The cases of \<open>get_radiotap_info\<close>, one definition for each that reads more than a byte.\<close>

definition radiotap_channel :: "radiotap_lib \<Rightarrow> bytes \<Rightarrow> uwifi_packet \<Rightarrow> uwifi_packet option" where
  "radiotap_channel R arg p = do {
     f \<leftarrow> rd16 arg 0;
     x \<leftarrow> rd16 arg 2;
     let p = p\<lparr>phy_freq := ucast f\<rparr>;
     let a = CHAN_5GHZ R OR CHAN_OFDM R;
     let g = CHAN_2GHZ R OR CHAN_OFDM R;
     Some (if x AND a = a then p\<lparr>phy_flags := phy_flags p OR PHY_FLAG_A\<rparr>
           else if x AND g = g then p\<lparr>phy_flags := phy_flags p OR PHY_FLAG_G\<rparr>
           else if x AND CHAN_2GHZ R = CHAN_2GHZ R then p\<lparr>phy_flags := phy_flags p OR PHY_FLAG_B\<rparr>
           else p) }"

definition radiotap_flags :: "radiotap_lib \<Rightarrow> bytes \<Rightarrow> uwifi_packet \<Rightarrow> uwifi_packet option" where
  "radiotap_flags R arg p = do {
     b \<leftarrow> rd arg 0;
     let p = (if flag_set b (F_SHORTPRE R) then p\<lparr>phy_flags := phy_flags p OR PHY_FLAG_SHORTPRE\<rparr> else p);
     Some (if flag_set b (F_BADFCS R) then p\<lparr>phy_flags := phy_flags p OR PHY_FLAG_BADFCS\<rparr> else p) }"

definition radiotap_mcs :: "radiotap_lib \<Rightarrow> bytes \<Rightarrow> uwifi_packet \<Rightarrow> uwifi_packet option" where
  "radiotap_mcs R arg p = do {
     known \<leftarrow> rd arg 0;
     flags \<leftarrow> rd arg 1;
     mcs \<leftarrow> rd arg 2;
     let ht20 = (if flag_set known (MCS_HAVE_BW R) then flags AND MCS_BW_MASK R = MCS_BW_20 R else True);
     let lgi = (if flag_set known (MCS_HAVE_GI R) then \<not> flag_set flags (MCS_SGI R) else True);
     Some (p\<lparr>phy_rate_idx := 12 + mcs, phy_rate_flags := flags,
             phy_rate := word_of_int (wlan_ht_mcs_to_rate (uint mcs) ht20 lgi)\<rparr>) }"

definition radiotap_signal :: "bytes \<Rightarrow> uwifi_packet \<Rightarrow> uwifi_packet option" where
  "radiotap_signal arg p = do {
     b \<leftarrow> rd arg 0;
     let c = sint b;
     Some (if c < 0 \<and> (phy_signal p = 0 \<or> c > phy_signal p) then p\<lparr>phy_signal := c\<rparr> else p) }"

definition get_radiotap_info :: "radiotap_lib \<Rightarrow> radiotap_field \<Rightarrow> uwifi_packet \<Rightarrow> uwifi_packet option" where
  "get_radiotap_info R f p =
    (case this_arg_index f of
       IEEE80211_RADIOTAP_TX_FLAGS \<Rightarrow> Some (p\<lparr>phy_injected := True\<rparr>)
     | IEEE80211_RADIOTAP_FLAGS \<Rightarrow> radiotap_flags R (this_arg f) p
     | IEEE80211_RADIOTAP_RATE \<Rightarrow> do {
         b \<leftarrow> rd (this_arg f) 0;
         Some (p\<lparr>phy_rate := ucast b * 5,
                 phy_rate_idx := word_of_int (wlan_rate_to_index (i32 (ucast b * 5)))\<rparr>) }
     | IEEE80211_RADIOTAP_CHANNEL \<Rightarrow> radiotap_channel R (this_arg f) p
     | IEEE80211_RADIOTAP_DBM_ANTSIGNAL \<Rightarrow> radiotap_signal (this_arg f) p
     | IEEE80211_RADIOTAP_MCS \<Rightarrow> radiotap_mcs R (this_arg f) p
     | _ \<Rightarrow> Some p)"

definition radiotap_sanitize :: "uwifi_packet \<Rightarrow> uwifi_packet" where
  "radiotap_sanitize p =
    (if phy_rate p = 0 \<or> phy_rate p > 6000
     then p\<lparr>phy_rate := (if flag_set (phy_flags p) PHY_FLAG_A then 120
                         else if flag_set (phy_flags p) PHY_FLAG_B then 20
                         else if flag_set (phy_flags p) PHY_FLAG_G then 120 else 20)\<rparr>
     else p)"

text \<open>
  \<open>it_len\<close> is read before the length is compared, and it is \<open>it_len\<close>, not the length of the
  buffer, that the iterator gets as its limit.
\<close>

definition uwifi_parse_radiotap ::
    "radiotap_lib \<Rightarrow> bytes \<Rightarrow> nat \<Rightarrow> uwifi_packet \<Rightarrow> (int \<times> uwifi_packet) option" where
  "uwifi_parse_radiotap R buf len p = do {
     l \<leftarrow> it_len R buf;
     let rt_len = uint l;
     if len < radiotap_header_size R then Some (-1, p)
     else do {
       r \<leftarrow> iterate R buf rt_len;
       case r of
         None \<Rightarrow> Some (-1, p)
       | Some fs \<Rightarrow> do {
           p \<leftarrow> foldM (\<lambda>f p. if is_radiotap_ns f then get_radiotap_info R f p else Some p) fs p;
           let p = radiotap_sanitize p;
           Some (if flag_set (phy_flags p) PHY_FLAG_BADFCS then 0 else rt_len, p) } } }"

subsection \<open>The raw frame\<close>

definition ARPHRD_IEEE80211_RADIOTAP :: int where "ARPHRD_IEEE80211_RADIOTAP = 803"
definition ARPHRD_IEEE80211_PRISM :: int where "ARPHRD_IEEE80211_PRISM = 802"

definition uwifi_parse_raw ::
    "radiotap_lib \<Rightarrow> bytes \<Rightarrow> nat \<Rightarrow> uwifi_packet \<Rightarrow> int \<Rightarrow> (int \<times> uwifi_packet) option" where
  "uwifi_parse_raw R buf len p hdr = do {
     (ret, p) \<leftarrow> (if hdr = ARPHRD_IEEE80211_PRISM
                  then uwifi_parse_prism_header buf (i32 (word_of_nat len)) p
                  else if hdr = ARPHRD_IEEE80211_RADIOTAP then uwifi_parse_radiotap R buf len p
                  else Some (-1, p));
     if ret = 0 then Some (ret, p)
     else if ret < 0 then Some (-1, p)
     else if nat ret \<ge> len then Some (-1, p)
     else do {
       (r, p) \<leftarrow> uwifi_parse_80211_header (drop (nat ret) buf) (len - nat ret) p;
       Some (if r \<le> 0 then r else ret + r, p) } }"

definition uwifi_fixup_packet_channel ::
    "uwifi_packet \<Rightarrow> uwifi_interface \<Rightarrow> uwifi_packet \<times> uwifi_interface" where
  "uwifi_fixup_packet_channel p intf =
    (let i = (if phy_freq p \<noteq> 0 then uwifi_channel_idx_from_freq (channels intf) (phy_freq p) else -1);
         p = p\<lparr>pkt_chan_idx := (if i < 0 then channel_idx intf else i)\<rparr>;
         p = (if wlan_channel p = 0 \<and> pkt_chan_idx p \<ge> 0
              then p\<lparr>wlan_channel := word_of_int (uwifi_channel_get_chan (channels intf) (pkt_chan_idx p))\<rparr>
              else p);
         intf = (if channel_idx intf < 0 \<and> pkt_chan_idx p \<ge> 0
                 then intf\<lparr>channel_idx := pkt_chan_idx p\<rparr> else intf)
     in (p, intf))"


subsection \<open>The header parsers stay inside the buffer\<close>

lemma packet_wf_phy [simp]:
  "packet_wf (p\<lparr>phy_signal := a\<rparr>) = packet_wf p" "packet_wf (p\<lparr>phy_rate := b\<rparr>) = packet_wf p"
  "packet_wf (p\<lparr>phy_rate_idx := c\<rparr>) = packet_wf p" "packet_wf (p\<lparr>phy_rate_flags := c\<rparr>) = packet_wf p"
  "packet_wf (p\<lparr>phy_flags := b\<rparr>) = packet_wf p" "packet_wf (p\<lparr>phy_freq := b\<rparr>) = packet_wf p"
  "packet_wf (p\<lparr>phy_injected := d\<rparr>) = packet_wf p"
  by (simp_all add: packet_wf_def)

lemma parse_prism_result:
  assumes "PRISM_HEADER_LEN \<le> length buf \<or> 0 < len" "len \<le> int (length buf)" "packet_wf p"
  shows "\<exists>r p'. uwifi_parse_prism_header buf len p = Some (r, p') \<and> packet_wf p' \<and> (r = -1 \<or> r = 144)"
proof (cases "len > 0 \<and> len < int PRISM_HEADER_LEN")
  case True
  with assms show ?thesis by (simp add: uwifi_parse_prism_header_def)
next
  case False
  with assms have l: "144 \<le> length buf" by (auto simp: PRISM_HEADER_LEN_def)
  have d: "\<exists>w. prism_data buf k = Some w" if "k \<le> 108" for k
    using rd32_ex [of "k + 8" buf] l that by (simp add: prism_data_def item_data_def)
  obtain a b c e f where v: "prism_data buf 48 = Some a" "prism_data buf 60 = Some b"
    "prism_data buf 84 = Some c" "prism_data buf 96 = Some e" "prism_data buf 108 = Some f"
    using d [of 48] d [of 60] d [of 84] d [of 96] d [of 108] by auto
  then have "\<exists>s. prism_signal buf = Some s" "\<exists>r. prism_rate buf = Some r"
    by (simp_all add: prism_signal_def prism_rate_def prism_vals)
  then show ?thesis using v assms(3) False
    by (auto simp: uwifi_parse_prism_header_def prism_vals)
qed

text \<open>
  What the parser relies on in the radiotap library: the header has eight bytes, a run of
  the iterator that is limited to the readable bytes returns, and the argument of a field
  that the parser looks at has at least the size of the field.
\<close>

definition arg_size :: "radiotap_index \<Rightarrow> nat" where
  "arg_size i = (case i of
     IEEE80211_RADIOTAP_FLAGS \<Rightarrow> 1 | IEEE80211_RADIOTAP_RATE \<Rightarrow> 1 | IEEE80211_RADIOTAP_CHANNEL \<Rightarrow> 4
   | IEEE80211_RADIOTAP_DBM_ANTSIGNAL \<Rightarrow> 1 | IEEE80211_RADIOTAP_MCS \<Rightarrow> 3 | _ \<Rightarrow> 0)"

definition field_ok :: "radiotap_field \<Rightarrow> bool" where
  "field_ok f \<longleftrightarrow> arg_size (this_arg_index f) \<le> length (this_arg f)"

definition radiotap_ok :: "radiotap_lib \<Rightarrow> bool" where
  "radiotap_ok R \<longleftrightarrow> radiotap_header_size R = 8 \<and>
     (\<forall>buf. 8 \<le> length buf \<longrightarrow> it_len R buf \<noteq> None) \<and>
     (\<forall>buf n. 0 \<le> n \<longrightarrow> n \<le> int (length buf) \<longrightarrow>
        (\<exists>r. iterate R buf n = Some r \<and> (\<forall>fs. r = Some fs \<longrightarrow> (\<forall>f \<in> set fs. field_ok f))))"

lemma radiotap_cases_ok:
  assumes wf: "packet_wf p"
  shows "1 \<le> length arg \<Longrightarrow> \<exists>p'. radiotap_flags R arg p = Some p' \<and> packet_wf p'"
    and "1 \<le> length arg \<Longrightarrow> \<exists>p'. radiotap_signal arg p = Some p' \<and> packet_wf p'"
    and "4 \<le> length arg \<Longrightarrow> \<exists>p'. radiotap_channel R arg p = Some p' \<and> packet_wf p'"
    and "3 \<le> length arg \<Longrightarrow> \<exists>p'. radiotap_mcs R arg p = Some p' \<and> packet_wf p'"
proof -
  have rd: "rd arg i = Some (arg ! i)" if "i < k" "k \<le> length arg" for i k using that by (simp add: rd_Some)
  assume "1 \<le> length arg"
  then have "rd arg 0 = Some (arg ! 0)" by (intro rd [of _ 1]) simp_all
  then show "\<exists>p'. radiotap_flags R arg p = Some p' \<and> packet_wf p'"
    "\<exists>p'. radiotap_signal arg p = Some p' \<and> packet_wf p'"
    using wf by (simp_all add: radiotap_flags_def radiotap_signal_def Let_def)
next
  assume "4 \<le> length arg"
  then show "\<exists>p'. radiotap_channel R arg p = Some p' \<and> packet_wf p'"
    using wf by (simp add: radiotap_channel_def Let_def rd16_def rd_bytes_def)
next
  assume l: "3 \<le> length arg"
  have "rd arg 0 = Some (arg ! 0)" "rd arg 1 = Some (arg ! 1)" "rd arg 2 = Some (arg ! 2)"
    by (rule rd_Some, use l in linarith)+
  then show "\<exists>p'. radiotap_mcs R arg p = Some p' \<and> packet_wf p'"
    using wf by (simp add: radiotap_mcs_def Let_def)
qed

lemma rd_0_ex: "1 \<le> length arg \<Longrightarrow> \<exists>b. rd arg 0 = Some b"
  by (cases arg) auto

lemma get_radiotap_info_ok:
  assumes "field_ok f" "packet_wf p"
  shows "\<exists>p'. get_radiotap_info R f p = Some p' \<and> packet_wf p'"
proof -
  note l = assms(1) [unfolded field_ok_def arg_size_def]
  note cases = radiotap_cases_ok [OF assms(2), where arg = "this_arg f"] rd_0_ex [of "this_arg f"]
  show ?thesis
    by (cases "this_arg_index f"; use l assms(2) cases in \<open>auto simp: get_radiotap_info_def\<close>)
qed

lemma radiotap_fields_ok:
  "\<forall>f \<in> set fs. field_ok f \<Longrightarrow> packet_wf p \<Longrightarrow>
     \<exists>p'. foldM (\<lambda>f p. if is_radiotap_ns f then get_radiotap_info R f p else Some p) fs p = Some p' \<and> packet_wf p'"
proof (induction fs arbitrary: p)
  case Nil
  then show ?case by simp
next
  case (Cons f fs)
  then obtain p1 where p1: "(if is_radiotap_ns f then get_radiotap_info R f p else Some p) = Some p1" "packet_wf p1"
    using get_radiotap_info_ok [of f p R] by (cases "is_radiotap_ns f") auto
  from p1 Cons.IH [OF _ p1(2)] Cons.prems show ?case by simp
qed

lemma sanitize_rate: "0 < phy_rate (radiotap_sanitize p) \<and> phy_rate (radiotap_sanitize p) \<le> 6000"
  by (simp add: radiotap_sanitize_def word_neq_0_conv not_less)

lemma sanitize_rest [simp]:
  "packet_wf (radiotap_sanitize p) = packet_wf p" "phy_flags (radiotap_sanitize p) = phy_flags p"
  by (simp_all add: radiotap_sanitize_def)

lemma parse_radiotap_runs:
  assumes R: "radiotap_ok R" and l: "8 \<le> length buf" and wf: "packet_wf p"
    and it: "it_len R buf = Some l" "uint l \<le> int (length buf)"
  shows "\<exists>r p'. uwifi_parse_radiotap R buf len p = Some (r, p') \<and> packet_wf p' \<and>
    (r = -1 \<or> (0 < phy_rate p' \<and> phy_rate p' \<le> 6000 \<and>
       r = (if flag_set (phy_flags p') PHY_FLAG_BADFCS then 0 else uint l)))"
proof -
  from R it obtain i where i: "iterate R buf (uint l) = Some i" "\<forall>fs. i = Some fs \<longrightarrow> (\<forall>f \<in> set fs. field_ok f)"
    using uint_ge_0 [of l] unfolding radiotap_ok_def by blast
  show ?thesis
  proof (cases i)
    case None
    with i it wf show ?thesis by (simp add: uwifi_parse_radiotap_def Let_def)
  next
    case (Some fs)
    with i(2) have "\<forall>f \<in> set fs. field_ok f" by simp
    from radiotap_fields_ok [OF this wf, of R] obtain p1 where
      "foldM (\<lambda>f p. if is_radiotap_ns f then get_radiotap_info R f p else Some p) fs p = Some p1" "packet_wf p1"
      by (elim exE conjE)
    then have "uwifi_parse_radiotap R buf len p = (if len < radiotap_header_size R then Some (-1, p)
        else Some (if flag_set (phy_flags p1) PHY_FLAG_BADFCS then 0 else uint l, radiotap_sanitize p1))"
      using Some i(1) it(1) by (simp add: uwifi_parse_radiotap_def Let_def)
    then show ?thesis using \<open>packet_wf p1\<close> wf sanitize_rate [of p1] by simp
  qed
qed


text \<open>The device header alone: the results that \<open>uwifi_parse_raw\<close> distinguishes.\<close>

definition device_header :: "radiotap_lib \<Rightarrow> bytes \<Rightarrow> nat \<Rightarrow> uwifi_packet \<Rightarrow> int \<Rightarrow> (int \<times> uwifi_packet) option" where
  "device_header R buf len p hdr =
    (if hdr = ARPHRD_IEEE80211_PRISM then uwifi_parse_prism_header buf (i32 (word_of_nat len)) p
     else if hdr = ARPHRD_IEEE80211_RADIOTAP then uwifi_parse_radiotap R buf len p
     else Some (-1, p))"

lemma device_header_runs:
  assumes R: "radiotap_ok R" and buf: "len + 32 \<le> length buf" "0 < len" "len < 2 ^ 31" and wf: "packet_wf p"
    and it: "\<And>l. hdr = ARPHRD_IEEE80211_RADIOTAP \<Longrightarrow> it_len R buf = Some l \<Longrightarrow> unat l \<le> length buf"
  shows "\<exists>r p'. device_header R buf len p hdr = Some (r, p') \<and> packet_wf p' \<and> -1 \<le> r"
proof -
  consider "hdr = ARPHRD_IEEE80211_PRISM" | "hdr = ARPHRD_IEEE80211_RADIOTAP" "hdr \<noteq> ARPHRD_IEEE80211_PRISM"
    | "hdr \<noteq> ARPHRD_IEEE80211_PRISM" "hdr \<noteq> ARPHRD_IEEE80211_RADIOTAP" by blast
  then show ?thesis
  proof cases
    case 1
    from buf have i: "i32 (word_of_nat len) = int len" by (intro i32_small) simp
    from parse_prism_result [of buf "int len" p] buf wf obtain r p' where
      "uwifi_parse_prism_header buf (int len) p = Some (r, p')" "packet_wf p'" "r = -1 \<or> r = 144" by auto
    with 1 i show ?thesis by (auto simp: device_header_def)
  next
    case 2
    from buf have l8: "8 \<le> length buf" by simp
    with R obtain l where l: "it_len R buf = Some l" by (auto simp: radiotap_ok_def)
    from it [OF 2(1) l] have "uint l \<le> int (length buf)" by (simp only: uint_nat of_nat_le_iff)
    from parse_radiotap_runs [OF R l8 wf l this, of len] obtain r p' where
      r: "uwifi_parse_radiotap R buf len p = Some (r, p')" "packet_wf p'" "r = -1 \<or> r = 0 \<or> r = uint l"
      by (auto split: if_splits)
    from r(3) uint_ge_0 [of l] have "-1 \<le> r" by linarith
    with 2 r(1,2) show ?thesis by (simp add: device_header_def)
  next
    case 3
    with wf show ?thesis by (simp add: device_header_def)
  qed
qed

lemma parse_raw_runs:
  assumes R: "radiotap_ok R" and buf: "len + 32 \<le> length buf" "0 < len" "len < 2 ^ 31" and wf: "packet_wf p"
    and it: "\<And>l. hdr = ARPHRD_IEEE80211_RADIOTAP \<Longrightarrow> it_len R buf = Some l \<Longrightarrow> unat l \<le> length buf"
  shows "\<exists>r p'. uwifi_parse_raw R buf len p hdr = Some (r, p') \<and> packet_wf p' \<and>
    (r = -1 \<or> r = 0 \<or> (24 < r \<and> r \<le> int len \<and> WLAN_FRAME_IS_DATA (wlan_type p') \<and> \<not> wlan_wep p'))"
proof -
  from device_header_runs [OF R buf wf it] obtain r p1 where
    d: "device_header R buf len p hdr = Some (r, p1)" "packet_wf p1" "-1 \<le> r" by blast
  have run: "uwifi_parse_raw R buf len p hdr =
      (if r = 0 then Some (r, p1) else if r < 0 then Some (-1, p1) else if nat r \<ge> len then Some (-1, p1)
       else do { (q, p) \<leftarrow> uwifi_parse_80211_header (drop (nat r) buf) (len - nat r) p1;
                 Some (if q \<le> 0 then q else r + q, p) })"
    using d(1) by (simp add: uwifi_parse_raw_def device_header_def)
  show ?thesis
  proof (cases "r \<le> 0 \<or> nat r \<ge> len")
    case True
    with run d(2) show ?thesis by auto
  next
    case False
    then have "(len - nat r) + 32 \<le> length (drop (nat r) buf)" using buf by simp
    from parse_header_result [OF this d(2)] obtain q p2 where
      q: "uwifi_parse_80211_header (drop (nat r) buf) (len - nat r) p1 = Some (q, p2)" "packet_wf p2"
        "q = -1 \<or> q = 0 \<or> (24 \<le> q \<and> q \<le> 36 \<and> q \<le> int (len - nat r) \<and> WLAN_FRAME_IS_DATA (wlan_type p2) \<and> \<not> wlan_wep p2)"
      by blast
    from run False q(1) have e: "uwifi_parse_raw R buf len p hdr = Some (if q \<le> 0 then q else r + q, p2)" by simp
    from q(3) show ?thesis
    proof (elim disjE conjE)
      assume "24 \<le> q" "q \<le> int (len - nat r)" "WLAN_FRAME_IS_DATA (wlan_type p2)" "\<not> wlan_wep p2"
      then show ?thesis using e q(2) False by simp
    qed (use e q(2) in simp_all)
  qed
qed

text \<open>Nothing in the code compares the field \<open>it_len\<close> with the bytes that were received before the iterator
  runs on it: an iteration that leaves the buffer makes the whole call undefined, whatever length the frame has.\<close>

lemma radiotap_overread:
  assumes "radiotap_ok R" "8 \<le> len" "it_len R buf = Some l" "iterate R buf (uint l) = None"
  shows "uwifi_parse_raw R buf len p ARPHRD_IEEE80211_RADIOTAP = None"
  using assms
  by (simp add: uwifi_parse_raw_def uwifi_parse_radiotap_def radiotap_ok_def ARPHRD_IEEE80211_RADIOTAP_def
    ARPHRD_IEEE80211_PRISM_def)

text \<open>C5: A frame of 1 to \<open>2^31 - 1\<close> bytes with 32 readable bytes behind it, over a radiotap library that
  keeps its contract.  If the frame has no radiotap header, or the field \<open>it_len\<close> of this header does not
  exceed the readable bytes, then \<open>uwifi_parse_raw\<close> returns and reads inside the buffer,
  through the device header and the 802.11 header behind it; the packet structure stays
  well formed, and the result is \<open>-1\<close>, \<open>0\<close>, or, only for an unprotected data frame, the length
  of both headers, which lies inside the frame.  The bound on \<open>it_len\<close> is a real restriction, which the code
  does not check: it gives the iterator \<open>it_len\<close> as the limit and compares it with the length of the
  frame only afterwards.  So, second, a frame of at least 8 bytes on which an iterator with the limit \<open>it_len\<close> runs out of the
  buffer makes \<open>uwifi_parse_raw\<close> undefined.\<close>

theorem parse_raw_safe:
  assumes R: "radiotap_ok R" and buf: "len + 32 \<le> length buf" "0 < len" "len < 2 ^ 31" and wf: "packet_wf p"
  shows "((\<forall>l. hdr = ARPHRD_IEEE80211_RADIOTAP \<longrightarrow> it_len R buf = Some l \<longrightarrow> unat l \<le> length buf) \<longrightarrow>
      (\<exists>r p'. uwifi_parse_raw R buf len p hdr = Some (r, p') \<and> packet_wf p' \<and>
        (r = -1 \<or> r = 0 \<or> (24 < r \<and> r \<le> int len \<and> WLAN_FRAME_IS_DATA (wlan_type p') \<and> \<not> wlan_wep p')))) \<and>
    (\<forall>l. hdr = ARPHRD_IEEE80211_RADIOTAP \<longrightarrow> 8 \<le> len \<longrightarrow> it_len R buf = Some l \<longrightarrow> iterate R buf (uint l) = None \<longrightarrow>
      uwifi_parse_raw R buf len p hdr = None)"
proof (intro conjI impI allI)
  assume "\<forall>l. hdr = ARPHRD_IEEE80211_RADIOTAP \<longrightarrow> it_len R buf = Some l \<longrightarrow> unat l \<le> length buf"
  then show "\<exists>r p'. uwifi_parse_raw R buf len p hdr = Some (r, p') \<and> packet_wf p' \<and>
        (r = -1 \<or> r = 0 \<or> (24 < r \<and> r \<le> int len \<and> WLAN_FRAME_IS_DATA (wlan_type p') \<and> \<not> wlan_wep p'))"
    by (intro parse_raw_runs [OF R buf wf]) blast
qed (simp add: radiotap_overread [OF R])

text \<open>
  A library with this contract: eight bytes of header with \<open>it_len\<close> at offset 2, behind them
  the fields flags, rate, channel and antenna signal; the constants are the documented ones.
\<close>

definition demo_radiotap :: radiotap_lib where
  "demo_radiotap = \<lparr>radiotap_header_size = 8, it_len = (\<lambda>buf. rd16 buf 2),
     iterate = (\<lambda>buf n. if n < 15 then Some None
       else if int (length buf) < n then None
       else Some (Some (map (\<lambda>(i, k). \<lparr>is_radiotap_ns = True, this_arg_index = i, this_arg = drop k buf\<rparr>)
         [(IEEE80211_RADIOTAP_FLAGS, 8), (IEEE80211_RADIOTAP_RATE, 9), (IEEE80211_RADIOTAP_CHANNEL, 10),
          (IEEE80211_RADIOTAP_DBM_ANTSIGNAL, 14)]))),
     F_SHORTPRE = 0x02, F_BADFCS = 0x40, CHAN_5GHZ = 0x0100, CHAN_2GHZ = 0x0080, CHAN_OFDM = 0x0040,
     MCS_HAVE_BW = 0x01, MCS_BW_MASK = 0x03, MCS_BW_20 = 0, MCS_HAVE_GI = 0x04, MCS_SGI = 0x04\<rparr>"

lemma demo_radiotap_ok: "radiotap_ok demo_radiotap"
  by (auto simp: radiotap_ok_def demo_radiotap_def rd16_eq_None field_ok_def arg_size_def)

definition demo_frame :: bytes where
  "demo_frame = [0, 0, 15, 0, 0, 0, 0, 0, 2, 12, 0x6c, 0x09, 0xC0, 0, 0xC8] @ le16_enc WLAN_FRAME_DATA @ replicate 100 0"

lemma demo_len: "it_len demo_radiotap demo_frame = Some 15" "length demo_frame = 117"
  by code_simp+

text \<open>The same frame, but with an \<open>it_len\<close> of 65535.\<close>

definition long_frame :: bytes where
  "long_frame = [0, 0, 255, 255] @ drop 4 demo_frame"

lemma long_len: "it_len demo_radiotap long_frame = Some 65535" "length long_frame = 117"
  "iterate demo_radiotap long_frame (uint (65535 :: u16)) = None"
  by code_simp+

lemma parse_raw_safe_witness:
  "(\<exists>r p'. uwifi_parse_raw demo_radiotap demo_frame 60 zero_packet 803 = Some (r, p') \<and> packet_wf p') \<and>
   uwifi_parse_raw demo_radiotap long_frame 60 zero_packet 803 = None"
  using parse_raw_safe [OF demo_radiotap_ok, of 60 demo_frame zero_packet 803]
    parse_raw_safe [OF demo_radiotap_ok, of 60 long_frame zero_packet 803] zero_packet_wf demo_len long_len
  by (auto simp: ARPHRD_IEEE80211_RADIOTAP_def)

subsection \<open>Signal strength and channel\<close>

definition best_signal :: "int list \<Rightarrow> int" where
  "best_signal cs = (if \<exists>c \<in> set cs. c < 0 then Max {c \<in> set cs. c < 0} else 0)"

definition signal_step :: "int \<Rightarrow> int \<Rightarrow> int" where
  "signal_step c s = (if c < 0 \<and> (s = 0 \<or> c > s) then c else s)"

lemma best_signal_snoc: "best_signal (cs @ [c]) = signal_step c (best_signal cs)"
proof (cases "c < 0")
  case False
  then have "{x \<in> set (cs @ [c]). x < 0} = {x \<in> set cs. x < 0}" by auto
  with False show ?thesis by (auto simp: best_signal_def signal_step_def)
next
  case True
  then have s: "{x \<in> set (cs @ [c]). x < 0} = insert c {x \<in> set cs. x < 0}" by auto
  show ?thesis
  proof (cases "\<exists>x \<in> set cs. x < 0")
    case True
    then have ne: "{x \<in> set cs. x < 0} \<noteq> {}" by auto
    have "Max {x \<in> set cs. x < 0} \<in> {x \<in> set cs. x < 0}" using ne by (intro Max_in) simp_all
    then have neg: "Max {x \<in> set cs. x < 0} < 0" by simp
    have "best_signal (cs @ [c]) = max c (Max {x \<in> set cs. x < 0})"
      using True \<open>c < 0\<close> s ne by (simp add: best_signal_def)
    with True \<open>c < 0\<close> neg show ?thesis by (simp add: signal_step_def best_signal_def max_def)
  next
    case False
    then have "{x \<in> set cs. x < 0} = {}" by auto
    with False s \<open>c < 0\<close> show ?thesis by (simp add: best_signal_def signal_step_def)
  qed
qed

lemma best_signal_fold: "fold signal_step cs 0 = best_signal cs"
  by (induction cs rule: rev_induct) (simp_all add: best_signal_snoc, simp add: best_signal_def)

definition antsignal :: "u8 \<Rightarrow> radiotap_field" where
  "antsignal b = \<lparr>is_radiotap_ns = True, this_arg_index = IEEE80211_RADIOTAP_DBM_ANTSIGNAL, this_arg = [b]\<rparr>"

lemma antsignal_fields:
  "foldM (\<lambda>f p. if is_radiotap_ns f then get_radiotap_info R f p else Some p) (map antsignal bs) p =
    Some (p\<lparr>phy_signal := fold signal_step (map sint bs) (phy_signal p)\<rparr>)"
  by (induction bs arbitrary: p)
    (simp_all add: antsignal_def get_radiotap_info_def radiotap_signal_def signal_step_def Let_def, auto)

text \<open>With one signal field per receive chain the
  packet gets the strongest signal: the maximum of the negative values, and 0, unknown, when
  no value is negative.\<close>

theorem antenna_signal_max:
  "foldM (\<lambda>f p. if is_radiotap_ns f then get_radiotap_info R f p else Some p) (map antsignal bs)
     (p\<lparr>phy_signal := 0\<rparr>) = Some (p\<lparr>phy_signal := best_signal (map sint bs)\<rparr>)"
  by (simp add: antsignal_fields best_signal_fold)

lemma fixup_eq:
  "uwifi_fixup_packet_channel p intf =
    (let i = uwifi_channel_idx_from_freq (channels intf) (phy_freq p);
         k = (if phy_freq p \<noteq> 0 \<and> 0 \<le> i then i else channel_idx intf)
     in (p\<lparr>pkt_chan_idx := k,
           wlan_channel := (if wlan_channel p = 0 \<and> 0 \<le> k
             then word_of_int (uwifi_channel_get_chan (channels intf) k) else wlan_channel p)\<rparr>,
         if channel_idx intf < 0 \<and> 0 \<le> k then intf\<lparr>channel_idx := k\<rparr> else intf))"
  by (cases "phy_freq p = 0"; cases "0 \<le> uwifi_channel_idx_from_freq (channels intf) (phy_freq p)";
      cases "0 \<le> channel_idx intf"; cases "wlan_channel p = 0"; simp add: uwifi_fixup_packet_channel_def Let_def)

text \<open>\<open>uwifi_fixup_packet_channel\<close> enters in the packet
  the index of its frequency in the channel table, and when the packet has none or it is not
  in the table, the current channel of the interface.  Both indices stay inside the table, an
  unknown current channel is taken from the packet and a known one is kept, and the channel
  number of the packet is only changed when it was unknown, to the number of that entry.\<close>

theorem fixup_channel:
  assumes wf: "channels_wf (channels intf)" and cur: "-1 \<le> channel_idx intf" "channel_idx intf < num_channels (channels intf)"
    and r: "uwifi_fixup_packet_channel p intf = (p', intf')"
  shows "pkt_chan_idx p' = (if phy_freq p \<noteq> 0 \<and> phy_freq p \<in> cf_freq ` set (used (channels intf))
                            then uwifi_channel_idx_from_freq (channels intf) (phy_freq p) else channel_idx intf) \<and>
    channel_idx intf' = (if channel_idx intf = -1 then pkt_chan_idx p' else channel_idx intf) \<and>
    channels intf' = channels intf \<and>
    (0 \<le> pkt_chan_idx p' \<longrightarrow> nat (pkt_chan_idx p') < length (used (channels intf)) \<and>
       (phy_freq p \<noteq> 0 \<and> phy_freq p \<in> cf_freq ` set (used (channels intf)) \<longrightarrow>
          cf_freq (used (channels intf) ! nat (pkt_chan_idx p')) = phy_freq p)) \<and>
    wlan_channel p' = (if wlan_channel p = 0 \<and> 0 \<le> pkt_chan_idx p'
                       then word_of_int (cf_chan (used (channels intf) ! nat (pkt_chan_idx p'))) else wlan_channel p)"
proof -
  let ?cs = "channels intf" and ?i = "uwifi_channel_idx_from_freq (channels intf) (phy_freq p)"
  let ?hit = "phy_freq p \<noteq> 0 \<and> phy_freq p \<in> cf_freq ` set (used ?cs)"
  define k where "k = (if ?hit then ?i else channel_idx intf)"
  have i: "0 \<le> ?i \<longleftrightarrow> phy_freq p \<in> cf_freq ` set (used ?cs)" by (rule by_freq.idx_nonneg)
  have k: "-1 \<le> k" "k < num_channels ?cs"
    using idx_from_freq_lt [OF wf, of "phy_freq p"] cur by (simp_all add: k_def)
  have hit: "cf_freq (used ?cs ! nat k) = phy_freq p" if "?hit"
    using that by_freq.idx_hit [of ?cs "phy_freq p"] i by (simp add: k_def)
  have "uwifi_fixup_packet_channel p intf =
      (p\<lparr>pkt_chan_idx := k, wlan_channel := (if wlan_channel p = 0 \<and> 0 \<le> k
           then word_of_int (uwifi_channel_get_chan ?cs k) else wlan_channel p)\<rparr>,
       if channel_idx intf < 0 \<and> 0 \<le> k then intf\<lparr>channel_idx := k\<rparr> else intf)"
    using i by (simp add: fixup_eq Let_def k_def)
  with r have p: "p' = p\<lparr>pkt_chan_idx := k, wlan_channel := (if wlan_channel p = 0 \<and> 0 \<le> k
           then word_of_int (uwifi_channel_get_chan ?cs k) else wlan_channel p)\<rparr>"
    and intf: "intf' = (if channel_idx intf < 0 \<and> 0 \<le> k then intf\<lparr>channel_idx := k\<rparr> else intf)" by simp_all
  have idx: "pkt_chan_idx p' = k" and chan: "wlan_channel p' = (if wlan_channel p = 0 \<and> 0 \<le> k
      then word_of_int (uwifi_channel_get_chan ?cs k) else wlan_channel p)"
    by (simp_all add: p)
  have "k = -1" if "channel_idx intf < 0" "\<not> 0 \<le> k" using that k by simp
  then have "channel_idx intf' = (if channel_idx intf = -1 then k else channel_idx intf) \<and> channels intf' = ?cs"
    using intf cur by auto
  moreover have "nat k < length (used ?cs)" if "0 \<le> k" using that k wf by (simp add: used_length)
  moreover have "uwifi_channel_get_chan ?cs k = cf_chan (used ?cs ! nat k)" if "0 \<le> k"
    using that k wf by (intro get_chan_used)
  ultimately show ?thesis using idx chan hit by (simp add: k_def)
qed

lemma fixup_channel_witness:
  "pkt_chan_idx (fst (uwifi_fixup_packet_channel (zero_packet\<lparr>phy_freq := 2432\<rparr>) intf2)) = 1 \<and>
   wlan_channel (fst (uwifi_fixup_packet_channel (zero_packet\<lparr>phy_freq := 2432\<rparr>) intf2)) = 5"
proof -
  have i: "uwifi_channel_idx_from_freq table2 2432 = 1" by (simp add: uwifi_channel_idx_from_freq_def table2_used)
  have n: "num_channels table2 = 2" by (simp add: table2_def)
  show ?thesis
    using fixup_channel [of intf2 "zero_packet\<lparr>phy_freq := 2432\<rparr>"
        "fst (uwifi_fixup_packet_channel (zero_packet\<lparr>phy_freq := 2432\<rparr>) intf2)"
        "snd (uwifi_fixup_packet_channel (zero_packet\<lparr>phy_freq := 2432\<rparr>) intf2)"] table2_wf i n
    by (simp add: intf2_def table2_used zero_packet_def)
qed

end
