(* ===== verification/Pcap_Capture.thy ===== *)
theory Pcap_Capture
  imports Raw_Parser
begin

text \<open>
  \<open>osx/capture-pcap.c\<close>, packet capture by libpcap, and \<open>esp32/platform.c\<close>, a clock.

  libpcap is the record \<open>pcap_lib\<close> over a world \<open>'w\<close>.  Capture handles are numbered in the
  order of their creation; the state holds which are open and the variable \<open>pcap_fp\<close>.  A packet
  is its length on the wire and the bytes that were captured; \<open>pcap_dispatch\<close> with a count of one
  hands at most one to the handler.  The platform is Apple's.
\<close>

subsection \<open>libpcap\<close>

record 'w pcap_lib =
  pc_create :: "string \<Rightarrow> 'w \<Rightarrow> bool \<times> 'w"
  pc_set_promisc :: "nat \<Rightarrow> int \<Rightarrow> 'w \<Rightarrow> 'w"
  pc_can_set_rfmon :: "nat \<Rightarrow> 'w \<Rightarrow> bool \<times> 'w"
  pc_set_rfmon :: "nat \<Rightarrow> int \<Rightarrow> 'w \<Rightarrow> 'w"
  pc_activate :: "nat \<Rightarrow> 'w \<Rightarrow> int \<times> 'w"
  pc_fileno :: "nat \<Rightarrow> int"
  pc_datalink :: "nat \<Rightarrow> int"
  pc_dispatch :: "nat \<Rightarrow> 'w \<Rightarrow> (int \<times> (u32 \<times> bytes) option) \<times> 'w"

record 'w pcap_state =
  pc_open :: "bool list"
  pcap_fp :: "nat option"
  pc_world :: 'w

definition live_pcap :: "'w pcap_state \<Rightarrow> nat \<Rightarrow> bool" where
  "live_pcap s i \<longleftrightarrow> i < length (pc_open s) \<and> pc_open s ! i"

definition pc_run :: "('w \<Rightarrow> 'r \<times> 'w) \<Rightarrow> 'w pcap_state \<Rightarrow> 'r \<times> 'w pcap_state" where
  "pc_run f s = (case f (pc_world s) of (r, w) \<Rightarrow> (r, s\<lparr>pc_world := w\<rparr>))"

definition pc_do :: "('w \<Rightarrow> 'w) \<Rightarrow> 'w pcap_state \<Rightarrow> 'w pcap_state" where
  "pc_do f s = s\<lparr>pc_world := f (pc_world s)\<rparr>"

definition DLT_PRISM_HEADER :: int where "DLT_PRISM_HEADER = 119"
definition DLT_IEEE802_11_RADIO :: int where "DLT_IEEE802_11_RADIO = 127"

subsection \<open>The functions\<close>

text \<open>
  The handler gets \<open>pcap_buffer\<close> and \<open>pcap_bufsize\<close> and writes the length to \<open>*user\<close>;
  \<open>memmove\<close> must stay inside the captured bytes and inside the buffer.
\<close>

definition handler :: "nat \<Rightarrow> bytes \<Rightarrow> u32 \<Rightarrow> bytes \<Rightarrow> (int \<times> bytes) option" where
  "handler bufsize buffer len captured =
    (let n = (if bufsize < unat len then i32 (word_of_nat bufsize) else i32 len) in do {
       guard_ub (0 \<le> n \<and> nat n \<le> length captured \<and> nat n \<le> length buffer);
       Some (n, take (nat n) captured @ drop (nat n) buffer) })"

text \<open>\<open>packet_socket_open\<close>; \<open>Inl\<close> is the exit status of \<open>err\<close>.\<close>

definition pcap_socket_open :: "'w pcap_lib \<Rightarrow> string \<Rightarrow> 'w pcap_state \<Rightarrow> (int + int) \<times> 'w pcap_state" where
  "pcap_socket_open L devname s =
    (let (ok, s) = pc_run (pc_create L devname) s in
     if \<not> ok then (Inr (-1), s\<lparr>pcap_fp := None\<rparr>)
     else
       (let i = length (pc_open s);
            s = s\<lparr>pc_open := pc_open s @ [True], pcap_fp := Some i\<rparr>;
            s = pc_do (pc_set_promisc L i 1) s;
            (can, s) = pc_run (pc_can_set_rfmon L i) s in
        if \<not> can then (Inl 1, s)
        else
          (let s = pc_do (pc_set_rfmon L i 1) s;
               (ret, s) = pc_run (pc_activate L i) s in
           if ret < 0 then (Inr (-1), s) else (Inr (pc_fileno L i), s))))"

definition device_get_hwinfo :: "'w pcap_lib \<Rightarrow> 'w pcap_state \<Rightarrow> int option" where
  "device_get_hwinfo L s =
    (case pcap_fp s of
       None \<Rightarrow> Some (-1)
     | Some i \<Rightarrow> do {
         guard_ub (live_pcap s i);
         Some (if pc_datalink L i = DLT_IEEE802_11_RADIO then 803
               else if pc_datalink L i = DLT_PRISM_HEADER then 802 else 801) })"

definition capture_recv :: "'w pcap_lib \<Rightarrow> bytes \<Rightarrow> nat \<Rightarrow> 'w pcap_state \<Rightarrow> (int \<times> bytes \<times> 'w pcap_state) option" where
  "capture_recv L buffer bufsize s = do {
     i \<leftarrow> pcap_fp s;
     guard_ub (live_pcap s i);
     let ((count, packet), s) = pc_run (pc_dispatch L i) s;
     (ret, buffer) \<leftarrow> (case packet of
         None \<Rightarrow> Some (0, buffer)
       | Some (len, captured) \<Rightarrow> handler bufsize buffer len captured);
     Some (if count = 0 then -1 else ret, buffer, s) }"

definition capture_close :: "'w pcap_state \<Rightarrow> 'w pcap_state option" where
  "capture_close s =
    (case pcap_fp s of
       None \<Rightarrow> Some s
     | Some i \<Rightarrow> do { guard_ub (live_pcap s i); Some (s\<lparr>pc_open := (pc_open s)[i := False]\<rparr>) })"

text \<open>\<open>esp32/platform.c\<close>: the seconds and microseconds of \<open>gettimeofday\<close>; \<open>time_t\<close> has 64 bits.\<close>

definition esp32_time_usec :: "('w \<Rightarrow> (int \<times> int) \<times> 'w) \<Rightarrow> 'w \<Rightarrow> u32 \<times> 'w" where
  "esp32_time_usec gettimeofday w =
    (let ((sec, usec), w) = gettimeofday w in (word_of_int (sec * 1000000 + usec), w))"

subsection \<open>Opening and closing\<close>

text \<open>
  The variable \<open>pcap_fp\<close> keeps its value when the handle is closed; so only the last handle of
  \<open>packet_socket_open\<close> can be closed, and only once.
\<close>

lemma open_handle:
  assumes "pcap_socket_open L name s = (r, s')"
  shows "(r = Inr (-1) \<and> pcap_fp s' = None \<and> pc_open s' = pc_open s) \<or>
    (pcap_fp s' = Some (length (pc_open s)) \<and> pc_open s' = pc_open s @ [True])"
  using assms by (auto simp: pcap_socket_open_def pc_run_def pc_do_def Let_def split: prod.splits if_splits)

lemma close_twice:
  assumes "pcap_fp s = Some i" "capture_close s = Some s1"
  shows "capture_close s1 = None \<and> device_get_hwinfo L s1 = None \<and> capture_recv L buf n s1 = None"
  using assms by (auto simp: bind_conv capture_close_def device_get_hwinfo_def capture_recv_def live_pcap_def)

lemma hwinfo_monitor:
  assumes "pcap_fp s = Some i" "live_pcap s i"
  shows "device_get_hwinfo L s = Some ARPHRD_IEEE80211_RADIOTAP \<longleftrightarrow> pc_datalink L i = DLT_IEEE802_11_RADIO"
    "device_get_hwinfo L s = Some ARPHRD_IEEE80211_PRISM \<longleftrightarrow> pc_datalink L i = DLT_PRISM_HEADER"
  using assms
  by (auto simp: device_get_hwinfo_def ARPHRD_IEEE80211_RADIOTAP_def ARPHRD_IEEE80211_PRISM_def
      DLT_IEEE802_11_RADIO_def DLT_PRISM_HEADER_def)

subsection \<open>Receiving\<close>

lemma handler_eq:
  assumes b: "bufsize \<le> length buffer" "bufsize < 2 ^ 31"
  shows "handler bufsize buffer len captured =
    (let n = min (unat len) bufsize in
     if n \<le> length captured then Some (int n, take n captured @ drop n buffer) else None)"
proof -
  have "unat len < 2 ^ 31 \<Longrightarrow> i32 len = int (unat len)" using i32_small [of "unat len"] by simp
  then have "(if bufsize < unat len then i32 (word_of_nat bufsize) else i32 len) = int (min (unat len) bufsize)"
    using b(2) i32_small [of bufsize] by (auto simp: min_def)
  then show ?thesis using b(1) by (auto simp: handler_def Let_def min_def)
qed

lemma capture_recv_eq:
  assumes fp: "pcap_fp s = Some i" "live_pcap s i" and b: "bufsize \<le> length buffer" "bufsize < 2 ^ 31"
    and d: "pc_dispatch L i (pc_world s) = ((count, packet), w)"
  shows "capture_recv L buffer bufsize s =
    (case packet of
       None \<Rightarrow> Some (if count = 0 then -1 else 0, buffer, s\<lparr>pc_world := w\<rparr>)
     | Some (len, captured) \<Rightarrow>
         let n = min (unat len) bufsize in
         if n \<le> length captured
         then Some (if count = 0 then -1 else int n, take n captured @ drop n buffer, s\<lparr>pc_world := w\<rparr>)
         else None)"
  using fp d by (simp add: capture_recv_def pc_run_def handler_eq [OF b] Let_def split: option.split prod.split)

text \<open>C33: \<open>capture_recv\<close> on an open handle, with a buffer of the stated
  size.  A packet is cut to the buffer and its length returned, but the copy is as long as the
  packet was on the wire: the call is undefined when fewer bytes were captured.  When no packet
  is handed over the result is \<open>-1\<close> for a time-out, and 0, an empty packet, when
  \<open>pcap_dispatch\<close> fails.\<close>

theorem capture_recv_spec:
  assumes fp: "pcap_fp s = Some i" "live_pcap s i" and b: "bufsize \<le> length buffer" "bufsize < 2 ^ 31"
    and d: "pc_dispatch L i (pc_world s) = ((count, packet), w)"
  shows "capture_recv L buffer bufsize s =
    (case packet of
       None \<Rightarrow> Some (if count = 0 then -1 else 0, buffer, s\<lparr>pc_world := w\<rparr>)
     | Some (len, captured) \<Rightarrow>
         let n = min (unat len) bufsize in
         if n \<le> length captured
         then Some (if count = 0 then -1 else int n, take n captured @ drop n buffer, s\<lparr>pc_world := w\<rparr>)
         else None)"
  by (rule capture_recv_eq [OF assms])

definition test_pcap :: "(int \<times> (u32 \<times> bytes) option) pcap_lib" where
  "test_pcap = \<lparr>pc_create = (\<lambda>name. Pair True), pc_set_promisc = (\<lambda>i n w. w), pc_can_set_rfmon = (\<lambda>i. Pair True),
     pc_set_rfmon = (\<lambda>i n w. w), pc_activate = (\<lambda>i. Pair 0), pc_fileno = (\<lambda>i. 5), pc_datalink = (\<lambda>i. 127),
     pc_dispatch = (\<lambda>i w. (w, w))\<rparr>"

lemma capture_recv_spec_witness:
  "capture_recv test_pcap [0, 0, 0] 2 \<lparr>pc_open = [True], pcap_fp = Some 0, pc_world = (1, Some (4, [7, 8, 9, 10]))\<rparr> =
    Some (2, [7, 8, 0], \<lparr>pc_open = [True], pcap_fp = Some 0, pc_world = (1, Some (4, [7, 8, 9, 10]))\<rparr>)"
  using capture_recv_spec [of "\<lparr>pc_open = [True], pcap_fp = Some 0, pc_world = (1, Some (4, [7, 8, 9, 10]))\<rparr>" 0 2
      "[0, 0, 0]" test_pcap 1 "Some (4, [7, 8, 9, 10])" "(1, Some (4, [7, 8, 9, 10]))"]
  by (simp add: live_pcap_def test_pcap_def)

text \<open>An error of libpcap, and a packet of which only the first bytes were captured.\<close>

lemma capture_recv_examples:
  "capture_recv test_pcap [0, 0, 0] 2 \<lparr>pc_open = [True], pcap_fp = Some 0, pc_world = (-1, None)\<rparr> =
    Some (0, [0, 0, 0], \<lparr>pc_open = [True], pcap_fp = Some 0, pc_world = (-1, None)\<rparr>)"
  "capture_recv test_pcap [0, 0, 0] 3 \<lparr>pc_open = [True], pcap_fp = Some 0, pc_world = (1, Some (4, [7, 8]))\<rparr> = None"
  by (simp_all add: capture_recv_def pc_run_def live_pcap_def test_pcap_def handler_eq)

text \<open>Differences of two readings of the clock are exact as long as they are less than \<open>2^32\<close>.\<close>

lemma esp32_time_difference:
  assumes "gettimeofday w = ((s1, u1), w1)" "gettimeofday v = ((s2, u2), v1)"
    and "0 \<le> (s2 - s1) * 1000000 + (u2 - u1)" "(s2 - s1) * 1000000 + (u2 - u1) < 2 ^ 32"
  shows "uint (fst (esp32_time_usec gettimeofday v) - fst (esp32_time_usec gettimeofday w)) =
    (s2 - s1) * 1000000 + (u2 - u1)"
proof -
  define d where "d = (s2 - s1) * 1000000 + (u2 - u1)"
  have "fst (esp32_time_usec gettimeofday v) - fst (esp32_time_usec gettimeofday w) = word_of_int d"
    using assms(1,2) by (simp add: esp32_time_usec_def d_def algebra_simps)
  moreover have "uint (word_of_int d :: u32) = d"
    using assms(3,4) unfolding d_def [symmetric] by (simp add: uint_word_of_int)
  ultimately show ?thesis by (simp add: d_def)
qed

end
