(* ===== verification/Receive.thy ===== *)
theory Receive
  imports Network Raw_Parser Pcap_Capture
begin

text \<open>
  The components on the way of a frame, composed as an application composes them: capture,
  \<open>uwifi_parse_raw\<close>, \<open>uwifi_fixup_packet_channel\<close>, \<open>uwifi_node_update\<close>, \<open>uwifi_nodes_find_ap\<close>
  and \<open>uwifi_essids_update\<close>.  The theorems show that what each of them leaves is what the next
  one needs.
\<close>

subsection \<open>What the steps leave to the next one\<close>

lemma fixup_wf: "packet_wf (fst (uwifi_fixup_packet_channel p intf)) = packet_wf p"
  by (simp add: uwifi_fixup_packet_channel_def Let_def packet_wf_def)

lemma node_update_packet:
  assumes "uwifi_node_update now m p H h = Some (r, p', h')"
  shows "packet_wf p' = packet_wf p"
proof -
  have c: "packet_wf q' = packet_wf q" if "copy_nodeinfo now i q g = Some (q', g')" for i q q' g g'
    using that by (auto simp: copy_nodeinfo_def bind_conv Let_def packet_wf_def)
  show ?thesis using assms by (auto simp: uwifi_node_update_def bind_conv split: if_splits dest!: c)
qed

definition room :: "wheap \<Rightarrow> bool" where
  "room h \<longleftrightarrow> finite (dom (node_at h)) \<and> card (dom (node_at h)) < 2 ^ 32 - 2"

lemma room_few: "room h \<Longrightarrow> few_nodes h"
  by (simp add: room_def few_nodes_def)

lemma room_insert:
  assumes "room h" "dom (node_at h') \<subseteq> insert i (dom (node_at h))"
  shows "few_nodes h'"
proof -
  have f: "finite (insert i (dom (node_at h)))" using assms(1) by (simp add: room_def)
  from card_mono [OF f assms(2)] card_insert_le_m1 [of "Suc (card (dom (node_at h)))" "dom (node_at h)" i] assms(1)
  have "card (dom (node_at h')) \<le> Suc (card (dom (node_at h)))" by simp
  with assms(1) finite_subset [OF assms(2) f] show ?thesis by (simp add: few_nodes_def room_def)
qed

lemma update_and_link:
  assumes r: "reachable h" and h: "room h" and p: "packet_wf p" and m: "node_at h m = None" and e: "essid_at h e = None"
  shows "\<exists>i p' h'. uwifi_node_update now (Some m) p NODES h = Some (i, p', h') \<and> packet_wf p' \<and> reachable h' \<and>
    (case i of
       None \<Rightarrow> h' = h \<and> (flag_set (phy_flags p) PHY_FLAG_BADFCS \<or> \<not> MAC_NOT_EMPTY (wlan_ta p))
     | Some i \<Rightarrow> \<not> flag_set (phy_flags p) PHY_FLAG_BADFCS \<and> MAC_NOT_EMPTY (wlan_ta p) \<and>
         (\<exists>n h1 h2. node_at h' i = Some n \<and> n_wlan_src n = wlan_ta p \<and> n_last_seen n = now \<and>
         uwifi_nodes_find_ap i NODES h' = Some h1 \<and> reachable h1 \<and>
         uwifi_essids_update (Some e) ESSIDS (Some p') (Some i) h1 = Some h2 \<and> reachable h2))"
proof (cases "flag_set (phy_flags p) PHY_FLAG_BADFCS \<or> \<not> MAC_NOT_EMPTY (wlan_ta p)")
  case True
  then have "uwifi_node_update now (Some m) p NODES h = Some (None, p, h)" by (auto simp: uwifi_node_update_def)
  with True r p show ?thesis by simp
next
  case False
  from reachable_ok [OF r] obtain T where T: "tables_ok h T" by blast
  from node_update_run [OF T p m, of now] False obtain i n' p' h' where
    u: "uwifi_node_update now (Some m) p NODES h = Some (Some i, p', h')" "node_at h' = (node_at h)(i \<mapsto> n')"
      "essid_at h' = essid_at h" "n_wlan_src n' = wlan_ta p" "n_last_seen n' = now" by blast
  have p': "packet_wf p'" using node_update_packet [OF u(1)] p by simp
  have r1: "reachable h'"
    by (rule reachable_step [OF r room_few [OF h], of "Node_Update now m p"]) (use u(1) p m in simp_all)
  have f1: "few_nodes h'" by (rule room_insert [OF h, of _ i]) (use u(2) in auto)
  from reachable_ok [OF r1] obtain T' where T': "tables_ok h' T'" by blast
  have i: "node_at h' i = Some n'" using u(2) by simp
  from find_ap_run [OF T' i] obtain h1 s where
    a: "uwifi_nodes_find_ap i NODES h' = Some h1" "node_at h1 = (node_at h')(i \<mapsto> n'\<lparr>n_ap_node := s\<rparr>)"
      "essid_at h1 = essid_at h'" by blast
  have r2: "reachable h1"
    by (rule reachable_step [OF r1 f1, of "Nodes_Find_Ap i"]) (use a(1) i in simp_all)
  have f2: "few_nodes h1" by (rule room_insert [OF h, of _ i]) (use u(2) a(2) in auto)
  have "allowed (Essids_Update e p' i) h1" using p' e a(2,3) u(3) by simp
  with network_sound_step [OF r2 f2] obtain h2 where
    "exec (Essids_Update e p' i) h1 = Some h2" "reachable h2" by blast
  with False u(1,4,5) p' r1 i a(1) r2 show ?thesis by auto
qed

subsection \<open>From the capture to the tables\<close>

text \<open>What \<open>capture_recv\<close> leaves in a buffer with 32 spare bytes is fit for the parser.\<close>

lemma captured_frame:
  assumes "capture_recv L buffer bufsize s = Some (n, buf, s')" and b: "bufsize + 32 \<le> length buffer" "bufsize < 2 ^ 31"
    and n: "0 < n"
  shows "nat n + 32 \<le> length buf \<and> 0 < nat n \<and> nat n < 2 ^ 31"
proof -
  from assms(1) obtain i where i: "pcap_fp s = Some i" "live_pcap s i" by (auto simp: capture_recv_def bind_conv)
  obtain count packet w where d: "pc_dispatch L i (pc_world s) = ((count, packet), w)"
    by (cases "pc_dispatch L i (pc_world s)") auto
  have e: "capture_recv L buffer bufsize s =
    (case packet of
       None \<Rightarrow> Some (if count = 0 then -1 else 0, buffer, s\<lparr>pc_world := w\<rparr>)
     | Some (len, captured) \<Rightarrow>
         let n = min (unat len) bufsize in
         if n \<le> length captured
         then Some (if count = 0 then -1 else int n, take n captured @ drop n buffer, s\<lparr>pc_world := w\<rparr>)
         else None)"
    using b by (intro capture_recv_eq [OF i _ _ d]) simp_all
  show ?thesis
  proof (cases packet)
    case None
    with e assms(1) n show ?thesis by (auto split: if_splits)
  next
    case (Some q)
    obtain len captured where q: "q = (len, captured)" by (cases q)
    define k where "k = min (unat len) bufsize"
    have k: "k \<le> length captured" "n = int k" "buf = take k captured @ drop k buffer"
      using e assms(1) n by (auto simp: Some q Let_def k_def [symmetric] split: if_splits)
    have "k \<le> bufsize" by (simp add: k_def)
    with k b n show ?thesis by auto
  qed
qed

text \<open>C6: The receive path as a whole.  A frame of 1 to \<open>2^31 - 1\<close> bytes with 32 readable bytes behind it,
  whose field \<open>it_len\<close>, if it has a radiotap header, does not exceed the readable bytes (the code does not check this); a
  radiotap library that keeps its contract; tables that calls of the library have built, with less than
  \<open>2^32 - 2\<close> nodes; and fresh memory for a node and an ESSID.  Then parsing the frame into a zeroed packet structure, completing
  its channel, entering its transmitter into the node table, linking that node to its access point
  and entering its network name all return, stay inside live memory, and leave a reachable state of
  the tables; a node is returned, with the address of the transmitter and the time, exactly unless
  the frame has a bad checksum or no transmitter.\<close>

theorem frame_enters_tables:
  assumes R: "radiotap_ok R" and buf: "len + 32 \<le> length buf" "0 < len" "len < 2 ^ 31"
    and it: "\<And>l. hdr = ARPHRD_IEEE80211_RADIOTAP \<Longrightarrow> it_len R buf = Some l \<Longrightarrow> unat l \<le> length buf"
    and h: "reachable h" "room h" and fresh: "node_at h m = None" "essid_at h e = None"
  shows "\<exists>ret p0 p i p' h'. uwifi_parse_raw R buf len zero_packet hdr = Some (ret, p0) \<and>
    p = fst (uwifi_fixup_packet_channel p0 intf) \<and>
    uwifi_node_update now (Some m) p NODES h = Some (i, p', h') \<and> reachable h' \<and>
    (case i of
       None \<Rightarrow> h' = h \<and> (flag_set (phy_flags p) PHY_FLAG_BADFCS \<or> \<not> MAC_NOT_EMPTY (wlan_ta p))
     | Some i \<Rightarrow> \<not> flag_set (phy_flags p) PHY_FLAG_BADFCS \<and> MAC_NOT_EMPTY (wlan_ta p) \<and>
         (\<exists>n h1 h2. node_at h' i = Some n \<and> n_wlan_src n = wlan_ta p \<and> n_last_seen n = now \<and>
         uwifi_nodes_find_ap i NODES h' = Some h1 \<and> reachable h1 \<and>
         uwifi_essids_update (Some e) ESSIDS (Some p') (Some i) h1 = Some h2 \<and> reachable h2))"
proof -
  from parse_raw_runs [OF R buf zero_packet_wf it] obtain ret p0 where
    r: "uwifi_parse_raw R buf len zero_packet hdr = Some (ret, p0)" "packet_wf p0" by blast
  then have "packet_wf (fst (uwifi_fixup_packet_channel p0 intf))" by (simp add: fixup_wf)
  from update_and_link [OF h this fresh, of now] r(1) show ?thesis by blast
qed

text \<open>A data frame of the station \<open>mac2\<close> behind a radiotap header, into empty tables.\<close>

definition station_frame :: bytes where
  "station_frame = take 15 demo_frame @ le16_enc WLAN_FRAME_DATA @ [0, 0] @ mac1 @ mac2 @ mac1 @ replicate 60 0"

lemma station_frame_parses:
  "map_option (\<lambda>(r, p). (MAC_NOT_EMPTY (wlan_ta p), flag_set (phy_flags p) PHY_FLAG_BADFCS))
    (uwifi_parse_raw demo_radiotap station_frame 60 zero_packet 803) = Some (True, False)"
  by code_simp

lemma empty_tables: "\<exists>h. reachable h \<and> node_at h = Map.empty \<and> essid_at h = Map.empty"
proof -
  obtain h where h: "init_tables blank_heap = Some h" "tables_ok h no_tables" by (rule init_tables_run)
  then have "node_at h = Map.empty" "essid_at h = Map.empty"
    using tables_okD(1) [OF h(2)] by (auto simp: heap_rep_def no_tables_def)
  with reachable_init [OF h(1)] show ?thesis by blast
qed

lemma fixup_keeps: "wlan_ta (fst (uwifi_fixup_packet_channel p intf)) = wlan_ta p"
  "phy_flags (fst (uwifi_fixup_packet_channel p intf)) = phy_flags p"
  by (simp_all add: uwifi_fixup_packet_channel_def Let_def)

lemma frame_enters_tables_witness:
  "\<forall>intf. \<exists>h ret p0 i p' h' n. reachable h \<and> node_at h = Map.empty \<and>
    uwifi_parse_raw demo_radiotap station_frame 60 zero_packet 803 = Some (ret, p0) \<and>
    uwifi_node_update 7 (Some 0) (fst (uwifi_fixup_packet_channel p0 intf)) NODES h = Some (Some i, p', h') \<and>
    node_at h' i = Some n \<and> n_last_seen n = 7"
proof
  fix intf
  obtain h where h: "reachable h" "node_at h = Map.empty" "essid_at h = Map.empty" using empty_tables by blast
  have l: "it_len demo_radiotap station_frame = Some 15" "length station_frame = 97" by code_simp+
  have "room h" using h(2) by (simp add: room_def)
  from frame_enters_tables [OF demo_radiotap_ok _ _ _ _ h(1) this, of 60 station_frame 803 0 0 intf 7] h(2,3) l
  obtain ret p0 i p' h' where p0: "uwifi_parse_raw demo_radiotap station_frame 60 zero_packet 803 = Some (ret, p0)" and
    u: "uwifi_node_update 7 (Some 0) (fst (uwifi_fixup_packet_channel p0 intf)) NODES h = Some (i, p', h')"
    "case i of
       None \<Rightarrow> h' = h \<and> (flag_set (phy_flags (fst (uwifi_fixup_packet_channel p0 intf))) PHY_FLAG_BADFCS \<or>
         \<not> MAC_NOT_EMPTY (wlan_ta (fst (uwifi_fixup_packet_channel p0 intf))))
     | Some i \<Rightarrow> \<not> flag_set (phy_flags (fst (uwifi_fixup_packet_channel p0 intf))) PHY_FLAG_BADFCS \<and>
         MAC_NOT_EMPTY (wlan_ta (fst (uwifi_fixup_packet_channel p0 intf))) \<and>
         (\<exists>n h1 h2. node_at h' i = Some n \<and> n_wlan_src n = wlan_ta (fst (uwifi_fixup_packet_channel p0 intf)) \<and>
         n_last_seen n = 7 \<and> uwifi_nodes_find_ap i NODES h' = Some h1 \<and> reachable h1 \<and>
         uwifi_essids_update (Some 0) ESSIDS (Some p') (Some i) h1 = Some h2 \<and> reachable h2)"
    by auto
  have "MAC_NOT_EMPTY (wlan_ta p0)" "\<not> flag_set (phy_flags p0) PHY_FLAG_BADFCS"
    using station_frame_parses p0 by simp_all
  with u(2) obtain k n where "i = Some k" "node_at h' k = Some n" "n_last_seen n = 7"
    by (auto simp: fixup_keeps split: option.splits)
  with h(1,2) p0 u(1) show "\<exists>h ret p0 i p' h' n. reachable h \<and> node_at h = Map.empty \<and>
    uwifi_parse_raw demo_radiotap station_frame 60 zero_packet 803 = Some (ret, p0) \<and>
    uwifi_node_update 7 (Some 0) (fst (uwifi_fixup_packet_channel p0 intf)) NODES h = Some (Some i, p', h') \<and>
    node_at h' i = Some n \<and> n_last_seen n = 7" by blast
qed

end
