(* ===== verification/Netlink.thy ===== *)
theory Netlink
  imports Prelude
begin

text \<open>
  \<open>linux/netl80211.c\<close>: sockets, messages and callbacks of the nl80211 netlink interface.

  The code is written on libnl, which is not part of the repository and is the record
  \<open>libnl\<close> here; its functions may depend on and change a world \<open>'w\<close>, and \<open>'m\<close> is the type
  of the messages it delivers.  What the model keeps itself is the ownership that the code
  has to get right: the sockets, messages and callback sets that are allocated and not yet
  freed.  They are numbered in the order of their allocation.  Freeing one twice or using it
  after it was freed is \<open>None\<close>, and so is a wait that does not end.

  The numbers behind the names of netlink commands and attributes are not in the repository;
  the names are constructors.
\<close>

subsection \<open>Commands, attributes and messages\<close>

datatype genl_cmd =
    CTRL_CMD_GETFAMILY
  | NL80211_CMD_GET_WIPHY
  | NL80211_CMD_GET_INTERFACE
  | NL80211_CMD_SET_INTERFACE
  | NL80211_CMD_NEW_INTERFACE
  | NL80211_CMD_DEL_INTERFACE
  | NL80211_CMD_GET_STATION
  | NL80211_CMD_NEW_STATION
  | NL80211_CMD_DEL_STATION
  | NL80211_CMD_GET_SURVEY
  | NL80211_CMD_JOIN_IBSS
  | NL80211_CMD_CONNECT
  | NL80211_CMD_ROAM
  | NL80211_CMD_DISCONNECT
  | NL80211_CMD_SET_CHANNEL
  | NL80211_CMD_other nat

datatype nl_attr =
    CTRL_ATTR_FAMILY_NAME
  | CTRL_ATTR_MCAST_GROUPS
  | NL80211_ATTR_WIPHY
  | NL80211_ATTR_IFINDEX
  | NL80211_ATTR_IFNAME
  | NL80211_ATTR_IFTYPE
  | NL80211_ATTR_MAC
  | NL80211_ATTR_STA_INFO
  | NL80211_ATTR_WIPHY_BANDS
  | NL80211_ATTR_SSID
  | NL80211_ATTR_STATUS_CODE
  | NL80211_ATTR_REASON_CODE
  | NL80211_ATTR_WIPHY_FREQ
  | NL80211_ATTR_SURVEY_INFO
  | NL80211_ATTR_CHANNEL_WIDTH
  | NL80211_ATTR_CENTER_FREQ1

datatype mcast_attr = CTRL_ATTR_MCAST_GRP_NAME | CTRL_ATTR_MCAST_GRP_ID

text \<open>A message to be sent: its generic header, the dump flag, and its attributes in order.\<close>

record nl_msg =
  mg_hdr :: "(int \<times> genl_cmd) option"
  mg_dump :: bool
  mg_attrs :: "(nl_attr \<times> bytes) list"

definition empty_msg :: nl_msg where
  "empty_msg = \<lparr>mg_hdr = None, mg_dump = False, mg_attrs = []\<rparr>"

text \<open>
  What a call of \<open>nl_recvmsgs\<close> delivers, in order: a message for the valid callback, an
  acknowledgement, the end of a multi-part message, or an error with its code.
\<close>

datatype 'm nl_event = NL_valid 'm | NL_ack | NL_finish | NL_err int

datatype nl_action = NL_SKIP | NL_STOP

text \<open>
  The functions of libnl: whether an allocation succeeds, whether a header or an attribute
  still fits into a message, the number of an interface name, and the exchange with the
  kernel; and the parsers of received messages, which give the payload of the attributes.
\<close>

record ('m, 'w) libnl =
  nl_socket_alloc :: "'w \<Rightarrow> bool \<times> 'w"
  genl_connect :: "nat \<Rightarrow> 'w \<Rightarrow> int \<times> 'w"
  genl_ctrl_resolve :: "nat \<Rightarrow> string \<Rightarrow> 'w \<Rightarrow> int \<times> 'w"
  nlmsg_alloc :: "'w \<Rightarrow> bool \<times> 'w"
  genlmsg_put :: "nl_msg \<Rightarrow> bool"
  nla_put :: "nl_msg \<Rightarrow> nl_attr \<Rightarrow> bytes \<Rightarrow> bool"
  if_nametoindex :: "string \<Rightarrow> 'w \<Rightarrow> u32 \<times> 'w"
  nl_cb_alloc :: "'w \<Rightarrow> bool \<times> 'w"
  nl_send_auto_complete :: "nat \<Rightarrow> nl_msg \<Rightarrow> 'w \<Rightarrow> int \<times> 'w"
  nl_recvmsgs :: "nat \<Rightarrow> 'w \<Rightarrow> 'm nl_event list \<times> 'w"
  nl_syserr2nlerr :: "int \<Rightarrow> int"
  nl_socket_add_membership :: "nat \<Rightarrow> int \<Rightarrow> 'w \<Rightarrow> int \<times> 'w"
  nl_socket_get_fd :: "nat \<Rightarrow> int"
  genl_attrs :: "'m \<Rightarrow> nl_attr \<rightharpoonup> bytes"
  genl_cmd_of :: "'m \<Rightarrow> genl_cmd"
  nla_nested :: "bytes \<Rightarrow> bytes list"
  mcast_attrs :: "bytes \<Rightarrow> mcast_attr \<rightharpoonup> bytes"

subsection \<open>The state\<close>

text \<open>
  The resources, where a freed one is \<open>None\<close> or \<open>False\<close>, and the variables \<open>nl_sock\<close>,
  \<open>nl_event\<close> and \<open>family_id\<close>.
\<close>

record 'w nl_state =
  nl_msgs :: "nl_msg option list"
  nl_cbs :: "bool list"
  nl_socks :: "bool list"
  nl_sock :: "nat option"
  nl_event :: "nat option"
  family_id :: int
  nl_world :: 'w

definition lib :: "('w \<Rightarrow> 'r \<times> 'w) \<Rightarrow> 'w nl_state \<Rightarrow> 'r \<times> 'w nl_state" where
  "lib f s = (case f (nl_world s) of (r, w) \<Rightarrow> (r, s\<lparr>nl_world := w\<rparr>))"

text \<open>\<open>nl_socket_free(NULL)\<close> does nothing; a pointer to a socket must be to a live one.\<close>

definition socket_alloc :: "('m, 'w) libnl \<Rightarrow> 'w nl_state \<Rightarrow> nat option \<times> 'w nl_state" where
  "socket_alloc L s =
    (let (ok, s) = lib (nl_socket_alloc L) s in
     if ok then (Some (length (nl_socks s)), s\<lparr>nl_socks := nl_socks s @ [True]\<rparr>) else (None, s))"

definition socket_free :: "nat option \<Rightarrow> 'w nl_state \<Rightarrow> 'w nl_state option" where
  "socket_free k s = (case k of
       None \<Rightarrow> Some s
     | Some i \<Rightarrow> if i < length (nl_socks s) \<and> nl_socks s ! i
                 then Some (s\<lparr>nl_socks := (nl_socks s)[i := False]\<rparr>) else None)"

definition live_socket :: "nat option \<Rightarrow> 'w nl_state \<Rightarrow> nat option" where
  "live_socket k s = (case k of
       None \<Rightarrow> None
     | Some i \<Rightarrow> if i < length (nl_socks s) \<and> nl_socks s ! i then Some i else None)"

definition msg_alloc :: "('m, 'w) libnl \<Rightarrow> 'w nl_state \<Rightarrow> nat option \<times> 'w nl_state" where
  "msg_alloc L s =
    (let (ok, s) = lib (nlmsg_alloc L) s in
     if ok then (Some (length (nl_msgs s)), s\<lparr>nl_msgs := nl_msgs s @ [Some empty_msg]\<rparr>) else (None, s))"

definition msg_at :: "'w nl_state \<Rightarrow> nat \<Rightarrow> nl_msg option" where
  "msg_at s m = (if m < length (nl_msgs s) then nl_msgs s ! m else None)"

definition set_msg :: "nat \<Rightarrow> nl_msg \<Rightarrow> 'w nl_state \<Rightarrow> 'w nl_state" where
  "set_msg m x s = s\<lparr>nl_msgs := (nl_msgs s)[m := Some x]\<rparr>"

definition nlmsg_free :: "nat \<Rightarrow> 'w nl_state \<Rightarrow> 'w nl_state option" where
  "nlmsg_free m s = do { x \<leftarrow> msg_at s m; Some (s\<lparr>nl_msgs := (nl_msgs s)[m := None]\<rparr>) }"

definition cb_alloc :: "('m, 'w) libnl \<Rightarrow> 'w nl_state \<Rightarrow> nat option \<times> 'w nl_state" where
  "cb_alloc L s =
    (let (ok, s) = lib (nl_cb_alloc L) s in
     if ok then (Some (length (nl_cbs s)), s\<lparr>nl_cbs := nl_cbs s @ [True]\<rparr>) else (None, s))"

definition nl_cb_put :: "nat \<Rightarrow> 'w nl_state \<Rightarrow> 'w nl_state option" where
  "nl_cb_put c s =
    (if c < length (nl_cbs s) \<and> nl_cbs s ! c then Some (s\<lparr>nl_cbs := (nl_cbs s)[c := False]\<rparr>) else None)"

definition put_header ::
    "('m, 'w) libnl \<Rightarrow> nat \<Rightarrow> int \<Rightarrow> genl_cmd \<Rightarrow> 'w nl_state \<Rightarrow> (bool \<times> 'w nl_state) option" where
  "put_header L m fam cmd s = do {
     x \<leftarrow> msg_at s m;
     Some (if genlmsg_put L x then (True, set_msg m (x\<lparr>mg_hdr := Some (fam, cmd)\<rparr>) s) else (False, s)) }"

text \<open>
  A sequence of \<open>NLA_PUT\<close> macros: the first attribute that does not fit jumps to the label
  \<open>nla_put_failure\<close>, here \<open>False\<close>.
\<close>

fun put_attrs ::
    "('m, 'w) libnl \<Rightarrow> nat \<Rightarrow> (nl_attr \<times> bytes) list \<Rightarrow> 'w nl_state \<Rightarrow> (bool \<times> 'w nl_state) option" where
  "put_attrs L m [] s = Some (True, s)"
| "put_attrs L m ((a, v) # avs) s = do {
     x \<leftarrow> msg_at s m;
     if nla_put L x a v
     then put_attrs L m avs (set_msg m (x\<lparr>mg_attrs := mg_attrs x @ [(a, v)]\<rparr>) s)
     else Some (False, s) }"

subsection \<open>Connecting\<close>

definition init_out :: "'w nl_state \<Rightarrow> (bool \<times> 'w nl_state) option" where
  "init_out s = do { s \<leftarrow> socket_free (nl_sock s) s; Some (False, s) }"

definition nl80211_init :: "('m, 'w) libnl \<Rightarrow> 'w nl_state \<Rightarrow> (bool \<times> 'w nl_state) option" where
  "nl80211_init L s =
    (let (k, s) = socket_alloc L s; s = s\<lparr>nl_sock := k\<rparr> in
     case k of
       None \<Rightarrow> init_out s
     | Some i \<Rightarrow>
         (let (err, s) = lib (genl_connect L i) s in
          if err \<noteq> 0 then init_out s
          else
            (let (f, s) = lib (genl_ctrl_resolve L i ''nl80211'') s; s = s\<lparr>family_id := f\<rparr> in
             if f < 0 then init_out s else Some (True, s))))"

definition nl80211_finish :: "'w nl_state \<Rightarrow> 'w nl_state option" where
  "nl80211_finish s = do { s \<leftarrow> socket_free (nl_sock s) s; socket_free (nl_event s) s }"

subsection \<open>Requests\<close>

text \<open>
  \<open>nl80211_msg_prepare\<close>: the first result is \<open>*msgp\<close>, where \<open>None\<close> stands for the return
  value false.
\<close>

definition prepare_failure :: "nat \<Rightarrow> 'w nl_state \<Rightarrow> (nat option \<times> 'w nl_state) option" where
  "prepare_failure m s = do { s \<leftarrow> nlmsg_free m s; Some (None, s) }"

definition nl80211_msg_prepare ::
    "('m, 'w) libnl \<Rightarrow> genl_cmd \<Rightarrow> string option \<Rightarrow> 'w nl_state \<Rightarrow> (nat option \<times> 'w nl_state) option" where
  "nl80211_msg_prepare L cmd interface s =
    (case msg_alloc L s of
       (None, s) \<Rightarrow> Some (None, s)
     | (Some m, s) \<Rightarrow> do {
         (ok, s) \<leftarrow> put_header L m (family_id s) cmd s;
         if \<not> ok then prepare_failure m s
         else (case interface of
             None \<Rightarrow> Some (Some m, s)
           | Some name \<Rightarrow>
               (let (if_index, s) = lib (if_nametoindex L name) s in
                if if_index = 0 then prepare_failure m s
                else do {
                  (ok, s) \<leftarrow> put_attrs L m [(NL80211_ATTR_IFINDEX, le32_enc if_index)] s;
                  if ok then Some (Some m, s) else prepare_failure m s })) })"

text \<open>
  The callbacks that \<open>nl80211_send_recv\<close> installs write to its variable \<open>err\<close>, or, for valid
  messages, to the argument of the caller.
\<close>

definition nl80211_ack_cb :: "int \<Rightarrow> nl_action \<times> int" where "nl80211_ack_cb ret = (NL_STOP, 0)"

definition nl80211_finish_cb :: "int \<Rightarrow> nl_action \<times> int" where "nl80211_finish_cb ret = (NL_SKIP, 0)"

definition nl80211_err_cb :: "('m, 'w) libnl \<Rightarrow> int \<Rightarrow> int \<Rightarrow> nl_action \<times> int" where
  "nl80211_err_cb L error ret = (NL_STOP, - nl_syserr2nlerr L error)"

definition nl80211_default_cb :: "'m \<Rightarrow> 'a \<Rightarrow> (nl_action \<times> 'a) option" where
  "nl80211_default_cb msg arg = Some (NL_SKIP, arg)"

text \<open>
  How libnl runs the callbacks: \<open>NL_SKIP\<close> goes on to the next message, \<open>NL_STOP\<close> discards
  the remaining ones.
\<close>

fun deliver :: "('m, 'w) libnl \<Rightarrow> ('m \<Rightarrow> 'a \<Rightarrow> (nl_action \<times> 'a) option) \<Rightarrow> 'm nl_event list \<Rightarrow>
    int \<times> 'a \<Rightarrow> (int \<times> 'a) option" where
  "deliver L cb [] (err, arg) = Some (err, arg)"
| "deliver L cb (NL_valid msg # es) (err, arg) = do {
     (act, arg) \<leftarrow> cb msg arg;
     if act = NL_STOP then Some (err, arg) else deliver L cb es (err, arg) }"
| "deliver L cb (NL_ack # es) (err, arg) =
    (case nl80211_ack_cb err of (act, err) \<Rightarrow>
       if act = NL_STOP then Some (err, arg) else deliver L cb es (err, arg))"
| "deliver L cb (NL_finish # es) (err, arg) =
    (case nl80211_finish_cb err of (act, err) \<Rightarrow>
       if act = NL_STOP then Some (err, arg) else deliver L cb es (err, arg))"
| "deliver L cb (NL_err e # es) (err, arg) =
    (case nl80211_err_cb L e err of (act, err) \<Rightarrow>
       if act = NL_STOP then Some (err, arg) else deliver L cb es (err, arg))"

text \<open>\<open>while (err > 0) nl_recvmsgs(sock, cb);\<close> which ignores the result of \<open>nl_recvmsgs\<close>.\<close>

partial_function (option) wait_ack ::
    "('m, 'w) libnl \<Rightarrow> nat \<Rightarrow> ('m \<Rightarrow> 'a \<Rightarrow> (nl_action \<times> 'a) option) \<Rightarrow> int \<Rightarrow> 'a \<Rightarrow> 'w nl_state \<Rightarrow>
     (int \<times> 'a \<times> 'w nl_state) option" where
  "wait_ack L k cb err arg s =
    (if err > 0 then
       (case lib (nl_recvmsgs L k) s of (es, s) \<Rightarrow> do {
          (err, arg) \<leftarrow> deliver L cb es (err, arg);
          wait_ack L k cb err arg s })
     else Some (err, arg, s))"

definition nl80211_send_recv ::
    "('m, 'w) libnl \<Rightarrow> nat option \<Rightarrow> nat \<Rightarrow> ('m \<Rightarrow> 'a \<Rightarrow> (nl_action \<times> 'a) option) option \<Rightarrow> 'a \<Rightarrow> 'w nl_state \<Rightarrow>
     (bool \<times> 'a \<times> 'w nl_state) option" where
  "nl80211_send_recv L sock m cb_func cb_arg s =
    (case cb_alloc L s of
       (None, s) \<Rightarrow> Some (False, cb_arg, s)
     | (Some c, s) \<Rightarrow> do {
         let cb = (case cb_func of Some f \<Rightarrow> f | None \<Rightarrow> nl80211_default_cb);
         k \<leftarrow> live_socket sock s;
         x \<leftarrow> msg_at s m;
         let (err, s) = lib (nl_send_auto_complete L k x) s;
         s \<leftarrow> nlmsg_free m s;
         if err \<le> 0 then Some (False, cb_arg, s)
         else do {
           (err, arg, s) \<leftarrow> wait_ack L k cb 1 cb_arg s;
           s \<leftarrow> nl_cb_put c s;
           Some (\<not> err < 0, arg, s) } })"

definition nl80211_send ::
    "('m, 'w) libnl \<Rightarrow> nat option \<Rightarrow> nat \<Rightarrow> 'w nl_state \<Rightarrow> (bool \<times> 'w nl_state) option" where
  "nl80211_send L sock m s = do { (r, arg, s) \<leftarrow> nl80211_send_recv L sock m None () s; Some (r, s) }"

subsection \<open>Multicast groups\<close>

definition ENOENT :: int where "ENOENT = 2"
definition ENOMEM :: int where "ENOMEM = 12"

text \<open>The loop over the groups; a group without name or number, or with another name, is skipped.\<close>

fun find_group :: "('m, 'w) libnl \<Rightarrow> string \<Rightarrow> bytes list \<Rightarrow> int \<Rightarrow> int option" where
  "find_group L grp [] gid = Some gid"
| "find_group L grp (g # gs) gid =
    (case (mcast_attrs L g CTRL_ATTR_MCAST_GRP_NAME, mcast_attrs L g CTRL_ATTR_MCAST_GRP_ID) of
       (Some name, Some n) \<Rightarrow> do {
         same \<leftarrow> strncmp_0 (length name) name (c_string grp);
         if \<not> same then find_group L grp gs gid
         else map_option i32 (rd32 n 0) }
     | _ \<Rightarrow> find_group L grp gs gid)"

definition nl_family_group_id_cb ::
    "('m, 'w) libnl \<Rightarrow> string \<Rightarrow> 'm \<Rightarrow> int \<Rightarrow> (nl_action \<times> int) option" where
  "nl_family_group_id_cb L grp msg gid =
    (case genl_attrs L msg CTRL_ATTR_MCAST_GROUPS of
       None \<Rightarrow> Some (NL_SKIP, gid)
     | Some gs \<Rightarrow> map_option (Pair NL_SKIP) (find_group L grp (nla_nested L gs) gid))"

definition nl_get_multicast_id ::
    "('m, 'w) libnl \<Rightarrow> nat option \<Rightarrow> string \<Rightarrow> string \<Rightarrow> 'w nl_state \<Rightarrow> (int \<times> 'w nl_state) option" where
  "nl_get_multicast_id L sock family grp s =
    (case msg_alloc L s of
       (None, s) \<Rightarrow> Some (- ENOMEM, s)
     | (Some m, s) \<Rightarrow> do {
         k \<leftarrow> live_socket sock s;
         let (ctrlid, s) = lib (genl_ctrl_resolve L k ''nlctrl'') s;
         (_, s) \<leftarrow> put_header L m ctrlid CTRL_CMD_GETFAMILY s;
         (ok, s) \<leftarrow> put_attrs L m [(CTRL_ATTR_FAMILY_NAME, c_string family)] s;
         (sent, gid, s) \<leftarrow> (if ok
           then nl80211_send_recv L sock m (Some (nl_family_group_id_cb L grp)) (- ENOENT) s
           else Some (False, - ENOENT, s));
         if sent then Some (gid, s)
         else do { s \<leftarrow> nlmsg_free m s; Some (-1, s) } })"

end
