(* ===== verification/Ifctrl_Nl80211.thy ===== *)
theory Ifctrl_Nl80211
  imports Netlink Channel_Scan
begin

text \<open>
  \<open>linux/ifctrl-nl80211.c\<close>: the interface control functions of \<open>ifctrl.h\<close> on nl80211.  Each
  builds one request, sends it, and enters what the kernel answers in a structure of the
  caller.  The functions have the prefix \<open>nl_\<close> here, since \<open>ifctrl_\<close> names the driver
  interface of the channel model.

  The record \<open>nl80211_abi\<close> holds what the code takes from \<open>linux/nl80211.h\<close>: the numbers of
  channel widths and interface types, and the nested attributes as \<open>nla_parse\<close> and
  \<open>nla_parse_nested\<close> deliver them.  A pointer to an attribute is the payload or \<open>None\<close>;
  following \<open>NULL\<close> and reading behind a payload is \<open>None\<close> as everywhere.
\<close>

subsection \<open>Starting and ending\<close>

definition nl_ifctrl_init :: "('m, 'w) libnl \<Rightarrow> 'w nl_state \<Rightarrow> (bool \<times> 'w nl_state) option" where
  "nl_ifctrl_init L s = nl80211_init L s"

definition nl_ifctrl_finish :: "'w nl_state \<Rightarrow> 'w nl_state option" where
  "nl_ifctrl_finish s = nl80211_finish s"

subsection \<open>The kernel interface\<close>

datatype nl80211_chan_width =
    NL80211_CHAN_WIDTH_20_NOHT
  | NL80211_CHAN_WIDTH_20
  | NL80211_CHAN_WIDTH_40
  | NL80211_CHAN_WIDTH_80
  | NL80211_CHAN_WIDTH_80P80
  | NL80211_CHAN_WIDTH_160

datatype band_attr =
    NL80211_BAND_ATTR_FREQS
  | NL80211_BAND_ATTR_HT_MCS_SET
  | NL80211_BAND_ATTR_HT_CAPA
  | NL80211_BAND_ATTR_VHT_MCS_SET
  | NL80211_BAND_ATTR_VHT_CAPA

datatype freq_attr = NL80211_FREQUENCY_ATTR_FREQ | NL80211_FREQUENCY_ATTR_DISABLED

datatype sta_attr =
    NL80211_STA_INFO_INACTIVE_TIME
  | NL80211_STA_INFO_SIGNAL
  | NL80211_STA_INFO_SIGNAL_AVG

datatype survey_attr =
    NL80211_SURVEY_INFO_FREQUENCY
  | NL80211_SURVEY_INFO_NOISE
  | NL80211_SURVEY_INFO_IN_USE
  | NL80211_SURVEY_INFO_CHANNEL_TIME
  | NL80211_SURVEY_INFO_CHANNEL_TIME_BUSY
  | NL80211_SURVEY_INFO_CHANNEL_TIME_EXT_BUSY
  | NL80211_SURVEY_INFO_CHANNEL_TIME_RX
  | NL80211_SURVEY_INFO_CHANNEL_TIME_TX

record nl80211_abi =
  chan_width_no :: "nl80211_chan_width \<Rightarrow> u32"
  NL80211_IFTYPE_STATION :: u32
  NL80211_IFTYPE_MONITOR :: u32
  band_attrs :: "bytes \<Rightarrow> band_attr \<rightharpoonup> bytes"
  freq_attrs :: "bytes \<Rightarrow> freq_attr \<rightharpoonup> bytes"
  sta_attrs :: "bytes \<Rightarrow> (sta_attr \<rightharpoonup> bytes) option"
  survey_attrs :: "bytes \<Rightarrow> (survey_attr \<rightharpoonup> bytes) option"

text \<open>\<open>if (attr) field = nla_get_u32(attr);\<close> and the same for other widths.\<close>

definition with_attr :: "(bytes \<Rightarrow> nat \<Rightarrow> 'v option) \<Rightarrow> bytes option \<Rightarrow> ('v \<Rightarrow> 's \<Rightarrow> 's) \<Rightarrow> 's \<Rightarrow> 's option" where
  "with_attr get a upd s = (case a of
       None \<Rightarrow> Some s
     | Some v \<Rightarrow> do { x \<leftarrow> get v 0; Some (upd x s) })"

subsection \<open>Commands\<close>

text \<open>
  The shape that the functions share: prepare the message, put the attributes, send, and at
  the label \<open>nla_put_failure\<close> free the message.
\<close>

definition nl_command ::
    "('m, 'w) libnl \<Rightarrow> genl_cmd \<Rightarrow> string option \<Rightarrow> (nl_attr \<times> bytes) list \<Rightarrow> 'w nl_state \<Rightarrow>
     (bool \<times> 'w nl_state) option" where
  "nl_command L cmd interface attrs s = do {
     (msg, s) \<leftarrow> nl80211_msg_prepare L cmd interface s;
     case msg of
       None \<Rightarrow> Some (False, s)
     | Some m \<Rightarrow> do {
         (ok, s) \<leftarrow> put_attrs L m attrs s;
         if ok then nl80211_send L (nl_sock s) m s
         else do { s \<leftarrow> nlmsg_free m s; Some (False, s) } } }"

definition nl_iwadd_sta ::
    "('m, 'w) libnl \<Rightarrow> nl80211_abi \<Rightarrow> int \<Rightarrow> string \<Rightarrow> 'w nl_state \<Rightarrow> (bool \<times> 'w nl_state) option" where
  "nl_iwadd_sta L A phyidx new_interface = nl_command L NL80211_CMD_NEW_INTERFACE None
     [(NL80211_ATTR_WIPHY, le32_enc (word_of_int phyidx)),
      (NL80211_ATTR_IFNAME, c_string new_interface),
      (NL80211_ATTR_IFTYPE, le32_enc (NL80211_IFTYPE_STATION A))]"

definition nl_iwadd_monitor ::
    "('m, 'w) libnl \<Rightarrow> nl80211_abi \<Rightarrow> string option \<Rightarrow> string \<Rightarrow> 'w nl_state \<Rightarrow> (bool \<times> 'w nl_state) option" where
  "nl_iwadd_monitor L A interface monitor_interface = nl_command L NL80211_CMD_NEW_INTERFACE interface
     [(NL80211_ATTR_IFNAME, c_string monitor_interface),
      (NL80211_ATTR_IFTYPE, le32_enc (NL80211_IFTYPE_MONITOR A))]"

definition nl_iwdel ::
    "('m, 'w) libnl \<Rightarrow> string option \<Rightarrow> 'w nl_state \<Rightarrow> (bool \<times> 'w nl_state) option" where
  "nl_iwdel L interface = nl_command L NL80211_CMD_DEL_INTERFACE interface []"

definition nl_iwset_monitor ::
    "('m, 'w) libnl \<Rightarrow> nl80211_abi \<Rightarrow> string option \<Rightarrow> 'w nl_state \<Rightarrow> (bool \<times> 'w nl_state) option" where
  "nl_iwset_monitor L A interface = nl_command L NL80211_CMD_SET_INTERFACE interface
     [(NL80211_ATTR_IFTYPE, le32_enc (NL80211_IFTYPE_MONITOR A))]"

definition nl_iw_disconnect ::
    "('m, 'w) libnl \<Rightarrow> string option \<Rightarrow> 'w nl_state \<Rightarrow> (bool \<times> 'w nl_state) option" where
  "nl_iw_disconnect L interface = nl_command L NL80211_CMD_DISCONNECT interface []"

definition nl_iw_connect ::
    "('m, 'w) libnl \<Rightarrow> string option \<Rightarrow> string \<Rightarrow> int \<Rightarrow> bytes option \<Rightarrow> 'w nl_state \<Rightarrow>
     (bool \<times> 'w nl_state) option" where
  "nl_iw_connect L interface essid freq bssid s = do {
     mac \<leftarrow> (case bssid of
         None \<Rightarrow> Some []
       | Some b \<Rightarrow> do { m \<leftarrow> rd_bytes b 0 6; Some [(NL80211_ATTR_MAC, m)] });
     nl_command L NL80211_CMD_CONNECT interface
       ((NL80211_ATTR_SSID, map of_char essid) #
        (if freq \<noteq> 0 then [(NL80211_ATTR_WIPHY_FREQ, le32_enc (word_of_int freq))] else []) @ mac) s }"

definition nl_width :: "uwifi_chan_width \<Rightarrow> nl80211_chan_width" where
  "nl_width width = (case width of
       CHAN_WIDTH_UNSPEC \<Rightarrow> NL80211_CHAN_WIDTH_20_NOHT
     | CHAN_WIDTH_20_NOHT \<Rightarrow> NL80211_CHAN_WIDTH_20_NOHT
     | CHAN_WIDTH_20 \<Rightarrow> NL80211_CHAN_WIDTH_20
     | CHAN_WIDTH_40 \<Rightarrow> NL80211_CHAN_WIDTH_40
     | CHAN_WIDTH_80 \<Rightarrow> NL80211_CHAN_WIDTH_80
     | CHAN_WIDTH_160 \<Rightarrow> NL80211_CHAN_WIDTH_160
     | CHAN_WIDTH_8080 \<Rightarrow> NL80211_CHAN_WIDTH_80P80)"

definition freq_request :: "nl80211_abi \<Rightarrow> u32 \<Rightarrow> uwifi_chan_width \<Rightarrow> u32 \<Rightarrow> (nl_attr \<times> bytes) list" where
  "freq_request A freq width center1 =
    [(NL80211_ATTR_WIPHY_FREQ, le32_enc freq),
     (NL80211_ATTR_CHANNEL_WIDTH, le32_enc (chan_width_no A (nl_width width)))] @
    (if center1 \<noteq> 0 then [(NL80211_ATTR_CENTER_FREQ1, le32_enc center1)] else [])"

definition nl_iwset_freq ::
    "('m, 'w) libnl \<Rightarrow> nl80211_abi \<Rightarrow> string option \<Rightarrow> u32 \<Rightarrow> uwifi_chan_width \<Rightarrow> u32 \<Rightarrow> 'w nl_state \<Rightarrow>
     (bool \<times> 'w nl_state) option" where
  "nl_iwset_freq L A interface freq width center1 =
     nl_command L NL80211_CMD_SET_CHANNEL interface (freq_request A freq width center1)"

subsection \<open>Queries\<close>

text \<open>The same with a callback for the answer, and the dump flag.\<close>

definition set_dump :: "nat \<Rightarrow> 'w nl_state \<Rightarrow> 'w nl_state option" where
  "set_dump m s = do { x \<leftarrow> msg_at s m; Some (set_msg m (x\<lparr>mg_dump := True\<rparr>) s) }"

definition nl_query ::
    "('m, 'w) libnl \<Rightarrow> genl_cmd \<Rightarrow> string option \<Rightarrow> bool \<Rightarrow> (nl_attr \<times> bytes) list \<Rightarrow>
     ('m \<Rightarrow> 'a \<Rightarrow> (nl_action \<times> 'a) option) \<Rightarrow> 'a \<Rightarrow> 'w nl_state \<Rightarrow> (bool \<times> 'a \<times> 'w nl_state) option" where
  "nl_query L cmd interface dump attrs cb arg s = do {
     (msg, s) \<leftarrow> nl80211_msg_prepare L cmd interface s;
     case msg of
       None \<Rightarrow> Some (False, arg, s)
     | Some m \<Rightarrow> do {
         s \<leftarrow> (if dump then set_dump m s else Some s);
         (ok, s) \<leftarrow> put_attrs L m attrs s;
         if ok then nl80211_send_recv L (nl_sock s) m (Some cb) arg s
         else do { s \<leftarrow> nlmsg_free m s; Some (False, arg, s) } } }"

definition width_from_nl :: "nl80211_abi \<Rightarrow> u32 \<Rightarrow> uwifi_chan_width" where
  "width_from_nl A nlw =
    (if nlw = chan_width_no A NL80211_CHAN_WIDTH_20_NOHT then CHAN_WIDTH_20_NOHT
     else if nlw = chan_width_no A NL80211_CHAN_WIDTH_20 then CHAN_WIDTH_20
     else if nlw = chan_width_no A NL80211_CHAN_WIDTH_40 then CHAN_WIDTH_40
     else if nlw = chan_width_no A NL80211_CHAN_WIDTH_80 then CHAN_WIDTH_80
     else if nlw = chan_width_no A NL80211_CHAN_WIDTH_160 then CHAN_WIDTH_160
     else if nlw = chan_width_no A NL80211_CHAN_WIDTH_80P80 then CHAN_WIDTH_8080
     else CHAN_WIDTH_UNSPEC)"

definition nl80211_get_interface_info_cb ::
    "('m, 'w) libnl \<Rightarrow> nl80211_abi \<Rightarrow> 'm \<Rightarrow> uwifi_interface \<Rightarrow> (nl_action \<times> uwifi_interface) option" where
  "nl80211_get_interface_info_cb L A msg intf = do {
     let tb = genl_attrs L msg;
     intf \<leftarrow> with_attr rd32 (tb NL80211_ATTR_WIPHY_FREQ)
       (\<lambda>v intf. intf\<lparr>channel := (channel intf)\<lparr>cs_freq := v\<rparr>\<rparr>) intf;
     intf \<leftarrow> with_attr rd32 (tb NL80211_ATTR_CHANNEL_WIDTH)
       (\<lambda>v intf. intf\<lparr>channel := (channel intf)\<lparr>cs_width := width_from_nl A v\<rparr>\<rparr>) intf;
     intf \<leftarrow> with_attr rd32 (tb NL80211_ATTR_CENTER_FREQ1)
       (\<lambda>v intf. intf\<lparr>channel := (channel intf)\<lparr>cs_center_freq := v\<rparr>\<rparr>) intf;
     intf \<leftarrow> with_attr rd32 (tb NL80211_ATTR_IFTYPE) (\<lambda>v intf. intf\<lparr>if_type := i32 v\<rparr>) intf;
     intf \<leftarrow> with_attr rd32 (tb NL80211_ATTR_WIPHY) (\<lambda>v intf. intf\<lparr>if_phy := i32 v\<rparr>) intf;
     Some (NL_SKIP, intf) }"

definition nl_iwget_interface_info ::
    "('m, 'w) libnl \<Rightarrow> nl80211_abi \<Rightarrow> uwifi_interface \<Rightarrow> 'w nl_state \<Rightarrow>
     (bool \<times> uwifi_interface \<times> 'w nl_state) option" where
  "nl_iwget_interface_info L A intf = nl_query L NL80211_CMD_GET_INTERFACE (Some (ifname intf)) False []
     (nl80211_get_interface_info_cb L A) intf"

definition nl_is_monitor :: "nl80211_abi \<Rightarrow> uwifi_interface \<Rightarrow> bool" where
  "nl_is_monitor A intf \<longleftrightarrow> if_type intf = i32 (NL80211_IFTYPE_MONITOR A)"

subsection \<open>Stations and surveys\<close>

text \<open>
  The argument of the callback is the array of the caller and the counter \<open>sta_idx\<close>, which a
  static variable holds; \<open>maxlen\<close> is \<open>sta_maxlen\<close>.  Both integers of 8 bits are signed.
\<close>

record sta_info =
  si_mac :: bytes
  si_rssi :: int
  si_rssi_avg :: int
  si_last :: u32

definition nl80211_get_station_cb ::
    "('m, 'w) libnl \<Rightarrow> nl80211_abi \<Rightarrow> nat \<Rightarrow> 'm \<Rightarrow> sta_info list \<times> nat \<Rightarrow>
     (nl_action \<times> sta_info list \<times> nat) option" where
  "nl80211_get_station_cb L A maxlen msg st = (case st of (stas, idx) \<Rightarrow>
     (case genl_attrs L msg NL80211_ATTR_STA_INFO of
        None \<Rightarrow> Some (NL_SKIP, stas, idx)
      | Some info \<Rightarrow>
          (case sta_attrs A info of
             None \<Rightarrow> Some (NL_SKIP, stas, idx)
           | Some sinfo \<Rightarrow>
               if idx \<ge> maxlen then Some (NL_SKIP, stas, idx)
               else do {
                 mac \<leftarrow> genl_attrs L msg NL80211_ATTR_MAC;
                 mac \<leftarrow> rd_bytes mac 0 6;
                 e \<leftarrow> rd stas idx;
                 let e = e\<lparr>si_mac := mac\<rparr>;
                 e \<leftarrow> with_attr rd32 (sinfo NL80211_STA_INFO_INACTIVE_TIME) (\<lambda>v e. e\<lparr>si_last := v\<rparr>) e;
                 e \<leftarrow> with_attr rd (sinfo NL80211_STA_INFO_SIGNAL) (\<lambda>v e. e\<lparr>si_rssi := sint v\<rparr>) e;
                 e \<leftarrow> with_attr rd (sinfo NL80211_STA_INFO_SIGNAL_AVG) (\<lambda>v e. e\<lparr>si_rssi_avg := sint v\<rparr>) e;
                 Some (NL_SKIP, stas[idx := e], idx + 1) })))"

definition nl_iwget_stations ::
    "('m, 'w) libnl \<Rightarrow> nl80211_abi \<Rightarrow> string \<Rightarrow> sta_info list \<Rightarrow> nat \<Rightarrow> 'w nl_state \<Rightarrow>
     (int \<times> sta_info list \<times> 'w nl_state) option" where
  "nl_iwget_stations L A name stas maxlen s = do {
     (ret, (stas, idx), s) \<leftarrow> nl_query L NL80211_CMD_GET_STATION (Some name) True []
       (nl80211_get_station_cb L A maxlen) (stas, 0) s;
     Some (if ret then int idx else 0, stas, s) }"

record survey_info =
  sv_freq :: u32
  sv_in_use :: bool
  sv_noise :: int
  sv_time_active :: u64
  sv_time_busy :: u64
  sv_time_busy_ext :: u64
  sv_time_rx :: u64
  sv_time_tx :: u64

definition survey_entry :: "(survey_attr \<rightharpoonup> bytes) \<Rightarrow> survey_info \<Rightarrow> survey_info option" where
  "survey_entry sinfo e = do {
     e \<leftarrow> with_attr rd32 (sinfo NL80211_SURVEY_INFO_FREQUENCY) (\<lambda>v e. e\<lparr>sv_freq := v\<rparr>) e;
     let e = e\<lparr>sv_in_use := sinfo NL80211_SURVEY_INFO_IN_USE \<noteq> None\<rparr>;
     e \<leftarrow> with_attr rd (sinfo NL80211_SURVEY_INFO_NOISE) (\<lambda>v e. e\<lparr>sv_noise := sint v\<rparr>) e;
     e \<leftarrow> with_attr rd64 (sinfo NL80211_SURVEY_INFO_CHANNEL_TIME) (\<lambda>v e. e\<lparr>sv_time_active := v\<rparr>) e;
     e \<leftarrow> with_attr rd64 (sinfo NL80211_SURVEY_INFO_CHANNEL_TIME_BUSY) (\<lambda>v e. e\<lparr>sv_time_busy := v\<rparr>) e;
     e \<leftarrow> with_attr rd64 (sinfo NL80211_SURVEY_INFO_CHANNEL_TIME_EXT_BUSY) (\<lambda>v e. e\<lparr>sv_time_busy_ext := v\<rparr>) e;
     e \<leftarrow> with_attr rd64 (sinfo NL80211_SURVEY_INFO_CHANNEL_TIME_RX) (\<lambda>v e. e\<lparr>sv_time_rx := v\<rparr>) e;
     with_attr rd64 (sinfo NL80211_SURVEY_INFO_CHANNEL_TIME_TX) (\<lambda>v e. e\<lparr>sv_time_tx := v\<rparr>) e }"

definition nl80211_get_survey_cb ::
    "('m, 'w) libnl \<Rightarrow> nl80211_abi \<Rightarrow> nat \<Rightarrow> 'm \<Rightarrow> survey_info list \<times> nat \<Rightarrow>
     (nl_action \<times> survey_info list \<times> nat) option" where
  "nl80211_get_survey_cb L A maxlen msg st = (case st of (infs, idx) \<Rightarrow>
     (case genl_attrs L msg NL80211_ATTR_SURVEY_INFO of
        None \<Rightarrow> Some (NL_SKIP, infs, idx)
      | Some info \<Rightarrow>
          (case survey_attrs A info of
             None \<Rightarrow> Some (NL_SKIP, infs, idx)
           | Some sinfo \<Rightarrow>
               if idx \<ge> maxlen then Some (NL_SKIP, infs, idx)
               else do {
                 e \<leftarrow> rd infs idx;
                 e \<leftarrow> survey_entry sinfo e;
                 Some (NL_SKIP, infs[idx := e], idx + 1) })))"

definition nl_iwget_survey ::
    "('m, 'w) libnl \<Rightarrow> nl80211_abi \<Rightarrow> string \<Rightarrow> survey_info list \<Rightarrow> nat \<Rightarrow> 'w nl_state \<Rightarrow>
     (int \<times> survey_info list \<times> 'w nl_state) option" where
  "nl_iwget_survey L A name infs maxlen s = do {
     (ret, (infs, idx), s) \<leftarrow> nl_query L NL80211_CMD_GET_SURVEY (Some name) True []
       (nl80211_get_survey_cb L A maxlen) (infs, 0) s;
     Some (if ret then int idx else 0, infs, s) }"

subsection \<open>The channel list\<close>

text \<open>The capabilities of a band, for \<open>list->band[b]\<close>.\<close>

definition band_ht :: "(band_attr \<rightharpoonup> bytes) \<Rightarrow> uwifi_band \<Rightarrow> uwifi_band option" where
  "band_ht tb bd = do {
     bd \<leftarrow> with_attr rd16 (tb NL80211_BAND_ATTR_HT_CAPA)
       (\<lambda>cap bd. bd\<lparr>bd_max_chan_width :=
          if flag_set cap WLAN_IE_HT_CAPAB_INFO_CHAN_WIDTH_40 then CHAN_WIDTH_40 else CHAN_WIDTH_20\<rparr>) bd;
     case tb NL80211_BAND_ATTR_HT_MCS_SET of
       None \<Rightarrow> Some bd
     | Some mcs \<Rightarrow>
         if length mcs = 16 then do {
           (rx, tx) \<leftarrow> wlan_ht_streams_from_mcs mcs (bd_streams_tx bd);
           Some (bd\<lparr>bd_streams_rx := rx, bd_streams_tx := tx\<rparr>) }
         else Some bd }"

definition band_vht :: "(band_attr \<rightharpoonup> bytes) \<Rightarrow> uwifi_band \<Rightarrow> uwifi_band option" where
  "band_vht tb bd = do {
     bd \<leftarrow> with_attr rd32 (tb NL80211_BAND_ATTR_VHT_CAPA)
       (\<lambda>vht bd. bd\<lparr>bd_max_chan_width := wlan_chan_width_from_vht_capab vht\<rparr>) bd;
     case tb NL80211_BAND_ATTR_VHT_MCS_SET of
       None \<Rightarrow> Some bd
     | Some mcs \<Rightarrow>
         if length mcs = 8 then do {
           (rx, tx) \<leftarrow> wlan_vht_streams_from_mcs mcs;
           Some (bd\<lparr>bd_streams_rx := rx, bd_streams_tx := tx\<rparr>) }
         else Some bd }"

definition band_caps :: "(band_attr \<rightharpoonup> bytes) \<Rightarrow> nat \<Rightarrow> uwifi_channels \<Rightarrow> uwifi_channels option" where
  "band_caps tb b cs = do {
     bd \<leftarrow> rd (bands cs) b;
     bd \<leftarrow> band_ht tb (bd\<lparr>bd_max_chan_width := CHAN_WIDTH_20_NOHT\<rparr>);
     bd \<leftarrow> band_vht tb bd;
     Some (cs\<lparr>bands := (bands cs)[b := bd]\<rparr>) }"

text \<open>
  The loop over the frequencies of a band; the first result says that \<open>goto end\<close> was
  taken.  The result of \<open>uwifi_channel_list_add\<close> is ignored.
\<close>

fun freq_loop :: "nl80211_abi \<Rightarrow> bytes list \<Rightarrow> int \<Rightarrow> uwifi_channels \<Rightarrow> (bool \<times> int \<times> uwifi_channels) option" where
  "freq_loop A [] i cs = Some (False, i, cs)"
| "freq_loop A (x # xs) i cs =
    (case (freq_attrs A x NL80211_FREQUENCY_ATTR_FREQ, freq_attrs A x NL80211_FREQUENCY_ATTR_DISABLED) of
       (Some v, None) \<Rightarrow> do {
         f \<leftarrow> rd32 v 0;
         (added, cs) \<leftarrow> uwifi_channel_list_add cs (i32 f);
         if i + 1 \<ge> MAX_CHANNELS then Some (True, i + 1, cs) else freq_loop A xs (i + 1) cs }
     | _ \<Rightarrow> freq_loop A xs i cs)"

definition set_band_channels :: "nat \<Rightarrow> int \<Rightarrow> uwifi_channels \<Rightarrow> uwifi_channels" where
  "set_band_channels b i cs =
     cs\<lparr>bands := (bands cs)[b := (bands cs ! b)\<lparr>bd_num_channels :=
          (if b = 0 then i else i - bd_num_channels (bands cs ! 0))\<rparr>]\<rparr>"

fun band_loop :: "('m, 'w) libnl \<Rightarrow> nl80211_abi \<Rightarrow> bytes list \<Rightarrow> nat \<Rightarrow> int \<Rightarrow> uwifi_channels \<Rightarrow>
    (nat \<times> int \<times> uwifi_channels) option" where
  "band_loop L A [] b i cs = Some (b, i, cs)"
| "band_loop L A (x # xs) b i cs = do {
     let tb = band_attrs A x;
     cs \<leftarrow> band_caps tb b cs;
     freqs \<leftarrow> tb NL80211_BAND_ATTR_FREQS;
     (full, i, cs) \<leftarrow> freq_loop A (nla_nested L freqs) i cs;
     if full then Some (b, i, cs)
     else
       (let cs = set_band_channels b i cs in
        if int (b + 1) \<ge> MAX_BANDS then Some (b + 1, i, cs) else band_loop L A xs (b + 1) i cs) }"

definition nl80211_get_freqlist_cb ::
    "('m, 'w) libnl \<Rightarrow> nl80211_abi \<Rightarrow> 'm \<Rightarrow> uwifi_channels \<Rightarrow> (nl_action \<times> uwifi_channels) option" where
  "nl80211_get_freqlist_cb L A msg cs = do {
     wb \<leftarrow> genl_attrs L msg NL80211_ATTR_WIPHY_BANDS;
     (b, i, cs) \<leftarrow> band_loop L A (nla_nested L wb) 0 0 cs;
     Some (NL_SKIP, cs\<lparr>num_channels := i, num_bands := int b\<rparr>) }"

definition nl_iwget_freqlist ::
    "('m, 'w) libnl \<Rightarrow> nl80211_abi \<Rightarrow> uwifi_interface \<Rightarrow> 'w nl_state \<Rightarrow>
     (bool \<times> uwifi_interface \<times> 'w nl_state) option" where
  "nl_iwget_freqlist L A intf s = do {
     (ret, cs, s) \<leftarrow> nl_query L NL80211_CMD_GET_WIPHY None False
       [(NL80211_ATTR_WIPHY, le32_enc (word_of_int (if_phy intf)))]
       (nl80211_get_freqlist_cb L A) (channels intf) s;
     Some (ret, intf\<lparr>channels := cs\<rparr>, s) }"

subsection \<open>Events\<close>

text \<open>A call of the callback of the user: command, phy, interface index, MAC address or \<open>NULL\<close>, and code.\<close>

type_synonym event_call = "genl_cmd \<times> int \<times> int \<times> bytes option \<times> int"

definition opt_int :: "(bytes \<Rightarrow> nat \<Rightarrow> 'v option) \<Rightarrow> ('v \<Rightarrow> int) \<Rightarrow> bytes option \<Rightarrow> int option" where
  "opt_int get conv a = with_attr get a (\<lambda>v x. conv v) (-1)"

definition nl80211_event_cb ::
    "('m, 'w) libnl \<Rightarrow> 'm \<Rightarrow> event_call list \<Rightarrow> (nl_action \<times> event_call list) option" where
  "nl80211_event_cb L msg calls = do {
     let tb = genl_attrs L msg;
     ifindex \<leftarrow> opt_int rd32 i32 (tb NL80211_ATTR_IFINDEX);
     phy \<leftarrow> opt_int rd32 i32 (tb NL80211_ATTR_WIPHY);
     (mac, x) \<leftarrow> (case genl_cmd_of L msg of
         NL80211_CMD_NEW_STATION \<Rightarrow> do { m \<leftarrow> tb NL80211_ATTR_MAC; Some (Some m, -1) }
       | NL80211_CMD_DEL_STATION \<Rightarrow> do { m \<leftarrow> tb NL80211_ATTR_MAC; Some (Some m, -1) }
       | NL80211_CMD_JOIN_IBSS \<Rightarrow> do { m \<leftarrow> tb NL80211_ATTR_MAC; Some (Some m, -1) }
       | NL80211_CMD_CONNECT \<Rightarrow> do {
           x \<leftarrow> opt_int rd16 uint (tb NL80211_ATTR_STATUS_CODE);
           Some (tb NL80211_ATTR_MAC, x) }
       | NL80211_CMD_ROAM \<Rightarrow> Some (tb NL80211_ATTR_MAC, -1)
       | NL80211_CMD_DISCONNECT \<Rightarrow> do {
           x \<leftarrow> opt_int rd16 uint (tb NL80211_ATTR_REASON_CODE);
           Some (None, x) }
       | _ \<Rightarrow> Some (None, -1));
     Some (NL_SKIP, calls @ [(genl_cmd_of L msg, phy, ifindex, mac, x)]) }"

text \<open>Subscribing to the groups: \<open>False\<close> is the early \<open>return -1\<close>.\<close>

fun join_groups :: "('m, 'w) libnl \<Rightarrow> nat \<Rightarrow> string list \<Rightarrow> 'w nl_state \<Rightarrow> (bool \<times> 'w nl_state) option" where
  "join_groups L k [] s = Some (True, s)"
| "join_groups L k (g # gs) s = do {
     (mcid, s) \<leftarrow> nl_get_multicast_id L (Some k) ''nl80211'' g s;
     if mcid \<ge> 0 then
       (let (ret, s) = lib (nl_socket_add_membership L k mcid) s in
        if ret \<noteq> 0 then Some (False, s) else join_groups L k gs s)
     else join_groups L k gs s }"

definition nl_iw_event_init_socket :: "('m, 'w) libnl \<Rightarrow> 'w nl_state \<Rightarrow> (int \<times> 'w nl_state) option" where
  "nl_iw_event_init_socket L s =
    (let (e, s) = socket_alloc L s; s = s\<lparr>nl_event := e\<rparr> in
     case e of
       None \<Rightarrow> Some (-1, s)
     | Some k \<Rightarrow>
         (let (ret, s) = lib (genl_connect L k) s in
          if ret \<noteq> 0 then Some (-1, s)
          else do {
            (ok, s) \<leftarrow> join_groups L k [''config'', ''scan'', ''regulatory'', ''mlme''] s;
            Some (if ok then nl_socket_get_fd L k else -1, s) }))"

text \<open>
  \<open>nl_recvmsgs_default\<close> runs the callback on the valid messages that are delivered.
\<close>

definition nl_iw_event_receive ::
    "('m, 'w) libnl \<Rightarrow> event_call list \<Rightarrow> 'w nl_state \<Rightarrow> (event_call list \<times> 'w nl_state) option" where
  "nl_iw_event_receive L calls s = (case nl_event s of
       None \<Rightarrow> Some (calls, s)
     | Some e \<Rightarrow> do {
         k \<leftarrow> live_socket (Some e) s;
         let (es, s) = lib (nl_recvmsgs L k) s;
         calls \<leftarrow> foldM (\<lambda>ev calls. case ev of
             NL_valid msg \<Rightarrow> map_option snd (nl80211_event_cb L msg calls)
           | _ \<Rightarrow> Some calls) es calls;
         Some (calls, s) })"

end
