(* ===== verification/Netlink_Facts.thy ===== *)
theory Netlink_Facts
  imports Netlink
begin

text \<open>
  Ownership of netlink messages, callback sets and sockets, and when the wait for an
  acknowledgement ends.
\<close>

subsection \<open>Live resources\<close>

definition live_msgs :: "'w nl_state \<Rightarrow> nat set" where
  "live_msgs s = {m. msg_at s m \<noteq> None}"

definition live_cbs :: "'w nl_state \<Rightarrow> nat set" where
  "live_cbs s = {c. c < length (nl_cbs s) \<and> nl_cbs s ! c}"

text \<open>Everything but the messages, the callback sets and the world.\<close>

definition same_sockets :: "'w nl_state \<Rightarrow> 'w nl_state \<Rightarrow> bool" where
  "same_sockets s s' \<longleftrightarrow> nl_socks s' = nl_socks s \<and> nl_sock s' = nl_sock s \<and> nl_event s' = nl_event s \<and>
     family_id s' = family_id s"

definition balanced :: "'w nl_state \<Rightarrow> 'w nl_state \<Rightarrow> bool" where
  "balanced s s' \<longleftrightarrow> same_sockets s s' \<and> live_msgs s' = live_msgs s \<and> live_cbs s' = live_cbs s"

lemma same_sockets_refl [simp]: "same_sockets s s" by (simp add: same_sockets_def)

lemma same_sockets_trans: "same_sockets s t \<Longrightarrow> same_sockets t u \<Longrightarrow> same_sockets s u"
  by (simp add: same_sockets_def)

lemma lib_result: "lib f s = (r, s') \<Longrightarrow> s' = s\<lparr>nl_world := snd (f (nl_world s))\<rparr> \<and> r = fst (f (nl_world s))"
  by (auto simp: lib_def split: prod.splits)

lemma lib_eq: "lib f s = (fst (f (nl_world s)), s\<lparr>nl_world := snd (f (nl_world s))\<rparr>)"
  by (simp add: lib_def split: prod.splits)

lemma world_sockets [simp]: "same_sockets s (t\<lparr>nl_world := w\<rparr>) = same_sockets s t"
  "same_sockets s (t\<lparr>nl_msgs := ms\<rparr>) = same_sockets s t" "same_sockets s (t\<lparr>nl_cbs := cs\<rparr>) = same_sockets s t"
  by (simp_all add: same_sockets_def)

lemma set_msg_simps [simp]:
  "same_sockets s (set_msg m x t) = same_sockets s t" "nl_cbs (set_msg m x t) = nl_cbs t"
  "nl_world (set_msg m x t) = nl_world t" "nl_socks (set_msg m x t) = nl_socks t"
  by (simp_all add: set_msg_def same_sockets_def)

lemma msg_at_world [simp]: "msg_at (s\<lparr>nl_world := w\<rparr>) m = msg_at s m"
  "msg_at (s\<lparr>nl_cbs := cs\<rparr>) m = msg_at s m"
  by (simp_all add: msg_at_def)

lemma live_world [simp]: "live_msgs (s\<lparr>nl_world := w\<rparr>) = live_msgs s" "live_msgs (s\<lparr>nl_cbs := cs\<rparr>) = live_msgs s"
  "live_cbs (s\<lparr>nl_world := w\<rparr>) = live_cbs s" "live_cbs (s\<lparr>nl_msgs := ms\<rparr>) = live_cbs s"
  "live_cbs (set_msg m x s) = live_cbs s"
  by (simp_all add: live_msgs_def live_cbs_def set_msg_def)

lemma live_socket_cong: "same_sockets s s' \<Longrightarrow> live_socket k s' = live_socket k s"
  by (auto simp: live_socket_def same_sockets_def split: option.splits)

lemma live_socket_simps [simp]:
  "live_socket k (s\<lparr>nl_world := w\<rparr>) = live_socket k s" "live_socket k (s\<lparr>nl_msgs := ms\<rparr>) = live_socket k s"
  "live_socket k (s\<lparr>nl_cbs := cs\<rparr>) = live_socket k s"
  by (rule live_socket_cong; simp)+

lemma live_set_msg: "m \<in> live_msgs s \<Longrightarrow> live_msgs (set_msg m x s) = live_msgs s \<and> msg_at (set_msg m x s) m = Some x"
  by (auto simp: live_msgs_def msg_at_def set_msg_def nth_list_update split: if_splits)

lemma msg_alloc_ok:
  assumes "msg_alloc L s = (Some m, s')"
  shows "same_sockets s s' \<and> m \<notin> live_msgs s \<and> live_msgs s' = insert m (live_msgs s) \<and> live_cbs s' = live_cbs s \<and>
    nl_cbs s' = nl_cbs s \<and> nl_world s' = snd (nlmsg_alloc L (nl_world s))"
  using assms by (auto simp: msg_alloc_def lib_eq Let_def live_msgs_def msg_at_def nth_append live_cbs_def
    same_sockets_def split: if_splits)

lemma msg_alloc_fails: "msg_alloc L s = (None, s') \<Longrightarrow> balanced s s'"
  by (auto simp: msg_alloc_def lib_eq Let_def balanced_def split: if_splits)

lemma nlmsg_free_ok:
  assumes "m \<in> live_msgs s"
  shows "\<exists>s'. nlmsg_free m s = Some s' \<and> same_sockets s s' \<and> live_msgs s' = live_msgs s - {m} \<and>
    nl_cbs s' = nl_cbs s \<and> nl_world s' = nl_world s"
  using assms by (auto simp: nlmsg_free_def live_msgs_def msg_at_def nth_list_update same_sockets_def bind_conv
    split: if_splits)

lemma nlmsg_free_dead: "m \<notin> live_msgs s \<Longrightarrow> nlmsg_free m s = None"
  by (simp add: nlmsg_free_def live_msgs_def)

lemma cb_alloc_ok:
  assumes "cb_alloc L s = (Some c, s')"
  shows "same_sockets s s' \<and> c \<notin> live_cbs s \<and> live_cbs s' = insert c (live_cbs s) \<and> nl_msgs s' = nl_msgs s \<and>
    nl_world s' = snd (nl_cb_alloc L (nl_world s))"
  using assms by (auto simp: cb_alloc_def lib_eq Let_def live_cbs_def nth_append same_sockets_def split: if_splits)

lemma cb_alloc_fails: "cb_alloc L s = (None, s') \<Longrightarrow> balanced s s' \<and> \<not> fst (nl_cb_alloc L (nl_world s))"
  by (auto simp: cb_alloc_def lib_eq Let_def balanced_def split: if_splits)

lemma nl_cb_put_ok:
  assumes "c \<in> live_cbs s"
  shows "\<exists>s'. nl_cb_put c s = Some s' \<and> same_sockets s s' \<and> live_cbs s' = live_cbs s - {c} \<and> nl_msgs s' = nl_msgs s"
  using assms by (auto simp: nl_cb_put_def live_cbs_def nth_list_update same_sockets_def)

lemma live_msgs_cong: "nl_msgs s' = nl_msgs s \<Longrightarrow> live_msgs s' = live_msgs s"
  by (simp add: live_msgs_def msg_at_def)

lemma live_cbs_cong: "nl_cbs s' = nl_cbs s \<Longrightarrow> live_cbs s' = live_cbs s"
  by (simp add: live_cbs_def)

subsection \<open>Building a message\<close>

lemma put_header_ok:
  assumes "m \<in> live_msgs s"
  shows "\<exists>ok s'. put_header L m fam cmd s = Some (ok, s') \<and> same_sockets s s' \<and> live_msgs s' = live_msgs s \<and>
    nl_cbs s' = nl_cbs s \<and> nl_world s' = nl_world s"
proof -
  from assms obtain x where "msg_at s m = Some x" by (auto simp: live_msgs_def)
  then show ?thesis using live_set_msg [OF assms] by (cases "genlmsg_put L x") (auto simp: put_header_def)
qed

lemma put_attrs_ok:
  "m \<in> live_msgs s \<Longrightarrow> \<exists>ok s'. put_attrs L m avs s = Some (ok, s') \<and> same_sockets s s' \<and>
    live_msgs s' = live_msgs s \<and> nl_cbs s' = nl_cbs s \<and> nl_world s' = nl_world s"
proof (induction L m avs s rule: put_attrs.induct)
  case (1 L m s)
  show ?case by auto
next
  case (2 L m a v avs s)
  from 2(2) obtain x where x: "msg_at s m = Some x" by (auto simp: live_msgs_def)
  let ?t = "set_msg m (x\<lparr>mg_attrs := mg_attrs x @ [(a, v)]\<rparr>) s"
  show ?case
  proof (cases "nla_put L x a v")
    case True
    have l: "live_msgs ?t = live_msgs s" using live_set_msg [OF 2(2)] by blast
    from 2(1) [OF x True] l 2(2) obtain ok s' where "put_attrs L m avs ?t = Some (ok, s')" "same_sockets ?t s'"
      "live_msgs s' = live_msgs ?t" "nl_cbs s' = nl_cbs ?t" "nl_world s' = nl_world ?t" by auto
    then show ?thesis using x True l by (auto simp: same_sockets_def set_msg_def)
  next
    case False
    with x show ?thesis by auto
  qed
qed

text \<open>What \<open>nl80211_msg_prepare\<close> leaves behind: one new message, or nothing.\<close>

lemma prepare_failure_ok:
  assumes m: "m \<in> live_msgs t" "same_sockets s t" "live_msgs t = insert m (live_msgs s)" "m \<notin> live_msgs s"
    "nl_cbs t = nl_cbs s"
  shows "\<exists>s'. prepare_failure m t = Some (None, s') \<and> balanced s s'"
proof -
  from nlmsg_free_ok [OF m(1)] obtain s' where "nlmsg_free m t = Some s'" "same_sockets t s'"
    "live_msgs s' = live_msgs t - {m}" "nl_cbs s' = nl_cbs t" by blast
  with m show ?thesis using live_cbs_cong [of s' s] same_sockets_trans [of s t s']
    by (simp add: prepare_failure_def balanced_def)
qed

lemma msg_prepare_ok:
  "\<exists>r s'. nl80211_msg_prepare L cmd interface s = Some (r, s') \<and>
    (case r of
       None \<Rightarrow> balanced s s'
     | Some m \<Rightarrow> same_sockets s s' \<and> m \<notin> live_msgs s \<and> live_msgs s' = insert m (live_msgs s) \<and> nl_cbs s' = nl_cbs s)"
proof (cases "msg_alloc L s")
  case (Pair mo s1)
  show ?thesis
  proof (cases mo)
    case None
    with Pair show ?thesis by (simp add: nl80211_msg_prepare_def msg_alloc_fails)
  next
    case (Some m)
    note a = msg_alloc_ok [OF Pair [unfolded Some]]
    then have m1: "m \<in> live_msgs s1" by simp
    from put_header_ok [OF m1] obtain ok s2 where h: "put_header L m (family_id s1) cmd s1 = Some (ok, s2)"
      "same_sockets s1 s2" "live_msgs s2 = live_msgs s1" "nl_cbs s2 = nl_cbs s1" by blast
    have s2: "same_sockets s s2" "m \<in> live_msgs s2" "live_msgs s2 = insert m (live_msgs s)" "nl_cbs s2 = nl_cbs s"
      using a h same_sockets_trans by auto
    note f2 = prepare_failure_ok [OF s2(2,1,3) _ s2(4)]
    show ?thesis
    proof (cases "ok \<and> interface \<noteq> None")
      case False
      with Pair Some h(1) f2 a s2 show ?thesis
        by (cases ok) (auto simp: nl80211_msg_prepare_def split: option.splits)
    next
      case True
      then obtain name where n: "ok" "interface = Some name" by blast
      let ?i = "fst (if_nametoindex L name (nl_world s2))"
      define s3 where "s3 = s2\<lparr>nl_world := snd (if_nametoindex L name (nl_world s2))\<rparr>"
      have s3: "same_sockets s s3" "m \<in> live_msgs s3" "live_msgs s3 = insert m (live_msgs s)" "nl_cbs s3 = nl_cbs s"
        using s2 by (simp_all add: s3_def)
      from put_attrs_ok [OF s3(2)] obtain ok4 s4 where p: "put_attrs L m [(NL80211_ATTR_IFINDEX, le32_enc ?i)] s3 = Some (ok4, s4)"
        "same_sockets s3 s4" "live_msgs s4 = live_msgs s3" "nl_cbs s4 = nl_cbs s3" by blast
      have s4: "same_sockets s s4" "m \<in> live_msgs s4" "live_msgs s4 = insert m (live_msgs s)" "nl_cbs s4 = nl_cbs s"
        using s3 p same_sockets_trans by auto
      have e: "nl80211_msg_prepare L cmd interface s =
          (if ?i = 0 then prepare_failure m s3 else if ok4 then Some (Some m, s4) else prepare_failure m s4)"
        using Pair Some h(1) n p(1) by (simp add: nl80211_msg_prepare_def lib_eq s3_def)
      show ?thesis
      proof (cases "?i = 0 \<or> \<not> ok4")
        case True
        with e prepare_failure_ok [OF s3(2,1,3) _ s3(4)] prepare_failure_ok [OF s4(2,1,3) _ s4(4)] a
        show ?thesis by (cases "?i = 0") auto
      next
        case False
        with e s4 a show ?thesis by simp
      qed
    qed
  qed
qed

subsection \<open>The wait for the acknowledgement\<close>

text \<open>The results of successive calls of \<open>nl_recvmsgs\<close>, and those that carry an answer.\<close>

fun nl_batch :: "('m, 'w) libnl \<Rightarrow> nat \<Rightarrow> 'w \<Rightarrow> nat \<Rightarrow> 'm nl_event list" where
  "nl_batch L k w 0 = fst (nl_recvmsgs L k w)"
| "nl_batch L k w (Suc n) = nl_batch L k (snd (nl_recvmsgs L k w)) n"

definition answers :: "'m nl_event list \<Rightarrow> bool" where
  "answers es \<longleftrightarrow> (\<exists>e \<in> set es. \<forall>msg. e \<noteq> NL_valid msg)"

text \<open>A callback that always skips to the next message and keeps an invariant of its argument.\<close>

definition skipping :: "('a \<Rightarrow> bool) \<Rightarrow> ('m \<Rightarrow> 'a \<Rightarrow> (nl_action \<times> 'a) option) \<Rightarrow> bool" where
  "skipping I cb \<longleftrightarrow> (\<forall>msg a. I a \<longrightarrow> (\<exists>a'. cb msg a = Some (NL_SKIP, a') \<and> I a'))"

lemma skippingE: "skipping I cb \<Longrightarrow> I a \<Longrightarrow> (\<And>a'. cb msg a = Some (NL_SKIP, a') \<Longrightarrow> I a' \<Longrightarrow> thesis) \<Longrightarrow> thesis"
  by (auto simp: skipping_def)

lemma answers_simps [simp]: "\<not> answers []" "answers (NL_valid msg # es) = answers es" "answers (NL_ack # es)"
  "answers (NL_finish # es)" "answers (NL_err e # es)"
  by (auto simp: answers_def)

lemma deliver_ok:
  assumes cb: "skipping I cb" and e: "\<forall>e. 0 \<le> nl_syserr2nlerr L e"
  shows "I arg \<Longrightarrow> \<exists>err' arg'. deliver L cb es (err, arg) = Some (err', arg') \<and> I arg' \<and>
    (if answers es then err' \<le> 0 else err' = err)"
proof (induction es arbitrary: err arg)
  case (Cons ev es)
  show ?case
  proof (cases ev)
    case (NL_valid msg)
    from cb Cons.prems obtain a' where a: "cb msg arg = Some (NL_SKIP, a')" "I a'" by (rule skippingE)
    from Cons.IH [OF a(2)] show ?thesis using a NL_valid by simp
  next
    case NL_finish
    from Cons.IH [OF Cons.prems, of 0] obtain err' arg' where
      "deliver L cb es (0, arg) = Some (err', arg')" "I arg'" "if answers es then err' \<le> 0 else err' = 0" by blast
    then show ?thesis using NL_finish by (auto simp: nl80211_finish_cb_def split: if_splits)
  qed (use Cons.prems e in \<open>simp_all add: nl80211_ack_cb_def nl80211_err_cb_def\<close>)
qed simp

lemma wait_ack_answered:
  assumes cb: "skipping I cb" and e: "\<forall>e. 0 \<le> nl_syserr2nlerr L e"
  shows "answers (nl_batch L k (nl_world s) n) \<Longrightarrow> I arg \<Longrightarrow> 0 < err \<Longrightarrow>
    \<exists>err' arg' w. wait_ack L k cb err arg s = Some (err', arg', s\<lparr>nl_world := w\<rparr>) \<and> err' \<le> 0 \<and> I arg'"
proof (induction n arbitrary: s arg err)
  case (0 s arg err)
  from deliver_ok [OF cb e 0(2)] 0(1) obtain err' arg' where
    "deliver L cb (fst (nl_recvmsgs L k (nl_world s))) (err, arg) = Some (err', arg')" "I arg'" "err' \<le> 0"
    by fastforce
  then show ?case using 0(3) by (auto simp: wait_ack.simps [of L k cb err] wait_ack.simps [of L k cb err'] lib_eq)
next
  case (Suc n s arg err)
  from deliver_ok [OF cb e Suc(3)] obtain err' arg' where
    d: "deliver L cb (fst (nl_recvmsgs L k (nl_world s))) (err, arg) = Some (err', arg')" "I arg'"
      "err' \<le> 0 \<or> err' = err" by (metis (full_types))
  let ?s = "s\<lparr>nl_world := snd (nl_recvmsgs L k (nl_world s))\<rparr>"
  show ?case
  proof (cases "err' \<le> 0")
    case True
    then show ?thesis using d Suc(4) by (auto simp: wait_ack.simps [of L k cb err] wait_ack.simps [of L k cb err'] lib_eq)
  next
    case False
    have "answers (nl_batch L k (nl_world ?s) n)" "0 < err'" using Suc.prems(1) False by simp_all
    from Suc.IH [OF this(1) d(2) this(2)] obtain err2 arg2 w where
      "wait_ack L k cb err' arg' ?s = Some (err2, arg2, ?s\<lparr>nl_world := w\<rparr>)" "err2 \<le> 0" "I arg2" by blast
    then show ?thesis using d(1) Suc(4) by (auto simp: wait_ack.simps [of L k cb err] lib_eq)
  qed
qed

lemma wait_ack_only_answered:
  assumes cb: "skipping I cb" and e: "\<forall>e. 0 \<le> nl_syserr2nlerr L e" and run: "wait_ack L k cb err arg s = Some r"
    and i: "I arg" "0 < err"
  shows "\<exists>n. answers (nl_batch L k (nl_world s) n)"
proof -
  let ?P = "\<lambda>L' k' cb' err arg s r. L' = L \<longrightarrow> k' = k \<longrightarrow> cb' = cb \<longrightarrow> I arg \<longrightarrow> 0 < err \<longrightarrow>
    (\<exists>n. answers (nl_batch L k (nl_world s) n))"
  have "?P L k cb err arg s r"
  proof (rule wait_ack.raw_induct [where P = ?P, OF _ run])
    fix w L' k' cb' err arg s r
    assume IH: "\<And>L' k' cb' err arg s r. w L' k' cb' err arg s = Some r \<Longrightarrow> ?P L' k' cb' err arg s r"
      and step: "(if 0 < err then case lib (nl_recvmsgs L' k') s of (es, s) \<Rightarrow> do {
          (err, arg) \<leftarrow> deliver L' cb' es (err, arg);
          w L' k' cb' err arg s } else Some (err, arg, s)) = Some r"
    show "?P L' k' cb' err arg s r"
    proof (intro impI)
      assume a: "L' = L" "k' = k" "cb' = cb" "I arg" "0 < err"
      let ?es = "fst (nl_recvmsgs L k (nl_world s))"
      let ?s = "s\<lparr>nl_world := snd (nl_recvmsgs L k (nl_world s))\<rparr>"
      from deliver_ok [OF cb e a(4), of ?es err] obtain err' arg' where
        d: "deliver L cb ?es (err, arg) = Some (err', arg')" "I arg'" "if answers ?es then err' \<le> 0 else err' = err"
        by blast
      show "\<exists>n. answers (nl_batch L k (nl_world s) n)"
      proof (cases "answers ?es")
        case True
        then show ?thesis by (intro exI [of _ 0]) simp
      next
        case False
        have "w L k cb err' arg' ?s = Some r" using step a d(1) by (simp add: lib_eq)
        from IH [OF this] a d(2,3) False obtain n where "answers (nl_batch L k (nl_world ?s) n)" by auto
        then show ?thesis by (intro exI [of _ "Suc n"]) simp
      qed
    qed
  qed
  with i show ?thesis by blast
qed

subsection \<open>Sending\<close>

text \<open>How a request can leave a resource behind.\<close>

definition leaks_cb :: "'w nl_state \<Rightarrow> 'w nl_state \<Rightarrow> bool" where
  "leaks_cb s s' \<longleftrightarrow> same_sockets s s' \<and> live_msgs s' = live_msgs s \<and>
     (\<exists>c. c \<notin> live_cbs s \<and> live_cbs s' = insert c (live_cbs s))"

definition leaks_msg :: "'w nl_state \<Rightarrow> 'w nl_state \<Rightarrow> bool" where
  "leaks_msg s s' \<longleftrightarrow> same_sockets s s' \<and> live_cbs s' = live_cbs s \<and>
     (\<exists>m. m \<notin> live_msgs s \<and> live_msgs s' = insert m (live_msgs s))"

text \<open>The cases of \<open>nl80211_send_recv\<close>, for a message that was built by the caller.\<close>

lemma send_recv_cases:
  assumes m: "m \<in> live_msgs s" and k: "live_socket sock s = Some k"
  obtains (no_memory) s1 where "nl80211_send_recv L sock m f arg s = Some (False, arg, s1)" "balanced s s1"
      "\<not> fst (nl_cb_alloc L (nl_world s))"
  | (not_sent) s1 x w c where "nl80211_send_recv L sock m f arg s = Some (False, arg, s1)" "same_sockets s s1"
      "live_msgs s1 = live_msgs s - {m}" "c \<notin> live_cbs s" "live_cbs s1 = insert c (live_cbs s)"
      "fst (nl_cb_alloc L (nl_world s))"
      "fst (nl_send_auto_complete L k x w) \<le> 0"
  | (sent) s1 c where "nl80211_send_recv L sock m f arg s = do {
         (err, arg, t) \<leftarrow> wait_ack L k (case f of Some f \<Rightarrow> f | None \<Rightarrow> nl80211_default_cb) 1 arg s1;
         t \<leftarrow> nl_cb_put c t;
         Some (\<not> err < 0, arg, t) }" "same_sockets s s1" "fst (nl_cb_alloc L (nl_world s))"
      "live_msgs s1 = live_msgs s - {m}" "c \<notin> live_cbs s" "live_cbs s1 = insert c (live_cbs s)"
      "nl_world s1 = snd (nl_send_auto_complete L k (the (msg_at s m)) (snd (nl_cb_alloc L (nl_world s))))"
proof (cases "cb_alloc L s")
  case (Pair co s1)
  show ?thesis
  proof (cases co)
    case None
    show ?thesis
      by (rule no_memory [of s1]) (use Pair None cb_alloc_fails in \<open>auto simp: nl80211_send_recv_def\<close>)
  next
    case (Some c)
    note a = cb_alloc_ok [OF Pair [unfolded Some]]
    have okc: "fst (nl_cb_alloc L (nl_world s))"
      using Pair Some by (auto simp: cb_alloc_def lib_eq Let_def split: if_splits)
    have k1: "live_socket sock s1 = Some k" using k a live_socket_cong by metis
    from m obtain x where x: "msg_at s m = Some x" by (auto simp: live_msgs_def)
    then have x1: "msg_at s1 m = Some x" using a by (simp add: msg_at_def split: if_splits)
    let ?r = "nl_send_auto_complete L k x (nl_world s1)"
    define s2 where "s2 = s1\<lparr>nl_world := snd ?r\<rparr>"
    have m2: "m \<in> live_msgs s2" using x1 by (simp add: s2_def live_msgs_def)
    from nlmsg_free_ok [OF m2] obtain s3 where f3: "nlmsg_free m s2 = Some s3" "same_sockets s2 s3"
      "live_msgs s3 = live_msgs s2 - {m}" "nl_cbs s3 = nl_cbs s2" "nl_world s3 = nl_world s2" by blast
    have s3: "same_sockets s s3" "live_msgs s3 = live_msgs s - {m}" "live_cbs s3 = insert c (live_cbs s)"
      using f3 a live_cbs_cong [OF f3(4)] same_sockets_trans [of s s2 s3] live_msgs_cong [of s1 s]
      by (simp_all add: s2_def)
    have run: "nl80211_send_recv L sock m f arg s = (if fst ?r \<le> 0 then Some (False, arg, s3) else do {
         (err, arg, t) \<leftarrow> wait_ack L k (case f of Some f \<Rightarrow> f | None \<Rightarrow> nl80211_default_cb) 1 arg s3;
         t \<leftarrow> nl_cb_put c t;
         Some (\<not> err < 0, arg, t) })"
      using Pair Some k1 x1 f3(1) by (simp add: nl80211_send_recv_def lib_eq s2_def)
    show ?thesis
    proof (cases "fst ?r \<le> 0")
      case True
      show ?thesis by (rule not_sent [of s3 c x "nl_world s1"]) (use run True s3 a okc in auto)
    next
      case False
      have "nl_world s3 = snd (nl_send_auto_complete L k (the (msg_at s m)) (snd (nl_cb_alloc L (nl_world s))))"
        using f3(5) x a by (simp add: s2_def)
      then show ?thesis by (intro sent [of s3 c]) (use run False s3 a okc in auto)
    qed
  qed
qed

text \<open>
  The outcome of a request: nothing is left behind, except that a failed request keeps its
  message when no callback set could be allocated, and its callback set when sending failed.
\<close>

definition outcome :: "('m, 'w) libnl \<Rightarrow> nat \<Rightarrow> bool \<Rightarrow> 'w nl_state \<Rightarrow> 'w nl_state \<Rightarrow> bool" where
  "outcome L k r s s' \<longleftrightarrow> balanced s s' \<or>
     (\<not> r \<and> leaks_msg s s' \<and> (\<exists>w. \<not> fst (nl_cb_alloc L w))) \<or>
     (\<not> r \<and> leaks_cb s s' \<and> (\<exists>x w. fst (nl_send_auto_complete L k x w) \<le> 0))"

lemma default_skipping: "skipping I nl80211_default_cb"
  by (simp add: skipping_def nl80211_default_cb_def)

text \<open>What the code relies on: a positive number for every error, and an answer to every request.\<close>

definition kernel_ok :: "('m, 'w) libnl \<Rightarrow> nat \<Rightarrow> bool" where
  "kernel_ok L k \<longleftrightarrow> (\<forall>e. 0 \<le> nl_syserr2nlerr L e) \<and> (\<forall>w. \<exists>n. answers (nl_batch L k w n))"

lemma send_recv_outcome:
  assumes s: "same_sockets s0 s" "m \<notin> live_msgs s0" "live_msgs s = insert m (live_msgs s0)" "live_cbs s = live_cbs s0"
    and k: "live_socket sock s = Some k" and L: "kernel_ok L k"
    and cb: "skipping I (case f of Some f \<Rightarrow> f | None \<Rightarrow> nl80211_default_cb)" and i: "I arg"
  shows "\<exists>r arg' s'. nl80211_send_recv L sock m f arg s = Some (r, arg', s') \<and> I arg' \<and> outcome L k r s0 s'"
proof -
  have m: "m \<in> live_msgs s" using s by simp
  from m k show ?thesis
  proof (cases rule: send_recv_cases [where f = f and arg = arg and L = L])
    case (no_memory s1)
    with s have "leaks_msg s0 s1" by (auto simp: leaks_msg_def balanced_def same_sockets_trans)
    with no_memory i show ?thesis by (auto simp: outcome_def)
  next
    case (not_sent s1 x w c)
    with s have "leaks_cb s0 s1" by (auto simp: leaks_cb_def same_sockets_trans)
    with not_sent i show ?thesis by (auto simp: outcome_def)
  next
    case (sent s1 c)
    from L obtain n where n: "answers (nl_batch L k (nl_world s1) n)" by (auto simp: kernel_ok_def)
    from L have e: "\<forall>e. 0 \<le> nl_syserr2nlerr L e" by (simp add: kernel_ok_def)
    from wait_ack_answered [OF cb e n i, of 1] obtain err arg' w where
      w: "wait_ack L k (case f of Some f \<Rightarrow> f | None \<Rightarrow> nl80211_default_cb) 1 arg s1 =
         Some (err, arg', s1\<lparr>nl_world := w\<rparr>)" "I arg'" by auto
    have c: "c \<in> live_cbs (s1\<lparr>nl_world := w\<rparr>)" using sent(6) by simp
    from nl_cb_put_ok [OF c] obtain s2 where p: "nl_cb_put c (s1\<lparr>nl_world := w\<rparr>) = Some s2"
      "same_sockets (s1\<lparr>nl_world := w\<rparr>) s2" "live_cbs s2 = live_cbs (s1\<lparr>nl_world := w\<rparr>) - {c}"
      "nl_msgs s2 = nl_msgs (s1\<lparr>nl_world := w\<rparr>)" by blast
    have "same_sockets s1 s2" using p(2) by (simp add: same_sockets_def)
    then have "same_sockets s0 s2" using s(1) sent(2) same_sockets_trans by blast
    moreover have "live_msgs s2 = live_msgs s0" using live_msgs_cong [OF p(4)] sent(4) s(2,3) by auto
    moreover have "live_cbs s2 = live_cbs s0" using p(3) sent(5,6) s(4) by auto
    ultimately have "balanced s0 s2" by (simp add: balanced_def)
    then show ?thesis using sent(1) w p(1) by (simp add: outcome_def)
  qed
qed

text \<open>Freeing the message at the label \<open>nla_put_failure\<close>.\<close>

lemma free_outcome:
  assumes s: "same_sockets s0 s" "m \<notin> live_msgs s0" "live_msgs s = insert m (live_msgs s0)" "live_cbs s = live_cbs s0"
  shows "\<exists>s'. nlmsg_free m s = Some s' \<and> balanced s0 s'"
proof -
  have m: "m \<in> live_msgs s" using s by simp
  from nlmsg_free_ok [OF m] obtain s' where "nlmsg_free m s = Some s'" "same_sockets s s'"
    "live_msgs s' = live_msgs s - {m}" "nl_cbs s' = nl_cbs s" by blast
  with s show ?thesis using live_cbs_cong [of s' s] same_sockets_trans [of s0 s s'] by (auto simp: balanced_def)
qed

lemma balanced_outcome: "balanced s s' \<Longrightarrow> outcome L k r s s'" by (simp add: outcome_def)

text \<open>The wait of a request that was sent ends exactly when the kernel answers.\<close>

lemma send_recv_returns:
  assumes m: "m \<in> live_msgs s" and k: "live_socket sock s = Some k" and e: "\<forall>e. 0 \<le> nl_syserr2nlerr L e"
    and cb: "skipping I (case f of Some f \<Rightarrow> f | None \<Rightarrow> nl80211_default_cb)" and i: "I arg"
    and sends: "fst (nl_cb_alloc L (nl_world s))" "\<And>x w. 0 < fst (nl_send_auto_complete L k x w)"
    and w: "w = snd (nl_send_auto_complete L k (the (msg_at s m)) (snd (nl_cb_alloc L (nl_world s))))"
  shows "nl80211_send_recv L sock m f arg s \<noteq> None \<longleftrightarrow> (\<exists>n. answers (nl_batch L k w n))"
  using m k
proof (cases rule: send_recv_cases [where f = f and arg = arg and L = L])
  case (no_memory s1)
  with sends show ?thesis by simp
next
  case (not_sent s1 x w c)
  with sends(2) [of x w] show ?thesis by simp
next
  case (sent s1 c)
  have w1: "nl_world s1 = w" using sent(7) w by simp
  show ?thesis
  proof
    assume "nl80211_send_recv L sock m f arg s \<noteq> None"
    then obtain r where "wait_ack L k (case f of Some f \<Rightarrow> f | None \<Rightarrow> nl80211_default_cb) 1 arg s1 = Some r"
      unfolding sent(1) by (auto simp: bind_conv)
    from wait_ack_only_answered [OF cb e this i] w1 show "\<exists>n. answers (nl_batch L k w n)" by simp
  next
    assume "\<exists>n. answers (nl_batch L k w n)"
    then obtain n where n: "answers (nl_batch L k (nl_world s1) n)" using w1 by blast
    from wait_ack_answered [OF cb e n i, of 1] obtain err arg' v where
      v: "wait_ack L k (case f of Some f \<Rightarrow> f | None \<Rightarrow> nl80211_default_cb) 1 arg s1 =
         Some (err, arg', s1\<lparr>nl_world := v\<rparr>)" by auto
    have "c \<in> live_cbs (s1\<lparr>nl_world := v\<rparr>)" using sent(6) by simp
    from nl_cb_put_ok [OF this] obtain s2 where "nl_cb_put c (s1\<lparr>nl_world := v\<rparr>) = Some s2" by blast
    with sent(1) v show "nl80211_send_recv L sock m f arg s \<noteq> None" by simp
  qed
qed

text \<open>C28: A request that libnl has sent returns exactly when the
  kernel answers: \<open>nl80211_send_recv\<close> returns if and only if some later call of
  \<open>nl_recvmsgs\<close> delivers an acknowledgement, the end of a dump or an error.  The loop ignores
  the result of \<open>nl_recvmsgs\<close>, so a socket that has failed and delivers nothing makes it run
  for ever.\<close>

theorem wait_ends_iff_answered:
  assumes m: "m \<in> live_msgs s" "live_socket sock s = Some k" and e: "\<forall>e. 0 \<le> nl_syserr2nlerr L e"
    and cb: "\<And>msg a. \<exists>a'. cb msg a = Some (NL_SKIP, a')"
    and sends: "\<And>w. fst (nl_cb_alloc L w)" "\<And>x w. 0 < fst (nl_send_auto_complete L k x w)"
    and w: "w = snd (nl_send_auto_complete L k (the (msg_at s m)) (snd (nl_cb_alloc L (nl_world s))))"
  shows "nl80211_send_recv L sock m (Some cb) arg s \<noteq> None \<longleftrightarrow> (\<exists>n. answers (nl_batch L k w n))"
proof (rule send_recv_returns [OF m e, of "\<lambda>_. True"])
  show "skipping (\<lambda>_. True) (case Some cb of Some f \<Rightarrow> f | None \<Rightarrow> nl80211_default_cb)"
    using cb by (simp add: skipping_def)
qed (use sends w in simp_all)

text \<open>Two instances of the library: one whose kernel answers the third call, and one that is silent.\<close>

definition some_libnl :: "(unit, nat) libnl" where
  "some_libnl =
    \<lparr>nl_socket_alloc = \<lambda>w. (True, w), genl_connect = \<lambda>k w. (0, w), genl_ctrl_resolve = \<lambda>k n w. (26, w),
     nlmsg_alloc = \<lambda>w. (True, w), genlmsg_put = \<lambda>x. True, nla_put = \<lambda>x a v. True,
     if_nametoindex = \<lambda>n w. (3, w), nl_cb_alloc = \<lambda>w. (True, w), nl_send_auto_complete = \<lambda>k x w. (1, 0),
     nl_recvmsgs = \<lambda>k w. (if w < 2 then [NL_valid ()] else [NL_ack], w + 1), nl_syserr2nlerr = \<lambda>e. \<bar>e\<bar>,
     nl_socket_add_membership = \<lambda>k g w. (0, w), nl_socket_get_fd = \<lambda>k. 4, genl_attrs = \<lambda>m a. None,
     genl_cmd_of = \<lambda>m. NL80211_CMD_GET_WIPHY, nla_nested = \<lambda>v. [], mcast_attrs = \<lambda>v a. None\<rparr>"

definition silent_libnl :: "(unit, nat) libnl" where
  "silent_libnl = some_libnl\<lparr>nl_recvmsgs := \<lambda>k w. ([], w)\<rparr>"

definition some_state :: "nat nl_state" where
  "some_state = \<lparr>nl_msgs = [Some empty_msg], nl_cbs = [], nl_socks = [True], nl_sock = Some 0, nl_event = None,
     family_id = 26, nl_world = 7\<rparr>"

lemma some_state_live: "0 \<in> live_msgs some_state" "live_socket (Some 0) some_state = Some 0" "live_msgs some_state = {0}"
  by (auto simp: some_state_def live_msgs_def msg_at_def live_socket_def split: if_splits)

lemma silent_fields: "nl_syserr2nlerr silent_libnl e = \<bar>e\<bar>" "nl_cb_alloc silent_libnl w = (True, w)"
  "nl_send_auto_complete silent_libnl k x w = (1, 0)"
  by (simp_all add: silent_libnl_def some_libnl_def)

lemma silent_batch: "nl_batch silent_libnl k w n = []"
  by (induction n) (simp_all add: silent_libnl_def)

lemma wait_ends_iff_answered_witness:
  "nl80211_send_recv some_libnl (Some 0) 0 (Some (\<lambda>m a. Some (NL_SKIP, a + 1))) (0 :: nat) some_state \<noteq> None \<and>
   nl80211_send_recv silent_libnl (Some 0) 0 (Some (\<lambda>m a. Some (NL_SKIP, a + 1))) (0 :: nat) some_state = None"
proof
  have "answers (nl_batch some_libnl 0 0 2)" by (simp add: some_libnl_def numeral_2_eq_2)
  then show "nl80211_send_recv some_libnl (Some 0) 0 (Some (\<lambda>m a. Some (NL_SKIP, a + 1))) (0 :: nat) some_state \<noteq> None"
    by (subst wait_ends_iff_answered [OF some_state_live(1,2), where w = 0]) (auto simp: some_libnl_def)
  show "nl80211_send_recv silent_libnl (Some 0) 0 (Some (\<lambda>m a. Some (NL_SKIP, a + 1))) (0 :: nat) some_state = None"
    by (rule iffD1 [OF not_not], subst wait_ends_iff_answered [OF some_state_live(1,2), where w = 0])
      (simp_all add: silent_fields silent_batch)
qed

subsection \<open>Multicast groups\<close>

lemma wait_ack_frame:
  assumes "wait_ack L k cb err arg s = Some r"
  shows "\<exists>err' arg' w. r = (err', arg', s\<lparr>nl_world := w\<rparr>)"
proof (rule wait_ack.raw_induct [where P = "\<lambda>L k cb err arg s r. \<exists>err' arg' w. r = (err', arg', s\<lparr>nl_world := w\<rparr>)",
    OF _ assms])
  fix wa L k cb err arg s r
  assume IH: "\<And>L k cb err arg s r. wa L k cb err arg s = Some r \<Longrightarrow> \<exists>err' arg' w. r = (err', arg', s\<lparr>nl_world := w\<rparr>)"
    and step: "(if 0 < err then case lib (nl_recvmsgs L k) s of (es, s) \<Rightarrow> do {
        (err, arg) \<leftarrow> deliver L cb es (err, arg);
        wa L k cb err arg s } else Some (err, arg, s)) = Some r"
  show "\<exists>err' arg' w. r = (err', arg', s\<lparr>nl_world := w\<rparr>)"
  proof (cases "0 < err")
    case True
    let ?s = "s\<lparr>nl_world := snd (nl_recvmsgs L k (nl_world s))\<rparr>"
    from step True obtain e a where "wa L k cb e a ?s = Some r" by (auto simp: lib_eq bind_conv)
    from IH [OF this] show ?thesis by auto
  next
    case False
    with step show ?thesis by (intro exI [of _ err] exI [of _ arg] exI [of _ "nl_world s"]) simp
  qed
qed

lemma send_recv_frees:
  assumes m: "m \<in> live_msgs s" "live_socket sock s = Some k" and mem: "fst (nl_cb_alloc L (nl_world s))"
    and run: "nl80211_send_recv L sock m f arg s = Some (r, arg', s')"
  shows "m \<notin> live_msgs s'"
  using m
proof (cases rule: send_recv_cases [where f = f and arg = arg and L = L])
  case (sent s1 c)
  from run [unfolded sent(1)] obtain err a t where w:
    "wait_ack L k (case f of Some f \<Rightarrow> f | None \<Rightarrow> nl80211_default_cb) 1 arg s1 = Some (err, a, t)"
    "nl_cb_put c t = Some s'" by (auto simp: bind_conv)
  from wait_ack_frame [OF w(1)] have "live_msgs t = live_msgs s1" by auto
  moreover have "nl_msgs s' = nl_msgs t" using w(2) by (auto simp: nl_cb_put_def split: if_splits)
  ultimately show ?thesis using sent(4) live_msgs_cong by fastforce
qed (use mem run in auto)

subsection \<open>Connecting and disconnecting\<close>

text \<open>
  A connection that was set up is closed once; after a failed one \<open>nl_sock\<close> still points to
  the socket that \<open>nl80211_init\<close> has freed, and \<open>nl80211_finish\<close> frees it again.
\<close>

lemma init_cases:
  obtains (no_memory) s' where "nl80211_init L s = Some (False, s')" "nl_sock s' = None"
  | (failed) s' where "nl80211_init L s = Some (False, s')" "nl_sock s' = Some (length (nl_socks s))"
      "nl_socks s' = nl_socks s @ [False]"
  | (connected) s' where "nl80211_init L s = Some (True, s')" "nl_sock s' = Some (length (nl_socks s))"
      "nl_socks s' = nl_socks s @ [True]" "nl_event s' = nl_event s"
proof -
  let ?k = "length (nl_socks s)"
  define w1 where "w1 = snd (nl_socket_alloc L (nl_world s))"
  define r where "r = genl_connect L ?k w1"
  define f where "f = genl_ctrl_resolve L ?k ''nl80211'' (snd r)"
  show thesis
  proof (cases "fst (nl_socket_alloc L (nl_world s))")
    case False
    then show thesis
      by (intro no_memory [of "s\<lparr>nl_world := w1, nl_sock := None\<rparr>"])
        (simp_all add: nl80211_init_def socket_alloc_def lib_eq init_out_def socket_free_def w1_def)
  next
    case True
    define s1 where "s1 = s\<lparr>nl_world := w1, nl_socks := nl_socks s @ [True], nl_sock := Some ?k\<rparr>"
    have s1: "nl_sock s1 = Some ?k" "nl_socks s1 = nl_socks s @ [True]" "nl_event s1 = nl_event s" "nl_world s1 = w1"
      by (simp_all add: s1_def)
    define s2 where "s2 = s1\<lparr>nl_world := snd r\<rparr>"
    define s3 where "s3 = s2\<lparr>nl_world := snd f, family_id := fst f\<rparr>"
    have run: "nl80211_init L s = (if fst r \<noteq> 0 then init_out s2 else if fst f < 0 then init_out s3 else Some (True, s3))"
      using True by (simp add: nl80211_init_def socket_alloc_def lib_eq w1_def r_def f_def s1_def s2_def s3_def)
    have out: "init_out t = Some (False, t\<lparr>nl_socks := (nl_socks s @ [True])[?k := False]\<rparr>)"
      if "nl_sock t = Some ?k" "nl_socks t = nl_socks s @ [True]" for t :: "'a nl_state"
      using that by (simp add: init_out_def socket_free_def)
    have t2: "nl_sock s2 = Some ?k" "nl_socks s2 = nl_socks s @ [True]" by (simp_all add: s2_def s1)
    have t3: "nl_sock s3 = Some ?k" "nl_socks s3 = nl_socks s @ [True]" "nl_event s3 = nl_event s"
      by (simp_all add: s3_def s2_def s1)
    show thesis
    proof (cases "fst r = 0 \<and> \<not> fst f < 0")
      case True
      with run t3 show thesis by (intro connected [of s3]) simp_all
    next
      case False
      then obtain t where "nl80211_init L s = init_out t" "nl_sock t = Some ?k" "nl_socks t = nl_socks s @ [True]"
        using run t2 t3 by (cases "fst r = 0") auto
      with out [of t] show thesis
        by (intro failed [of "t\<lparr>nl_socks := (nl_socks s @ [True])[?k := False]\<rparr>"]) simp_all
    qed
  qed
qed

lemma init_finish:
  assumes "nl80211_init L s = Some (True, s')" "nl_event s = None"
  shows "\<exists>s''. nl80211_finish s' = Some s'' \<and> nl_socks s'' = nl_socks s @ [False]"
  by (rule init_cases [where L = L and s = s]) (use assms in \<open>auto simp: nl80211_finish_def socket_free_def\<close>)

lemma init_then_finish:
  assumes "nl80211_init L s = Some (False, s')" "nl_sock s' \<noteq> None"
  shows "nl80211_finish s' = None"
  by (rule init_cases [where L = L and s = s]) (use assms in \<open>auto simp: nl80211_finish_def socket_free_def\<close>)

text \<open>The request of \<open>nl_get_multicast_id\<close> when the attribute fits: the number and the state.\<close>

definition group_request :: "('m, 'w) libnl \<Rightarrow> nat \<Rightarrow> string \<Rightarrow> 'w nl_state \<Rightarrow> nat \<times> 'w nl_state" where
  "group_request L k family s =
    (let m = length (nl_msgs s);
         r = genl_ctrl_resolve L k ''nlctrl'' (snd (nlmsg_alloc L (nl_world s)));
         hdr = (if genlmsg_put L empty_msg then Some (fst r, CTRL_CMD_GETFAMILY) else None) in
     (m, s\<lparr>nl_world := snd r, nl_msgs := nl_msgs s @ [Some \<lparr>mg_hdr = hdr, mg_dump = False,
            mg_attrs = [(CTRL_ATTR_FAMILY_NAME, c_string family)]\<rparr>]\<rparr>))"

text \<open>C35: \<open>nl_get_multicast_id\<close> frees its message once more
  when the request fails, although \<open>nl80211_send_recv\<close> has already freed it.  With memory for
  the message and the callback set it is defined exactly when the request succeeds; every
  failure (an error of the kernel, or a message that cannot be sent) is a double free.\<close>

theorem multicast_id_double_free:
  assumes k: "live_socket sock s = Some k" and mem: "\<And>w. fst (nlmsg_alloc L w)" "\<And>w. fst (nl_cb_alloc L w)"
    and fits: "\<And>x v. nla_put L x CTRL_ATTR_FAMILY_NAME v" and req: "group_request L k family s = (m, t)"
  shows "nl_get_multicast_id L sock family grp s =
    (case nl80211_send_recv L sock m (Some (nl_family_group_id_cb L grp)) (- ENOENT) t of
       Some (True, gid, s') \<Rightarrow> Some (gid, s')
     | _ \<Rightarrow> None)"
proof -
  have m: "m \<in> live_msgs t" and kt: "live_socket sock t = Some k"
    using req k by (auto simp: group_request_def Let_def live_msgs_def msg_at_def)
  have e: "nl_get_multicast_id L sock family grp s = do {
      (sent, gid, u) \<leftarrow> nl80211_send_recv L sock m (Some (nl_family_group_id_cb L grp)) (- ENOENT) t;
      if sent then Some (gid, u) else do { u \<leftarrow> nlmsg_free m u; Some (-1, u) } }"
    using k mem(1) fits req
    by (cases "genlmsg_put L empty_msg")
      (auto simp: nl_get_multicast_id_def msg_alloc_def lib_eq Let_def put_header_def msg_at_def
        set_msg_def empty_msg_def group_request_def list_update_append)
  show ?thesis
  proof (cases "nl80211_send_recv L sock m (Some (nl_family_group_id_cb L grp)) (- ENOENT) t")
    case None
    with e show ?thesis by simp
  next
    case (Some x)
    then obtain r gid u where x: "x = (r, gid, u)" by (cases x)
    from send_recv_frees [OF m kt mem(2) Some [unfolded x]] have "nlmsg_free m u = None" by (rule nlmsg_free_dead)
    with e Some x show ?thesis by (cases r) simp_all
  qed
qed

definition refusing_libnl :: "(unit, nat) libnl" where
  "refusing_libnl = some_libnl\<lparr>nl_recvmsgs := \<lambda>k w. ([NL_err (-2)], w)\<rparr>"

lemma refusing_fields: "nlmsg_alloc refusing_libnl w = (True, w)" "nl_cb_alloc refusing_libnl w = (True, w)"
  "nla_put refusing_libnl x a v" "nl_send_auto_complete refusing_libnl k x w = (1, 0)"
  "nl_recvmsgs refusing_libnl k w = ([NL_err (-2)], w)" "nl_syserr2nlerr refusing_libnl e = \<bar>e\<bar>"
  by (simp_all add: refusing_libnl_def some_libnl_def)

lemma refusing_wait: "wait_ack refusing_libnl k cb 1 arg s = Some (-2, arg, s)"
  by (simp add: wait_ack.simps [of _ _ _ 1] wait_ack.simps [of _ _ _ "-2"] lib_eq refusing_fields nl80211_err_cb_def)

lemma multicast_id_double_free_witness:
  "nl_get_multicast_id refusing_libnl (Some 0) ''nl80211'' ''mlme'' some_state = None"
proof -
  obtain m t where req: "group_request refusing_libnl 0 ''nl80211'' some_state = (m, t)" by fastforce
  then have t: "live_socket (Some 0) t = Some 0" "m \<in> live_msgs t"
    by (auto simp: group_request_def Let_def live_msgs_def msg_at_def some_state_live)
  then show ?thesis
    by (subst multicast_id_double_free [OF some_state_live(2) _ _ _ req])
      (auto simp: nl80211_send_recv_def cb_alloc_def lib_eq refusing_fields refusing_wait nlmsg_free_def nl_cb_put_def
        live_msgs_def)
qed

end
