(* ===== verification/Nl80211_Facts.thy ===== *)
theory Nl80211_Facts
  imports Ifctrl_Nl80211 Netlink_Facts
begin

text \<open>
  What the nl80211 interface control guarantees: requests leave no message, callback set or
  socket behind; the channel that is set is the one that is read back; and the channel list
  that is built from the answer of the kernel is the table that the channel component
  expects.
\<close>

subsection \<open>Commands and queries\<close>

lemma query_outcome:
  assumes k: "live_socket (nl_sock s) s = Some k" and L: "kernel_ok L k" and cb: "skipping I cb" and i: "I arg"
  shows "\<exists>r arg' s'. nl_query L cmd interface dump attrs cb arg s = Some (r, arg', s') \<and> I arg' \<and> outcome L k r s s'"
proof -
  from msg_prepare_ok [of L cmd interface s] obtain mo s1 where p:
    "nl80211_msg_prepare L cmd interface s = Some (mo, s1)"
    "case mo of None \<Rightarrow> balanced s s1
     | Some m \<Rightarrow> same_sockets s s1 \<and> m \<notin> live_msgs s \<and> live_msgs s1 = insert m (live_msgs s) \<and> nl_cbs s1 = nl_cbs s"
    by blast
  show ?thesis
  proof (cases mo)
    case None
    with p i show ?thesis by (auto simp: nl_query_def intro: balanced_outcome)
  next
    case (Some m)
    with p(2) have s1: "same_sockets s s1" "m \<notin> live_msgs s" "live_msgs s1 = insert m (live_msgs s)" "nl_cbs s1 = nl_cbs s"
      by simp_all
    obtain s2 where d: "(if dump then set_dump m s1 else Some s1) = Some s2"
      and s2: "same_sockets s s2" "live_msgs s2 = insert m (live_msgs s)" "nl_cbs s2 = nl_cbs s"
    proof (cases dump)
      case True
      obtain x where x: "msg_at s1 m = Some x" using s1(3) by (auto simp: live_msgs_def)
      have "live_msgs (set_msg m (x\<lparr>mg_dump := True\<rparr>) s1) = live_msgs s1" using live_set_msg [of m s1] s1(3) by simp
      with True x s1 show thesis by (intro that [of "set_msg m (x\<lparr>mg_dump := True\<rparr>) s1"]) (simp_all add: set_dump_def)
    qed (use s1 that in simp)
    have m2: "m \<in> live_msgs s2" using s2 by simp
    from put_attrs_ok [OF m2, of L attrs] obtain ok s3 where a: "put_attrs L m attrs s2 = Some (ok, s3)"
      "same_sockets s2 s3" "live_msgs s3 = live_msgs s2" "nl_cbs s3 = nl_cbs s2" by blast
    have s3: "same_sockets s s3" "m \<notin> live_msgs s" "live_msgs s3 = insert m (live_msgs s)" "live_cbs s3 = live_cbs s"
      using s1 s2 a same_sockets_trans live_cbs_cong [of s3 s] by auto
    have run: "nl_query L cmd interface dump attrs cb arg s =
        (if ok then nl80211_send_recv L (nl_sock s3) m (Some cb) arg s3
         else do { s \<leftarrow> nlmsg_free m s3; Some (False, arg, s) })"
      using p(1) Some d a(1) by (simp add: nl_query_def)
    show ?thesis
    proof (cases ok)
      case True
      have k3: "live_socket (nl_sock s3) s3 = Some k"
        using k live_socket_cong [OF s3(1)] s3(1) by (simp add: same_sockets_def)
      from send_recv_outcome [OF s3 k3 L, of I "Some cb" arg] cb i run True show ?thesis by simp
    next
      case False
      from free_outcome [OF s3] obtain s4 where "nlmsg_free m s3 = Some s4" "balanced s s4" by blast
      with i run False show ?thesis by (auto simp: balanced_outcome)
    qed
  qed
qed

text \<open>A command is a query without dump flag whose callback ignores its messages.\<close>

lemma command_query:
  "nl_command L cmd interface attrs s =
    map_option (\<lambda>(r, arg, s). (r, s)) (nl_query L cmd interface False attrs nl80211_default_cb () s)"
proof -
  have e: "nl80211_send_recv L sock m None () t = nl80211_send_recv L sock m (Some nl80211_default_cb) () t" for sock m t
    by (simp add: nl80211_send_recv_def split: option.splits prod.splits)
  show ?thesis
    by (auto simp: nl_command_def nl_query_def nl80211_send_def e map_option_case split: option.splits bind_splits)
qed

lemma command_outcome:
  assumes "live_socket (nl_sock s) s = Some k" "kernel_ok L k"
  shows "\<exists>r s'. nl_command L cmd interface attrs s = Some (r, s') \<and> outcome L k r s s'"
proof -
  from query_outcome [OF assms default_skipping, of "\<lambda>_. True" "()" cmd interface False attrs]
  obtain r u s' where "nl_query L cmd interface False attrs nl80211_default_cb () s = Some (r, u, s')" "outcome L k r s s'"
    by auto
  then show ?thesis by (simp add: command_query)
qed

text \<open>The commands of the interface, with their arguments.\<close>

datatype ifctrl_command =
    Add_Sta int string
  | Add_Monitor "string option" string
  | Del "string option"
  | Set_Monitor "string option"
  | Disconnect "string option"
  | Connect "string option" string int "bytes option"
  | Set_Freq "string option" u32 uwifi_chan_width u32

fun run_command ::
    "('m, 'w) libnl \<Rightarrow> nl80211_abi \<Rightarrow> ifctrl_command \<Rightarrow> 'w nl_state \<Rightarrow> (bool \<times> 'w nl_state) option" where
  "run_command L A (Add_Sta phy name) s = nl_iwadd_sta L A phy name s"
| "run_command L A (Add_Monitor i name) s = nl_iwadd_monitor L A i name s"
| "run_command L A (Del i) s = nl_iwdel L i s"
| "run_command L A (Set_Monitor i) s = nl_iwset_monitor L A i s"
| "run_command L A (Disconnect i) s = nl_iw_disconnect L i s"
| "run_command L A (Connect i essid freq bssid) s = nl_iw_connect L i essid freq bssid s"
| "run_command L A (Set_Freq i freq width center) s = nl_iwset_freq L A i freq width center s"

fun command_args_ok :: "ifctrl_command \<Rightarrow> bool" where
  "command_args_ok (Connect i essid freq (Some bssid)) \<longleftrightarrow> 6 \<le> length bssid"
| "command_args_ok c \<longleftrightarrow> True"

text \<open>C10: Every command returns once the kernel answers, and leaves
  behind neither a message, a callback set nor a socket, on all of its error paths: a
  message that cannot be built, an interface without number, an attribute that does not fit,
  an error of the kernel.  There are two exceptions, both for a command that fails: without
  memory for the callback set the message is never freed, and when the message cannot be
  sent the callback set is never freed.\<close>

theorem commands_free_resources:
  assumes k: "live_socket (nl_sock s) s = Some k" and L: "kernel_ok L k" and c: "command_args_ok c"
  shows "\<exists>r s'. run_command L A c s = Some (r, s') \<and>
    (balanced s s' \<or>
     (\<not> r \<and> leaks_msg s s' \<and> (\<exists>w. \<not> fst (nl_cb_alloc L w))) \<or>
     (\<not> r \<and> leaks_cb s s' \<and> (\<exists>x w. fst (nl_send_auto_complete L k x w) \<le> 0)))"
proof -
  note co = command_outcome [OF k L, unfolded outcome_def]
  show ?thesis
  proof (cases c)
    case (Connect i essid freq bssid)
    obtain mac where "(case bssid of None \<Rightarrow> Some []
       | Some b \<Rightarrow> do { m \<leftarrow> rd_bytes b 0 6; Some [(NL80211_ATTR_MAC, m)] }) = Some mac"
      using c Connect by (cases bssid) auto
    then show ?thesis using Connect co by (simp add: nl_iw_connect_def)
  qed (simp_all add: co nl_iwadd_sta_def nl_iwadd_monitor_def nl_iwdel_def nl_iwset_monitor_def
      nl_iw_disconnect_def nl_iwset_freq_def)
qed

definition some_abi :: nl80211_abi where
  "some_abi = \<lparr>chan_width_no = (\<lambda>w. case w of
       NL80211_CHAN_WIDTH_20_NOHT \<Rightarrow> 0 | NL80211_CHAN_WIDTH_20 \<Rightarrow> 1 | NL80211_CHAN_WIDTH_40 \<Rightarrow> 2
     | NL80211_CHAN_WIDTH_80 \<Rightarrow> 3 | NL80211_CHAN_WIDTH_80P80 \<Rightarrow> 4 | NL80211_CHAN_WIDTH_160 \<Rightarrow> 5),
     NL80211_IFTYPE_STATION = 2, NL80211_IFTYPE_MONITOR = 6, band_attrs = (\<lambda>v a. None), freq_attrs = (\<lambda>v a. None),
     sta_attrs = (\<lambda>v. None), survey_attrs = (\<lambda>v. None)\<rparr>"

lemma some_batch: "answers (nl_batch some_libnl k w 2)"
  by (simp add: some_libnl_def numeral_2_eq_2)

lemma some_kernel_ok: "kernel_ok some_libnl k"
  using some_batch by (auto simp: kernel_ok_def some_libnl_def)

lemma commands_free_resources_witness:
  "\<exists>r s'. run_command some_libnl some_abi (Connect (Some ''wlan0'') ''net'' 2412 (Some (replicate 6 1))) some_state = Some (r, s') \<and>
     balanced some_state s'"
proof -
  have k: "live_socket (nl_sock some_state) some_state = Some 0"
    using some_state_live(2) by (simp add: some_state_def)
  have f: "fst (nl_cb_alloc some_libnl w)" "\<not> fst (nl_send_auto_complete some_libnl i x w) \<le> 0" for i x w
    by (simp_all add: some_libnl_def)
  from commands_free_resources [OF k some_kernel_ok, of "Connect (Some ''wlan0'') ''net'' 2412 (Some (replicate 6 1))" some_abi]
  show ?thesis using f by auto
qed

subsection \<open>The current channel\<close>

lemma width_from_nl_width: "inj (chan_width_no A) \<Longrightarrow>
    width_from_nl A (chan_width_no A (nl_width w)) = (if w = CHAN_WIDTH_UNSPEC then CHAN_WIDTH_20_NOHT else w)"
  by (cases w) (simp_all add: width_from_nl_def nl_width_def inj_eq)

lemma rd32_le32 [simp]: "rd32 (le32_enc v) 0 = Some v"
  using le32.read_dec [of "[]" 0 v "[]"] by (simp add: rd32_def)

text \<open>C26: The channel that \<open>ifctrl_iwset_freq\<close> sends is the one that
  \<open>ifctrl_iwget_interface_info\<close> enters in the interface when the kernel reports the same
  attributes: frequency, width and center frequency; an unspecified width comes back as
  20 MHz without HT, and a center frequency of 0, which is not sent, keeps the old value.
  Nothing else of the interface changes.\<close>

theorem set_freq_roundtrip:
  assumes "inj (chan_width_no A)" and "genl_attrs L msg = map_of (freq_request A freq width center)"
  shows "nl80211_get_interface_info_cb L A msg intf = Some (NL_SKIP, intf\<lparr>channel :=
    \<lparr>cs_freq = freq, cs_width = (if width = CHAN_WIDTH_UNSPEC then CHAN_WIDTH_20_NOHT else width),
     cs_center_freq = (if center = 0 then cs_center_freq (channel intf) else center)\<rparr>\<rparr>)"
  using assms by (simp add: nl80211_get_interface_info_cb_def freq_request_def with_attr_def width_from_nl_width)

lemma some_abi_inj: "inj (chan_width_no some_abi)"
  by (rule injI) (auto simp: some_abi_def split: nl80211_chan_width.splits)

lemma set_freq_roundtrip_witness:
  "\<exists>L :: (unit, nat) libnl. nl80211_get_interface_info_cb L some_abi () intf2 =
     Some (NL_SKIP, intf2\<lparr>channel := \<lparr>cs_freq = 5180, cs_width = CHAN_WIDTH_80, cs_center_freq = 5210\<rparr>\<rparr>)"
proof -
  let ?L = "some_libnl\<lparr>genl_attrs := \<lambda>msg. map_of (freq_request some_abi 5180 CHAN_WIDTH_80 5210)\<rparr>"
  show ?thesis
    using set_freq_roundtrip [OF some_abi_inj, of ?L "()" 5180 CHAN_WIDTH_80 5210 intf2] by (intro exI [of _ ?L]) simp
qed

end
