(* ===== verification/Dump_Facts.thy ===== *)
theory Dump_Facts
  imports Nl80211_Facts
begin

text \<open>
  \<open>ifctrl_iwget_stations\<close> and \<open>ifctrl_iwget_survey\<close>: requests whose answer is a sequence of
  messages, each of which becomes an entry in an array of the caller.  The messages that libnl
  hands to the callback are computed from what the kernel sends; both callbacks keep the
  contract of the locale \<open>dump_array\<close>, in which the contents of the array are derived once.
\<close>

subsection \<open>The messages of an answer\<close>

text \<open>
  The valid messages of one call of \<open>nl_recvmsgs\<close> that reach the callback: an acknowledgement
  or an error ends the delivery; and those of the first calls.
\<close>

fun delivered :: "'m nl_event list \<Rightarrow> 'm list" where
  "delivered [] = []"
| "delivered (NL_valid msg # es) = msg # delivered es"
| "delivered (NL_ack # es) = []"
| "delivered (NL_finish # es) = delivered es"
| "delivered (NL_err e # es) = []"

text \<open>The variable \<open>err\<close> of \<open>nl80211_send_recv\<close> after such a call.\<close>

fun answer_code :: "('m, 'w) libnl \<Rightarrow> 'm nl_event list \<Rightarrow> int \<Rightarrow> int" where
  "answer_code L [] err = err"
| "answer_code L (NL_valid msg # es) err = answer_code L es err"
| "answer_code L (NL_ack # es) err = 0"
| "answer_code L (NL_finish # es) err = answer_code L es 0"
| "answer_code L (NL_err e # es) err = - nl_syserr2nlerr L e"

lemma answer_code_sign:
  assumes "\<forall>e. 0 \<le> nl_syserr2nlerr L e"
  shows "if answers es then answer_code L es err \<le> 0 else answer_code L es err = err"
proof (induction es arbitrary: err)
  case (Cons ev es)
  from Cons.IH [of err] Cons.IH [of 0] assms show ?case by (cases ev) (auto split: if_splits)
qed simp

fun received :: "('m, 'w) libnl \<Rightarrow> nat \<Rightarrow> 'w \<Rightarrow> nat \<Rightarrow> 'm list" where
  "received L k w 0 = delivered (fst (nl_recvmsgs L k w))"
| "received L k w (Suc n) = delivered (fst (nl_recvmsgs L k w)) @ received L k (snd (nl_recvmsgs L k w)) n"

text \<open>A callback that never stops and changes its argument by \<open>f\<close>, as long as \<open>I\<close> holds.\<close>

definition stepping :: "('a \<Rightarrow> bool) \<Rightarrow> ('m \<Rightarrow> 'a \<Rightarrow> 'a) \<Rightarrow> ('m \<Rightarrow> 'a \<Rightarrow> (nl_action \<times> 'a) option) \<Rightarrow> bool" where
  "stepping I f cb \<longleftrightarrow> (\<forall>msg a. I a \<longrightarrow> cb msg a = Some (NL_SKIP, f msg a) \<and> I (f msg a))"

lemma stepping_skipping: "stepping I f cb \<Longrightarrow> skipping I cb"
  by (auto simp: stepping_def skipping_def)

lemma fold_inv: "stepping I f cb \<Longrightarrow> I a \<Longrightarrow> I (fold f ms a)"
  by (induction ms arbitrary: a) (auto simp: stepping_def)

lemma deliver_fold:
  assumes cb: "stepping I f cb" and e: "\<forall>e. 0 \<le> nl_syserr2nlerr L e"
  shows "I arg \<Longrightarrow> \<exists>err'. deliver L cb es (err, arg) = Some (err', fold f (delivered es) arg) \<and> err' = answer_code L es err"
proof (induction es arbitrary: err arg)
  case (Cons ev es)
  show ?case
  proof (cases ev)
    case (NL_valid msg)
    from cb Cons.prems have "cb msg arg = Some (NL_SKIP, f msg arg)" "I (f msg arg)" by (simp_all add: stepping_def)
    with Cons.IH [of "f msg arg" err] NL_valid show ?thesis by simp
  next
    case NL_finish
    from Cons.IH [OF Cons.prems, of 0] NL_finish show ?thesis
      by (auto simp: nl80211_finish_cb_def split: if_splits)
  qed (use Cons.prems e in \<open>simp_all add: nl80211_ack_cb_def nl80211_err_cb_def\<close>)
qed simp

lemma wait_ack_fold:
  assumes cb: "stepping I f cb" and e: "\<forall>e. 0 \<le> nl_syserr2nlerr L e"
  shows "\<forall>i<n. \<not> answers (nl_batch L k (nl_world s) i) \<Longrightarrow> answers (nl_batch L k (nl_world s) n) \<Longrightarrow> I arg \<Longrightarrow> 0 < err \<Longrightarrow>
    \<exists>w. wait_ack L k cb err arg s =
      Some (answer_code L (nl_batch L k (nl_world s) n) err, fold f (received L k (nl_world s) n) arg, s\<lparr>nl_world := w\<rparr>)"
proof (induction n arbitrary: s arg err)
  case (0 s arg err)
  let ?es = "fst (nl_recvmsgs L k (nl_world s))"
  from deliver_fold [OF cb e 0(3), of ?es err] have
    d: "deliver L cb ?es (err, arg) = Some (answer_code L ?es err, fold f (delivered ?es) arg)" by simp
  have "answers ?es" using 0(2) by simp
  with answer_code_sign [OF e, of ?es err] have "answer_code L ?es err \<le> 0" by simp
  with d 0(4) show ?case
    by (auto simp: wait_ack.simps [of L k cb err] wait_ack.simps [of L k cb "answer_code L ?es err"] lib_eq)
next
  case (Suc n s arg err)
  let ?es = "fst (nl_recvmsgs L k (nl_world s))"
  let ?s = "s\<lparr>nl_world := snd (nl_recvmsgs L k (nl_world s))\<rparr>"
  have "\<not> answers ?es" using Suc.prems(1) by (metis nl_batch.simps(1) zero_less_Suc)
  with deliver_fold [OF cb e Suc.prems(3), of ?es err] answer_code_sign [OF e, of ?es err] have
    d: "deliver L cb ?es (err, arg) = Some (err, fold f (delivered ?es) arg)" by auto
  have "\<forall>i<n. \<not> answers (nl_batch L k (nl_world ?s) i)" "answers (nl_batch L k (nl_world ?s) n)"
    using Suc.prems(1,2) by auto
  from Suc.IH [OF this fold_inv [OF cb Suc.prems(3)] Suc.prems(4)] obtain w where
    "wait_ack L k cb err (fold f (delivered ?es) arg) ?s =
      Some (answer_code L (nl_batch L k (nl_world ?s) n) err, fold f (received L k (nl_world ?s) n) (fold f (delivered ?es) arg), ?s\<lparr>nl_world := w\<rparr>)" by blast
  then show ?case using d Suc.prems(4) by (auto simp: wait_ack.simps [of L k cb err] lib_eq)
qed

text \<open>
  The first answering call, and the messages of an answer up to it, with the success that it reports: whether
  the code of this call is not negative.  If the request was not sent, the argument of the callback is unchanged, and otherwise it is
  changed by these messages.
\<close>

definition first_answer :: "('m, 'w) libnl \<Rightarrow> nat \<Rightarrow> 'w \<Rightarrow> nat \<Rightarrow> bool" where
  "first_answer L k w n \<longleftrightarrow> answers (nl_batch L k w n) \<and> (\<forall>i<n. \<not> answers (nl_batch L k w i))"

definition answer_to :: "('m, 'w) libnl \<Rightarrow> nat \<Rightarrow> 'm list \<Rightarrow> bool \<Rightarrow> bool" where
  "answer_to L k ms ok \<longleftrightarrow> (\<exists>x w n. fst (nl_send_auto_complete L k x w) > 0 \<and>
     first_answer L k (snd (nl_send_auto_complete L k x w)) n \<and>
     ms = received L k (snd (nl_send_auto_complete L k x w)) n \<and>
     ok = (0 \<le> answer_code L (nl_batch L k (snd (nl_send_auto_complete L k x w)) n) 1))"

text \<open>A libnl and a system that refuse nothing: then every request is sent.\<close>

definition unrefused :: "('m, 'w) libnl \<Rightarrow> bool" where
  "unrefused L \<longleftrightarrow> (\<forall>w. fst (nlmsg_alloc L w)) \<and> (\<forall>x. genlmsg_put L x) \<and> (\<forall>x a v. nla_put L x a v) \<and>
     (\<forall>n w. fst (if_nametoindex L n w) \<noteq> 0) \<and> (\<forall>w. fst (nl_cb_alloc L w)) \<and>
     (\<forall>k x w. 0 < fst (nl_send_auto_complete L k x w))"

lemma unrefused_put: "unrefused L \<Longrightarrow> put_attrs L m attrs s = Some (ok, s') \<Longrightarrow> ok"
  by (induction L m attrs s rule: put_attrs.induct) (auto simp: unrefused_def bind_conv)

lemma unrefused_prepare:
  assumes u: "unrefused L" and p: "nl80211_msg_prepare L cmd interface s = Some (mo, s')"
  shows "mo \<noteq> None"
proof
  assume n: "mo = None"
  have a: "fst (nlmsg_alloc L w)" "genlmsg_put L x" "fst (if_nametoindex L name w) \<noteq> 0" "nla_put L x at v" for w x name at v
    using u by (simp_all add: unrefused_def)
  obtain w where "nlmsg_alloc L (nl_world s) = (True, w)" using a(1) by (metis prod.collapse)
  with p n a(2-4) show False
    by (auto simp: nl80211_msg_prepare_def msg_alloc_def lib_eq Let_def put_header_def bind_conv split: option.splits if_splits)
qed

lemma send_recv_fold:
  assumes run: "nl80211_send_recv L sk m (Some cb) arg s = Some (r, arg', s')"
    and cb: "stepping I f cb" and i: "I arg" and e: "\<forall>e. 0 \<le> nl_syserr2nlerr L e" and k: "live_socket sk s = Some k"
  shows "\<exists>ms. arg' = fold f ms arg \<and> ((ms = [] \<and> \<not> r \<and> \<not> unrefused L) \<or> answer_to L k ms r)"
proof -
  obtain co s1 where a: "cb_alloc L s = (co, s1)" by (cases "cb_alloc L s")
  show ?thesis
  proof (cases co)
    case None
    with a have "\<not> fst (nl_cb_alloc L (nl_world s))" by (auto simp: cb_alloc_def lib_eq Let_def split: if_splits)
    then have "\<not> unrefused L" by (auto simp: unrefused_def)
    with None run a show ?thesis by (intro exI [of _ "[]"]) (auto simp: nl80211_send_recv_def)
  next
    case (Some c)
    have k1: "live_socket sk s1 = Some k"
      using k a Some by (auto simp: cb_alloc_def lib_eq Let_def live_socket_def split: if_splits option.splits)
    from run a Some k1 obtain x s2 where x: "msg_at s1 m = Some x"
      and s2: "nlmsg_free m (s1\<lparr>nl_world := snd (nl_send_auto_complete L k x (nl_world s1))\<rparr>) = Some s2"
      and rest: "(if fst (nl_send_auto_complete L k x (nl_world s1)) \<le> 0 then Some (False, arg, s2)
         else do {
           (err, arg, s) \<leftarrow> wait_ack L k cb 1 arg s2;
           s \<leftarrow> nl_cb_put c s;
           Some (\<not> err < 0, arg, s) }) = Some (r, arg', s')"
      by (auto simp: nl80211_send_recv_def bind_conv lib_eq Let_def)
    have w2: "nl_world s2 = snd (nl_send_auto_complete L k x (nl_world s1))"
      using s2 by (auto simp: nlmsg_free_def bind_conv)
    show ?thesis
    proof (cases "fst (nl_send_auto_complete L k x (nl_world s1)) \<le> 0")
      case True
      then have "\<not> unrefused L" by (auto simp: unrefused_def not_le [symmetric])
      with True rest show ?thesis by (intro exI [of _ "[]"]) auto
    next
      case False
      with rest obtain y where y: "wait_ack L k cb 1 arg s2 = Some y" by (auto simp: bind_conv)
      from wait_ack_only_answered [OF stepping_skipping [OF cb] e y i] obtain n where
        "answers (nl_batch L k (nl_world s2) n)" by auto
      then obtain n where n: "first_answer L k (nl_world s2) n"
        using exists_least_iff [of "\<lambda>n. answers (nl_batch L k (nl_world s2) n)"] by (auto simp: first_answer_def)
      with wait_ack_fold [OF cb e _ _ i, of n k s2 1] obtain w where
        "wait_ack L k cb 1 arg s2 = Some (answer_code L (nl_batch L k (nl_world s2) n) 1,
           fold f (received L k (nl_world s2) n) arg, s2\<lparr>nl_world := w\<rparr>)"
        by (auto simp: first_answer_def)
      with rest False have "arg' = fold f (received L k (nl_world s2) n) arg"
        and r: "r = (0 \<le> answer_code L (nl_batch L k (nl_world s2) n) 1)" by (auto simp: bind_conv)
      moreover have "answer_to L k (received L k (nl_world s2) n) r"
        unfolding r answer_to_def using n False w2
        by (intro exI [of _ x] exI [of _ "nl_world s1"] exI [of _ n]) simp
      ultimately show ?thesis by blast
    qed
  qed
qed

lemma query_fold:
  assumes k: "live_socket (nl_sock s) s = Some k" and L: "kernel_ok L k" and cb: "stepping I f cb" and i: "I arg"
  shows "\<exists>r ms s'. nl_query L cmd interface dump attrs cb arg s = Some (r, fold f ms arg, s') \<and>
    outcome L k r s s' \<and> ((ms = [] \<and> \<not> r \<and> \<not> unrefused L) \<or> answer_to L k ms r)"
proof -
  from query_outcome [OF k L stepping_skipping [OF cb] i, of cmd interface dump attrs] obtain r arg' s' where
    q: "nl_query L cmd interface dump attrs cb arg s = Some (r, arg', s')" "outcome L k r s s'" by blast
  have e: "\<forall>e. 0 \<le> nl_syserr2nlerr L e" using L by (simp add: kernel_ok_def)
  from msg_prepare_ok [of L cmd interface s] obtain mo s1 where p:
    "nl80211_msg_prepare L cmd interface s = Some (mo, s1)"
    "case mo of None \<Rightarrow> balanced s s1
     | Some m \<Rightarrow> same_sockets s s1 \<and> m \<notin> live_msgs s \<and> live_msgs s1 = insert m (live_msgs s) \<and> nl_cbs s1 = nl_cbs s"
    by blast
  have "\<exists>ms. arg' = fold f ms arg \<and> ((ms = [] \<and> \<not> r \<and> \<not> unrefused L) \<or> answer_to L k ms r)"
  proof (cases mo)
    case None
    with unrefused_prepare [OF _ p(1)] have "\<not> unrefused L" by blast
    with None q(1) p(1) show ?thesis by (intro exI [of _ "[]"]) (simp add: nl_query_def)
  next
    case (Some m)
    with q(1) p(1) obtain s2 where d: "(if dump then set_dump m s1 else Some s1) = Some s2"
      by (auto simp: nl_query_def bind_conv)
    have ss: "same_sockets s s2"
      using d p(2) Some by (auto simp: set_dump_def bind_conv set_msg_def same_sockets_def split: if_splits)
    have "m \<in> live_msgs s2"
      using d p(2) Some live_set_msg [of m s1] by (auto simp: set_dump_def bind_conv split: if_splits)
    from put_attrs_ok [OF this, of L attrs] obtain ok s3 where a: "put_attrs L m attrs s2 = Some (ok, s3)"
      "same_sockets s2 s3" by blast
    have s3: "same_sockets s s3" using ss a(2) same_sockets_trans by blast
    have k3: "live_socket (nl_sock s3) s3 = Some k"
      using k live_socket_cong [OF s3] s3 by (simp add: same_sockets_def)
    show ?thesis
    proof (cases ok)
      case True
      with q(1) p(1) Some d a(1) have "nl80211_send_recv L (nl_sock s3) m (Some cb) arg s3 = Some (r, arg', s')"
        by (simp add: nl_query_def)
      from send_recv_fold [OF this cb i e k3] show ?thesis .
    next
      case False
      with unrefused_put [OF _ a(1)] q(1) p(1) Some d a(1) show ?thesis
        by (intro exI [of _ "[]"]) (auto simp: nl_query_def bind_conv)
    qed
  qed
  with q show ?thesis by blast
qed

subsection \<open>Arrays filled by a callback\<close>

text \<open>
  The effect of one message on the array and the counter, and of a sequence of messages: the
  entries of the first \<open>maxlen\<close> messages that have one are entered in order, and the rest of
  the array is left alone.
\<close>

definition store_entry :: "('m \<Rightarrow> 'x option) \<Rightarrow> ('x \<Rightarrow> 'e \<Rightarrow> 'e) \<Rightarrow> nat \<Rightarrow> 'm \<Rightarrow> 'e list \<times> nat \<Rightarrow> 'e list \<times> nat" where
  "store_entry entry upd maxlen msg = (\<lambda>(es, i).
     case entry msg of
       None \<Rightarrow> (es, i)
     | Some x \<Rightarrow> if i < maxlen then (es[i := upd x (es ! i)], i + 1) else (es, i))"

definition filled :: "('x \<Rightarrow> 'e \<Rightarrow> 'e) \<Rightarrow> 'x list \<Rightarrow> 'e list \<Rightarrow> 'e list" where
  "filled upd xs es = map2 upd xs es @ drop (length xs) es"

lemma filled_length [simp]: "length xs \<le> length es \<Longrightarrow> length (filled upd xs es) = length es"
  by (simp add: filled_def)

lemma filled_snoc:
  assumes "length xs < length es"
  shows "filled upd (xs @ [x]) es = (filled upd xs es)[length xs := upd x (filled upd xs es ! length xs)]"
proof -
  let ?n = "length xs"
  have e: "es = take ?n es @ es ! ?n # drop (Suc ?n) es" using assms by (simp add: Cons_nth_drop_Suc)
  have z: "zip (xs @ [x]) es = zip xs (take ?n es) @ [(x, es ! ?n)]"
    using assms by (subst e) (simp add: zip_append min_def)
  have "zip xs es = zip xs (take ?n es)" using assms by (subst e) (simp add: zip_append2 min_def)
  with z assms show ?thesis
    by (simp add: filled_def list_update_append nth_append min_def Cons_nth_drop_Suc [symmetric])
qed

lemma store_entry_eq:
  "store_entry entry upd maxlen msg (es, i) =
    (case entry msg of
       None \<Rightarrow> (es, i)
     | Some x \<Rightarrow> if i < maxlen then (es[i := upd x (es ! i)], i + 1) else (es, i))"
  by (simp add: store_entry_def)

lemma fold_store:
  assumes len: "maxlen \<le> length es"
  shows "fold (store_entry entry upd maxlen) ms (es, 0) =
    (let xs = take maxlen (List.map_filter entry ms) in (filled upd xs es, length xs))"
proof (induction ms rule: rev_induct)
  case Nil
  then show ?case by (simp add: filled_def map_filter_simps)
next
  case (snoc msg ms)
  define ys where "ys = List.map_filter entry ms"
  have f: "List.map_filter entry (ms @ [msg]) = ys @ (case entry msg of None \<Rightarrow> [] | Some x \<Rightarrow> [x])"
    by (simp add: List.map_filter_def ys_def split: option.split)
  from snoc have s: "fold (store_entry entry upd maxlen) ms (es, 0) = (filled upd (take maxlen ys) es, length (take maxlen ys))"
    by (simp add: ys_def Let_def)
  show ?case
  proof (cases "entry msg")
    case None
    with s f show ?thesis by (simp add: store_entry_eq)
  next
    case (Some x)
    show ?thesis
    proof (cases "length ys < maxlen")
      case True
      with len have "length ys < length es" by simp
      with True s f Some show ?thesis by (simp add: store_entry_eq filled_snoc min_def)
    next
      case False
      with s f Some show ?thesis by (simp add: store_entry_eq)
    qed
  qed
qed

text \<open>
  The contract of such a callback: for a message that is \<open>ok\<close>, and an array that is long enough,
  it stores the entry and goes on.
\<close>

locale dump_array =
  fixes cb :: "nat \<Rightarrow> 'm \<Rightarrow> 'e list \<times> nat \<Rightarrow> (nl_action \<times> 'e list \<times> nat) option"
    and entry :: "'m \<Rightarrow> 'x option"
    and upd :: "'x \<Rightarrow> 'e \<Rightarrow> 'e"
    and ok :: "'m \<Rightarrow> bool"
  assumes cb_store: "ok msg \<Longrightarrow> maxlen \<le> length es \<Longrightarrow>
    cb maxlen msg (es, i) = Some (NL_SKIP, store_entry entry upd maxlen msg (es, i))"
begin

lemma stepping_store:
  assumes "\<forall>msg. ok msg"
  shows "stepping (\<lambda>(es, i). maxlen \<le> length es) (store_entry entry upd maxlen) (cb maxlen)"
  using assms by (auto simp: stepping_def cb_store store_entry_eq split: option.split)

lemma dump_filled:
  assumes k: "live_socket (nl_sock s) s = Some k" and L: "kernel_ok L k" and ok: "\<forall>msg. ok msg" and len: "maxlen \<le> length es"
  shows "\<exists>r ms s' xs. nl_query L cmd interface dump attrs (cb maxlen) (es, 0) s = Some (r, (filled upd xs es, length xs), s') \<and>
    outcome L k r s s' \<and> xs = take maxlen (List.map_filter entry ms) \<and> ((ms = [] \<and> \<not> r \<and> \<not> unrefused L) \<or> answer_to L k ms r)"
proof -
  from query_fold [OF k L stepping_store [OF ok], of maxlen "(es, 0)" cmd interface dump attrs] len
  obtain r ms s' where q: "nl_query L cmd interface dump attrs (cb maxlen) (es, 0) s =
      Some (r, fold (store_entry entry upd maxlen) ms (es, 0), s')"
    "outcome L k r s s'" "(ms = [] \<and> \<not> r \<and> \<not> unrefused L) \<or> answer_to L k ms r" by auto
  with fold_store [OF len, of entry upd ms] show ?thesis by (auto simp: Let_def)
qed

end

subsection \<open>Stations\<close>

text \<open>
  A message with a station has an address of six bytes and attributes of the sizes that their
  policies state.
\<close>

definition station_entry :: "('m, 'w) libnl \<Rightarrow> nl80211_abi \<Rightarrow> 'm \<Rightarrow> (bytes \<times> (sta_attr \<rightharpoonup> bytes)) option" where
  "station_entry L A msg =
    (case genl_attrs L msg NL80211_ATTR_STA_INFO of
       None \<Rightarrow> None
     | Some info \<Rightarrow> map_option (Pair (the (genl_attrs L msg NL80211_ATTR_MAC))) (sta_attrs A info))"

definition station_ok :: "('m, 'w) libnl \<Rightarrow> nl80211_abi \<Rightarrow> 'm \<Rightarrow> bool" where
  "station_ok L A msg \<longleftrightarrow> (\<forall>mac si. station_entry L A msg = Some (mac, si) \<longrightarrow>
     genl_attrs L msg NL80211_ATTR_MAC = Some mac \<and> 6 \<le> length mac \<and>
     (\<forall>v. si NL80211_STA_INFO_INACTIVE_TIME = Some v \<longrightarrow> 4 \<le> length v) \<and>
     (\<forall>v. si NL80211_STA_INFO_SIGNAL = Some v \<longrightarrow> v \<noteq> []) \<and>
     (\<forall>v. si NL80211_STA_INFO_SIGNAL_AVG = Some v \<longrightarrow> v \<noteq> []))"

text \<open>What an entry becomes: attributes that are missing leave the old value of a field.\<close>

definition station_upd :: "bytes \<times> (sta_attr \<rightharpoonup> bytes) \<Rightarrow> sta_info \<Rightarrow> sta_info" where
  "station_upd x e = (case x of (mac, si) \<Rightarrow>
     \<lparr>si_mac = take 6 mac,
      si_rssi = (case si NL80211_STA_INFO_SIGNAL of None \<Rightarrow> si_rssi e | Some v \<Rightarrow> sint (hd v)),
      si_rssi_avg = (case si NL80211_STA_INFO_SIGNAL_AVG of None \<Rightarrow> si_rssi_avg e | Some v \<Rightarrow> sint (hd v)),
      si_last = (case si NL80211_STA_INFO_INACTIVE_TIME of None \<Rightarrow> si_last e | Some v \<Rightarrow> the (rd32 v 0))\<rparr>)"

lemma with_attr_eq:
  assumes "\<And>v. a = Some v \<Longrightarrow> get v 0 = Some (val v)"
  shows "with_attr get a upd e = Some (case a of None \<Rightarrow> e | Some v \<Rightarrow> upd (val v) e)"
  using assms by (cases a) (simp_all add: with_attr_def)

lemma station_cb_store:
  assumes ok: "station_ok L A msg" and len: "maxlen \<le> length es"
  shows "nl80211_get_station_cb L A maxlen msg (es, i) =
    Some (NL_SKIP, store_entry (station_entry L A) station_upd maxlen msg (es, i))"
proof (cases "station_entry L A msg")
  case None
  then show ?thesis
    by (auto simp: nl80211_get_station_cb_def store_entry_eq station_entry_def split: option.splits)
next
  case (Some x)
  obtain mac si where x: "x = (mac, si)" by (cases x)
  with Some obtain info where info: "genl_attrs L msg NL80211_ATTR_STA_INFO = Some info" "sta_attrs A info = Some si"
    by (auto simp: station_entry_def split: option.splits)
  from ok Some x have v: "genl_attrs L msg NL80211_ATTR_MAC = Some mac" "6 \<le> length mac"
    "\<And>v. si NL80211_STA_INFO_INACTIVE_TIME = Some v \<Longrightarrow> 4 \<le> length v"
    "\<And>v. si NL80211_STA_INFO_SIGNAL = Some v \<Longrightarrow> v \<noteq> []" "\<And>v. si NL80211_STA_INFO_SIGNAL_AVG = Some v \<Longrightarrow> v \<noteq> []"
    by (auto simp: station_ok_def)
  have r32: "rd32 v 0 = Some (the (rd32 v 0))" if "si NL80211_STA_INFO_INACTIVE_TIME = Some v" for v
    using rd32_ex [of 0 v] v(3) [OF that] by auto
  have r8: "rd v 0 = Some (hd v)" if "v \<noteq> []" for v :: bytes using that by (cases v) simp_all
  note w = with_attr_eq [where get = rd32, OF r32] with_attr_eq [where get = rd, OF r8 [OF v(4)]]
    with_attr_eq [where get = rd, OF r8 [OF v(5)]]
  show ?thesis
  proof (cases "i < maxlen")
    case True
    with len have e: "rd es i = Some (es ! i)" by (simp add: rd_Some)
    have "(case si NL80211_STA_INFO_SIGNAL_AVG of None \<Rightarrow> e3 | Some v \<Rightarrow> e3\<lparr>si_rssi_avg := sint (hd v)\<rparr>) = station_upd x e"
      if "e3 = (case si NL80211_STA_INFO_SIGNAL of None \<Rightarrow> e2 | Some v \<Rightarrow> e2\<lparr>si_rssi := sint (hd v)\<rparr>)"
        "e2 = (case si NL80211_STA_INFO_INACTIVE_TIME of None \<Rightarrow> e1 | Some v \<Rightarrow> e1\<lparr>si_last := the (rd32 v 0)\<rparr>)"
        "e1 = e\<lparr>si_mac := take 6 mac\<rparr>" for e e1 e2 e3
      using that by (cases e) (simp add: station_upd_def x split: option.split)
    then show ?thesis using True info v(1,2) e Some x
      by (simp add: nl80211_get_station_cb_def store_entry_eq w rd_bytes_def Let_def)
  next
    case False
    with info Some x show ?thesis by (simp add: nl80211_get_station_cb_def store_entry_eq)
  qed
qed

interpretation sta: dump_array "nl80211_get_station_cb L A" "station_entry L A" station_upd "station_ok L A" for L A
  by unfold_locales (rule station_cb_store)

text \<open>C15: \<open>ifctrl_iwget_stations\<close> on a connected socket, with a
  kernel that answers and stations that carry an address of six bytes, writes exactly the first
  \<open>maxlen\<close> stations of the answer to the front of the array, in their order, and nothing behind
  them; a field whose attribute is missing keeps its old value.  The result is the number of these stations when the request
  succeeded, and 0 when it failed: either it was not sent, since libnl, the memory or the
  interface name refused, and the array is unchanged, or the kernel answered, and
  success is that the first call which delivers an acknowledgement, an end of the messages or an error leaves no
  negative code.  So stations may have been stored although the result is 0, when an error followed them.
  No message, callback set or socket is left behind except as for a command.\<close>

theorem stations_spec:
  assumes k: "live_socket (nl_sock s) s = Some k" and L: "kernel_ok L k" and ok: "\<forall>msg. station_ok L A msg"
    and len: "maxlen \<le> length stas"
  shows "\<exists>ms xs b s'. xs = take maxlen (List.map_filter (station_entry L A) ms) \<and>
    nl_iwget_stations L A name stas maxlen s =
      Some (if b then int (length xs) else 0, filled station_upd xs stas, s') \<and>
    ((ms = [] \<and> \<not> b \<and> \<not> unrefused L) \<or> answer_to L k ms b) \<and> outcome L k b s s'"
proof -
  from sta.dump_filled [OF k L ok len, of NL80211_CMD_GET_STATION "Some name" True "[]"]
  obtain b ms s' xs where "nl_query L NL80211_CMD_GET_STATION (Some name) True [] (nl80211_get_station_cb L A maxlen) (stas, 0) s =
      Some (b, (filled station_upd xs stas, length xs), s')" "outcome L k b s s'"
    "xs = take maxlen (List.map_filter (station_entry L A) ms)" "(ms = [] \<and> \<not> b \<and> \<not> unrefused L) \<or> answer_to L k ms b" by blast
  then show ?thesis
    by (intro exI [of _ ms] exI [of _ xs] exI [of _ b] exI [of _ s']) (simp add: nl_iwget_stations_def)
qed

text \<open>A kernel that sends two stations and then an acknowledgement, and an array of two of which one may be used.\<close>

definition station_libnl :: "(unit, nat) libnl" where
  "station_libnl = some_libnl\<lparr>genl_attrs := \<lambda>msg. [NL80211_ATTR_STA_INFO \<mapsto> [1], NL80211_ATTR_MAC \<mapsto> [2, 0, 0, 0, 0, 1]]\<rparr>"

definition station_abi :: nl80211_abi where
  "station_abi = some_abi\<lparr>sta_attrs := \<lambda>v. Some [NL80211_STA_INFO_SIGNAL \<mapsto> [0xC4]]\<rparr>"

lemma station_libnl_ok: "kernel_ok station_libnl k" "station_ok station_libnl station_abi msg"
proof -
  have "nl_batch station_libnl k w n = nl_batch some_libnl k w n" for w n
    by (induction n arbitrary: w) (simp_all add: station_libnl_def)
  then show "kernel_ok station_libnl k" using some_kernel_ok [of k] by (simp add: kernel_ok_def station_libnl_def)
  show "station_ok station_libnl station_abi msg"
    by (simp add: station_ok_def station_entry_def station_libnl_def station_abi_def)
qed

text \<open>For a library with the answers of \<open>some_libnl\<close>, the call with the acknowledgement is the third one.\<close>

lemma example_answer:
  fixes L :: "(unit, nat) libnl"
  assumes "nl_recvmsgs L = nl_recvmsgs some_libnl" "nl_send_auto_complete L = nl_send_auto_complete some_libnl"
  shows "answer_to L k ms b \<longleftrightarrow> ms = [(), ()] \<and> b"
proof -
  have r: "nl_recvmsgs L k w = (if w < 2 then [NL_valid ()] else [NL_ack], w + 1)" for w
    by (simp add: assms(1) some_libnl_def)
  have b: "nl_batch L k w n = (if w + n < 2 then [NL_valid ()] else [NL_ack])" for w n
    by (induction n arbitrary: w) (auto simp: r)
  have n: "first_answer L k 0 n \<longleftrightarrow> n = 2" for n
  proof
    assume "first_answer L k 0 n"
    then have "answers (nl_batch L k 0 n)" "\<forall>i<n. \<not> answers (nl_batch L k 0 i)" by (simp_all add: first_answer_def)
    then have "\<not> n < 2" "\<not> 2 < n" by (auto simp: b split: if_splits)
    then show "n = 2" by simp
  qed (auto simp: first_answer_def b)
  have "received L k 0 2 = [(), ()]" by (simp add: numeral_2_eq_2 r)
  moreover have "nl_send_auto_complete L k x w = (1, 0)" for x w by (simp add: assms(2) some_libnl_def)
  ultimately show ?thesis by (auto simp: answer_to_def n b)
qed

lemma station_answer: "answer_to station_libnl k ms b \<longleftrightarrow> ms = [(), ()] \<and> b" "unrefused station_libnl"
  by (rule example_answer) (simp_all add: station_libnl_def some_libnl_def unrefused_def)

lemma station_entries: "List.map_filter (station_entry station_libnl station_abi) [(), ()] =
  replicate 2 ([2, 0, 0, 0, 0, 1], [NL80211_STA_INFO_SIGNAL \<mapsto> [0xC4]])"
  by (simp add: map_filter_simps station_entry_def station_libnl_def station_abi_def numeral_2_eq_2)

lemma stations_spec_witness:
  "\<exists>s'. nl_iwget_stations station_libnl station_abi ''wlan0''
      (replicate 2 \<lparr>si_mac = [], si_rssi = 0, si_rssi_avg = 7, si_last = 0\<rparr>) 1 some_state =
    Some (1, [\<lparr>si_mac = [2, 0, 0, 0, 0, 1], si_rssi = -60, si_rssi_avg = 7, si_last = 0\<rparr>,
      \<lparr>si_mac = [], si_rssi = 0, si_rssi_avg = 7, si_last = 0\<rparr>], s')"
proof -
  let ?z = "\<lparr>si_mac = [], si_rssi = 0, si_rssi_avg = 7, si_last = 0\<rparr>"
  have k: "live_socket (nl_sock some_state) some_state = Some 0"
    using some_state_live(2) by (simp add: some_state_def)
  from stations_spec [OF k station_libnl_ok(1), where A = station_abi and maxlen = 1 and stas = "replicate 2 ?z"
      and name = "''wlan0''"] station_libnl_ok(2)
  obtain ms xs b s' where q: "xs = take 1 (List.map_filter (station_entry station_libnl station_abi) ms)"
    "nl_iwget_stations station_libnl station_abi ''wlan0'' (replicate 2 ?z) 1 some_state =
       Some (if b then int (length xs) else 0, filled station_upd xs (replicate 2 ?z), s')"
    "ms = [(), ()]" b by (auto simp: station_answer)
  with station_entries have "xs = [([2, 0, 0, 0, 0, 1], [NL80211_STA_INFO_SIGNAL \<mapsto> [0xC4]])]"
    by (simp add: numeral_2_eq_2)
  with q(2) \<open>b\<close> show ?thesis by (simp add: filled_def station_upd_def numeral_2_eq_2)
qed

subsection \<open>Surveys\<close>

definition survey_of :: "('m, 'w) libnl \<Rightarrow> nl80211_abi \<Rightarrow> 'm \<Rightarrow> (survey_attr \<rightharpoonup> bytes) option" where
  "survey_of L A msg = (case genl_attrs L msg NL80211_ATTR_SURVEY_INFO of None \<Rightarrow> None | Some info \<Rightarrow> survey_attrs A info)"

definition survey_ok :: "('m, 'w) libnl \<Rightarrow> nl80211_abi \<Rightarrow> 'm \<Rightarrow> bool" where
  "survey_ok L A msg \<longleftrightarrow> (\<forall>si. survey_of L A msg = Some si \<longrightarrow>
     (\<forall>v. si NL80211_SURVEY_INFO_FREQUENCY = Some v \<longrightarrow> 4 \<le> length v) \<and>
     (\<forall>v. si NL80211_SURVEY_INFO_NOISE = Some v \<longrightarrow> v \<noteq> []) \<and>
     (\<forall>a \<in> {NL80211_SURVEY_INFO_CHANNEL_TIME, NL80211_SURVEY_INFO_CHANNEL_TIME_BUSY,
        NL80211_SURVEY_INFO_CHANNEL_TIME_EXT_BUSY, NL80211_SURVEY_INFO_CHANNEL_TIME_RX,
        NL80211_SURVEY_INFO_CHANNEL_TIME_TX}. \<forall>v. si a = Some v \<longrightarrow> 8 \<le> length v))"

definition survey_upd :: "(survey_attr \<rightharpoonup> bytes) \<Rightarrow> survey_info \<Rightarrow> survey_info" where
  "survey_upd si e =
    (let u64_or = (\<lambda>a old. case si a of None \<Rightarrow> old | Some v \<Rightarrow> the (rd64 v 0)) in
     \<lparr>sv_freq = (case si NL80211_SURVEY_INFO_FREQUENCY of None \<Rightarrow> sv_freq e | Some v \<Rightarrow> the (rd32 v 0)),
      sv_in_use = (si NL80211_SURVEY_INFO_IN_USE \<noteq> None),
      sv_noise = (case si NL80211_SURVEY_INFO_NOISE of None \<Rightarrow> sv_noise e | Some v \<Rightarrow> sint (hd v)),
      sv_time_active = u64_or NL80211_SURVEY_INFO_CHANNEL_TIME (sv_time_active e),
      sv_time_busy = u64_or NL80211_SURVEY_INFO_CHANNEL_TIME_BUSY (sv_time_busy e),
      sv_time_busy_ext = u64_or NL80211_SURVEY_INFO_CHANNEL_TIME_EXT_BUSY (sv_time_busy_ext e),
      sv_time_rx = u64_or NL80211_SURVEY_INFO_CHANNEL_TIME_RX (sv_time_rx e),
      sv_time_tx = u64_or NL80211_SURVEY_INFO_CHANNEL_TIME_TX (sv_time_tx e)\<rparr>)"

lemma survey_entry_upd:
  assumes ok: "survey_ok L A msg" and si: "survey_of L A msg = Some si"
  shows "survey_entry si e = Some (survey_upd si e)"
proof -
  have l: "\<And>v. si NL80211_SURVEY_INFO_FREQUENCY = Some v \<Longrightarrow> 4 \<le> length v"
    "\<And>v. si NL80211_SURVEY_INFO_NOISE = Some v \<Longrightarrow> v \<noteq> []"
    "\<And>v. si NL80211_SURVEY_INFO_CHANNEL_TIME = Some v \<Longrightarrow> 8 \<le> length v"
    "\<And>v. si NL80211_SURVEY_INFO_CHANNEL_TIME_BUSY = Some v \<Longrightarrow> 8 \<le> length v"
    "\<And>v. si NL80211_SURVEY_INFO_CHANNEL_TIME_EXT_BUSY = Some v \<Longrightarrow> 8 \<le> length v"
    "\<And>v. si NL80211_SURVEY_INFO_CHANNEL_TIME_RX = Some v \<Longrightarrow> 8 \<le> length v"
    "\<And>v. si NL80211_SURVEY_INFO_CHANNEL_TIME_TX = Some v \<Longrightarrow> 8 \<le> length v"
    using ok si unfolding survey_ok_def by blast+
  have r32: "4 \<le> length v \<Longrightarrow> rd32 v 0 = Some (the (rd32 v 0))"
    and r64: "8 \<le> length v \<Longrightarrow> rd64 v 0 = Some (the (rd64 v 0))"
    and r8: "v \<noteq> [] \<Longrightarrow> rd v 0 = Some (hd v)" for v :: bytes
    by (simp_all add: rd32_def rd64_def rd_bytes_def rd_def hd_conv_nth)
  note w = with_attr_eq [where get = rd32, OF r32 [OF l(1)]] with_attr_eq [where get = rd, OF r8 [OF l(2)]]
    with_attr_eq [where get = rd64, OF r64 [OF l(3)]] with_attr_eq [where get = rd64, OF r64 [OF l(4)]]
    with_attr_eq [where get = rd64, OF r64 [OF l(5)]] with_attr_eq [where get = rd64, OF r64 [OF l(6)]]
    with_attr_eq [where get = rd64, OF r64 [OF l(7)]]
  show ?thesis
    by (cases e) (simp add: survey_entry_def w survey_upd_def Let_def split: option.split)
qed

lemma survey_cb_store:
  assumes ok: "survey_ok L A msg" and len: "maxlen \<le> length es"
  shows "nl80211_get_survey_cb L A maxlen msg (es, i) =
    Some (NL_SKIP, store_entry (survey_of L A) survey_upd maxlen msg (es, i))"
proof (cases "survey_of L A msg")
  case None
  then show ?thesis by (auto simp: nl80211_get_survey_cb_def store_entry_eq survey_of_def split: option.splits)
next
  case (Some si)
  then obtain info where info: "genl_attrs L msg NL80211_ATTR_SURVEY_INFO = Some info" "survey_attrs A info = Some si"
    by (auto simp: survey_of_def split: option.splits)
  show ?thesis
  proof (cases "i < maxlen")
    case True
    with len have "rd es i = Some (es ! i)" by (simp add: rd_Some)
    with True info Some survey_entry_upd [OF ok Some, of "es ! i"] show ?thesis
      by (simp add: nl80211_get_survey_cb_def store_entry_eq)
  next
    case False
    with info Some show ?thesis by (simp add: nl80211_get_survey_cb_def store_entry_eq)
  qed
qed

interpretation surv: dump_array "nl80211_get_survey_cb L A" "survey_of L A" survey_upd "survey_ok L A" for L A
  by unfold_locales (rule survey_cb_store)

lemma survey_spec:
  assumes k: "live_socket (nl_sock s) s = Some k" and L: "kernel_ok L k" and ok: "\<forall>msg. survey_ok L A msg"
    and len: "maxlen \<le> length infs"
  shows "\<exists>ms xs b s'. xs = take maxlen (List.map_filter (survey_of L A) ms) \<and>
    nl_iwget_survey L A name infs maxlen s = Some (if b then int (length xs) else 0, filled survey_upd xs infs, s') \<and>
    ((ms = [] \<and> \<not> b \<and> \<not> unrefused L) \<or> answer_to L k ms b) \<and> outcome L k b s s'"
proof -
  from surv.dump_filled [OF k L ok len, of NL80211_CMD_GET_SURVEY "Some name" True "[]"]
  obtain b ms s' xs where "nl_query L NL80211_CMD_GET_SURVEY (Some name) True [] (nl80211_get_survey_cb L A maxlen) (infs, 0) s =
      Some (b, (filled survey_upd xs infs, length xs), s')" "outcome L k b s s'"
    "xs = take maxlen (List.map_filter (survey_of L A) ms)" "(ms = [] \<and> \<not> b \<and> \<not> unrefused L) \<or> answer_to L k ms b" by blast
  then show ?thesis
    by (intro exI [of _ ms] exI [of _ xs] exI [of _ b] exI [of _ s']) (simp add: nl_iwget_survey_def)
qed

end
