(* ===== verification/Freqlist_Facts.thy ===== *)
theory Freqlist_Facts
  imports Dump_Facts Channel_Scan
begin

text \<open>
  The channel list that \<open>ifctrl_iwget_freqlist\<close> builds from the answer of the kernel, and the
  initialisation of the channels with it.
\<close>

subsection \<open>The channel list\<close>

text \<open>The frequencies of a band that are not disabled, and the entries made for them.\<close>

definition enabled_freqs :: "nl80211_abi \<Rightarrow> bytes list \<Rightarrow> int list" where
  "enabled_freqs A xs = concat (map (\<lambda>x.
     case (freq_attrs A x NL80211_FREQUENCY_ATTR_FREQ, freq_attrs A x NL80211_FREQUENCY_ATTR_DISABLED) of
       (Some v, None) \<Rightarrow> [i32 (the (rd32 v 0))] | _ \<Rightarrow> []) xs)"

definition freqs_ok :: "nl80211_abi \<Rightarrow> bytes list \<Rightarrow> bool" where
  "freqs_ok A xs \<longleftrightarrow> (\<forall>x \<in> set xs. \<forall>v. freq_attrs A x NL80211_FREQUENCY_ATTR_FREQ = Some v \<longrightarrow> 4 \<le> length v)"

definition band_freqs :: "('m, 'w) libnl \<Rightarrow> nl80211_abi \<Rightarrow> bytes \<Rightarrow> int list" where
  "band_freqs L A x = enabled_freqs A (nla_nested L (the (band_attrs A x NL80211_BAND_ATTR_FREQS)))"

text \<open>A band as the kernel describes it: a list of frequencies, and attributes of the right sizes.\<close>

definition band_ok :: "('m, 'w) libnl \<Rightarrow> nl80211_abi \<Rightarrow> bytes \<Rightarrow> bool" where
  "band_ok L A x \<longleftrightarrow> (\<exists>v. band_attrs A x NL80211_BAND_ATTR_FREQS = Some v \<and> freqs_ok A (nla_nested L v)) \<and>
     (\<forall>v. band_attrs A x NL80211_BAND_ATTR_HT_CAPA = Some v \<longrightarrow> 2 \<le> length v) \<and>
     (\<forall>v. band_attrs A x NL80211_BAND_ATTR_VHT_CAPA = Some v \<longrightarrow> 4 \<le> length v)"

definition keys :: "uwifi_channels \<Rightarrow> (int \<times> u32) list" where
  "keys cs = map (\<lambda>e. (cf_chan e, cf_freq e)) (used cs)"

definition fkey :: "int \<Rightarrow> int \<times> u32" where
  "fkey f = (wlan_freq2chan f, word_of_int f)"

lemma keys_length: "channels_wf cs \<Longrightarrow> num_channels cs = int (length (keys cs))"
  by (simp add: keys_def used_length channels_wf_def)

text \<open>
  Both loops count the entries themselves, from 0, while \<open>uwifi_channel_list_add\<close> appends behind
  the entries that the table has already.
\<close>

lemma list_add_key:
  assumes wf: "channels_wf cs"
  obtains b c where "uwifi_channel_list_add cs f = Some (b, c)" "channels_wf c" "keys c = take 64 (keys cs @ [fkey f])"
    "bands c = bands cs" "num_bands c = num_bands cs"
proof (cases "num_channels cs < 64")
  case True
  from list_add_appends [OF wf True, of f] obtain c e where
    c: "uwifi_channel_list_add cs f = Some (True, c)" "channels_wf c" "used c = used cs @ [e]"
      "cf_freq e = word_of_int f" "cf_chan e = wlan_freq2chan f" "bands c = bands cs" "num_bands c = num_bands cs"
    by blast
  have "keys c = keys cs @ [fkey f]" using c(3-5) by (simp add: keys_def fkey_def)
  moreover have "length (keys cs) < 64" using True keys_length [OF wf] by simp
  ultimately show thesis using c by (intro that [of True c]) simp_all
next
  case False
  then have "length (keys cs) = 64" using keys_length [OF wf] wf by (simp add: channels_wf_def MAX_CHANNELS_def)
  with False wf show thesis by (intro that [of False cs]) (simp_all add: uwifi_channel_list_add_def MAX_CHANNELS_def)
qed

lemma freq_loop_ok:
  "channels_wf cs \<Longrightarrow> freqs_ok A xs \<Longrightarrow> i \<le> length (keys cs) \<Longrightarrow> i < 64 \<Longrightarrow>
   \<exists>cs'. freq_loop A xs (int i) cs =
       Some (64 \<le> i + length (enabled_freqs A xs), int (min 64 (i + length (enabled_freqs A xs))), cs') \<and>
     channels_wf cs' \<and> keys cs' = take 64 (keys cs @ map fkey (enabled_freqs A xs)) \<and>
     bands cs' = bands cs \<and> num_bands cs' = num_bands cs"
proof (induction xs arbitrary: cs i)
  case Nil
  have "length (keys cs) \<le> 64" using keys_length [OF Nil(1)] Nil(1) by (simp add: channels_wf_def MAX_CHANNELS_def)
  moreover have "enabled_freqs A [] = []" by (simp add: enabled_freqs_def)
  ultimately show ?case using Nil(1,4) by (intro exI [of _ cs]) simp
next
  case (Cons x xs)
  have oks: "freqs_ok A xs" using Cons.prems(2) by (simp add: freqs_ok_def)
  show ?case
  proof (cases "\<exists>v. freq_attrs A x NL80211_FREQUENCY_ATTR_FREQ = Some v \<and>
      freq_attrs A x NL80211_FREQUENCY_ATTR_DISABLED = None")
    case False
    then have "enabled_freqs A (x # xs) = enabled_freqs A xs"
      "freq_loop A (x # xs) j cs = freq_loop A xs j cs" for j
      by (auto simp: enabled_freqs_def split: option.splits)
    with Cons.IH [OF Cons.prems(1) oks Cons.prems(3,4)] show ?thesis by simp
  next
    case True
    then obtain v where v: "freq_attrs A x NL80211_FREQUENCY_ATTR_FREQ = Some v"
      "freq_attrs A x NL80211_FREQUENCY_ATTR_DISABLED = None" by blast
    with Cons.prems(2) have "0 + 4 \<le> length v" by (auto simp: freqs_ok_def)
    then obtain f where f: "rd32 v 0 = Some f" using rd32_ex by blast
    have fs: "enabled_freqs A (x # xs) = i32 f # enabled_freqs A xs" using v f by (simp add: enabled_freqs_def)
    obtain b c where c: "uwifi_channel_list_add cs (i32 f) = Some (b, c)" "channels_wf c"
      "keys c = take 64 (keys cs @ [fkey (i32 f)])" "bands c = bands cs" "num_bands c = num_bands cs"
      by (rule list_add_key [OF Cons.prems(1)])
    have i: "Suc i \<le> length (keys c)" using c(3) Cons.prems(3,4) by simp
    have run: "freq_loop A (x # xs) (int i) cs =
        (if 64 \<le> Suc i then Some (True, int (Suc i), c) else freq_loop A xs (int (Suc i)) c)"
      using v f c(1) by (simp add: MAX_CHANNELS_def add.commute)
    have ks: "take 64 (keys c @ ys) = take 64 (keys cs @ fkey (i32 f) # ys)" for ys
      unfolding c(3) by (simp add: min_def take_Cons')
    show ?thesis
    proof (cases "64 \<le> Suc i")
      case True
      then have l: "Suc i = 64" using Cons.prems(4) by simp
      then have "63 \<le> length (keys cs)" using Cons.prems(3) by simp
      then have "keys c = take 64 (keys cs @ fkey (i32 f) # ys)" for ys
        unfolding c(3) by (simp add: take_Cons')
      with l c(2,4,5) show ?thesis unfolding run fs by simp
    next
      case False
      then have "Suc i < 64" by simp
      from Cons.IH [OF c(2) oks i this] obtain cs' where "freq_loop A xs (int (Suc i)) c =
          Some (64 \<le> Suc i + length (enabled_freqs A xs), int (min 64 (Suc i + length (enabled_freqs A xs))), cs')"
        "channels_wf cs'" "keys cs' = take 64 (keys c @ map fkey (enabled_freqs A xs))" "bands cs' = bands c"
        "num_bands cs' = num_bands c" by blast
      then show ?thesis unfolding run fs using False c(4,5) ks by simp
    qed
  qed
qed

lemma with_attr_ok: "(\<And>v. a = Some v \<Longrightarrow> \<exists>x. get v 0 = Some x) \<Longrightarrow> \<exists>s'. with_attr get a upd s = Some s'"
  by (cases a) (auto simp: with_attr_def)

lemma band_caps_ok:
  assumes ok: "band_ok L A x" and b: "b < length (bands cs)"
  shows "\<exists>bd. band_caps (band_attrs A x) b cs = Some (cs\<lparr>bands := (bands cs)[b := bd]\<rparr>)"
proof -
  have ht: "\<exists>bd'. band_ht (band_attrs A x) bd = Some bd'" for bd
  proof -
    obtain bd1 where "with_attr rd16 (band_attrs A x NL80211_BAND_ATTR_HT_CAPA) (\<lambda>cap bd. bd\<lparr>bd_max_chan_width :=
          if flag_set cap WLAN_IE_HT_CAPAB_INFO_CHAN_WIDTH_40 then CHAN_WIDTH_40 else CHAN_WIDTH_20\<rparr>) bd = Some bd1"
      using with_attr_ok [of "band_attrs A x NL80211_BAND_ATTR_HT_CAPA" rd16] ok rd16_ex [of 0] unfolding band_ok_def by fastforce
    then show ?thesis
      by (cases "band_attrs A x NL80211_BAND_ATTR_HT_MCS_SET")
        (auto simp: band_ht_def wlan_ht_streams_from_mcs_def rd_Some Let_def)
  qed
  have vht: "\<exists>bd'. band_vht (band_attrs A x) bd = Some bd'" for bd
  proof -
    obtain bd1 where "with_attr rd32 (band_attrs A x NL80211_BAND_ATTR_VHT_CAPA)
        (\<lambda>vht bd. bd\<lparr>bd_max_chan_width := wlan_chan_width_from_vht_capab vht\<rparr>) bd = Some bd1"
      using with_attr_ok [of "band_attrs A x NL80211_BAND_ATTR_VHT_CAPA" rd32] ok rd32_ex [of 0] unfolding band_ok_def by fastforce
    then show ?thesis
      by (cases "band_attrs A x NL80211_BAND_ATTR_VHT_MCS_SET")
        (auto simp: band_vht_def wlan_vht_streams_from_mcs_def rd_Some Let_def)
  qed
  obtain bd1 where 1: "band_ht (band_attrs A x) ((bands cs ! b)\<lparr>bd_max_chan_width := CHAN_WIDTH_20_NOHT\<rparr>) = Some bd1"
    using ht by blast
  obtain bd2 where "band_vht (band_attrs A x) bd1 = Some bd2" using vht by blast
  with 1 b show ?thesis by (auto simp: band_caps_def rd_Some)
qed

text \<open>One band: the state after its frequencies, and after it has been counted.\<close>

lemma band_step:
  assumes wf: "channels_wf cs" and ok: "band_ok L A x" and b: "b < 2" and i: "i \<le> length (keys cs)" "i < 64"
  obtains cs1 where "channels_wf cs1" "keys cs1 = take 64 (keys cs @ map fkey (band_freqs L A x))"
    "num_bands cs1 = num_bands cs" "length (bands cs1) = 2" "\<And>j. j \<noteq> b \<Longrightarrow> bands cs1 ! j = bands cs ! j"
    "band_loop L A (x # xs) b (int i) cs =
      (let n = i + length (band_freqs L A x) in
       if 64 \<le> n then Some (b, 64, cs1)
       else if b = 0 then band_loop L A xs 1 (int n) (set_band_channels b (int n) cs1)
       else Some (2, int n, set_band_channels b (int n) cs1))"
proof -
  have l: "length (bands cs) = 2" using wf by (simp add: channels_wf_def)
  from band_caps_ok [OF ok, of b cs] b l obtain bd where
    c: "band_caps (band_attrs A x) b cs = Some (cs\<lparr>bands := (bands cs)[b := bd]\<rparr>)" by auto
  define c0 where "c0 = cs\<lparr>bands := (bands cs)[b := bd]\<rparr>"
  have c0: "channels_wf c0" "keys c0 = keys cs" "num_bands c0 = num_bands cs"
    using wf by (simp_all add: c0_def channels_wf_def keys_def used_def)
  from ok obtain v where v: "band_attrs A x NL80211_BAND_ATTR_FREQS = Some v" "freqs_ok A (nla_nested L v)"
    by (auto simp: band_ok_def)
  have f: "band_freqs L A x = enabled_freqs A (nla_nested L v)" by (simp add: band_freqs_def v(1))
  from freq_loop_ok [OF c0(1) v(2), of i] i c0(2) f obtain cs1 where
    r: "freq_loop A (nla_nested L v) (int i) c0 =
       Some (64 \<le> i + length (band_freqs L A x), int (min 64 (i + length (band_freqs L A x))), cs1)" "channels_wf cs1"
     "keys cs1 = take 64 (keys cs @ map fkey (band_freqs L A x))" "bands cs1 = bands c0" "num_bands cs1 = num_bands c0"
    by auto
  have b2: "b = 0 \<or> b = 1" using b by auto
  show thesis
  proof (rule that [OF r(2,3)])
    show "num_bands cs1 = num_bands cs" "length (bands cs1) = 2" "\<And>j. j \<noteq> b \<Longrightarrow> bands cs1 ! j = bands cs ! j"
      using r(4,5) l by (simp_all add: c0_def)
    show "band_loop L A (x # xs) b (int i) cs =
      (let n = i + length (band_freqs L A x) in
       if 64 \<le> n then Some (b, 64, cs1)
       else if b = 0 then band_loop L A xs 1 (int n) (set_band_channels b (int n) cs1)
       else Some (2, int n, set_band_channels b (int n) cs1))"
      using b2 by (auto simp: c v(1) r(1) Let_def MAX_BANDS_def c0_def [symmetric] min_def)
  qed
qed

lemma set_band_channels_keeps [simp]:
  "keys (set_band_channels b i cs) = keys cs" "channels_wf (set_band_channels b i cs) = channels_wf cs"
  "num_bands (set_band_channels b i cs) = num_bands cs" "num_channels (set_band_channels b i cs) = num_channels cs"
  by (simp_all add: set_band_channels_def keys_def used_def channels_wf_def)

text \<open>The last assignments of the callback.\<close>

lemma list_end:
  assumes "channels_wf cs" "n \<le> length (keys cs)" "b \<le> 2"
  shows "keys (cs\<lparr>num_channels := int n, num_bands := int b\<rparr>) = take n (keys cs)"
    "channels_wf (cs\<lparr>num_channels := int n, num_bands := int b\<rparr>)"
proof -
  have "length (keys cs) = nat (num_channels cs)" "length (keys cs) \<le> 64"
    using keys_length [OF assms(1)] assms(1) by (simp_all add: channels_wf_def MAX_CHANNELS_def)
  with assms show "keys (cs\<lparr>num_channels := int n, num_bands := int b\<rparr>) = take n (keys cs)"
    "channels_wf (cs\<lparr>num_channels := int n, num_bands := int b\<rparr>)"
    by (simp_all add: keys_def used_def channels_wf_def MAX_CHANNELS_def MAX_BANDS_def take_map min_def)
qed

text \<open>
  The entries of a table \<open>ks\<close> after an answer with these frequencies: the number of entries is
  that of the frequencies, but entries that exist already are kept.  And the table that a list
  of frequencies per band leads to: if they fit, the number of bands and the number of channels
  of each band are right.
\<close>

definition refreshed :: "int list \<Rightarrow> (int \<times> u32) list \<Rightarrow> (int \<times> u32) list" where
  "refreshed fs ks = take (min 64 (length fs)) (ks @ map fkey fs)"

definition lists_bands :: "(int \<times> u32) list \<Rightarrow> int list list \<Rightarrow> uwifi_channels \<Rightarrow> bool" where
  "lists_bands ks fss cs \<longleftrightarrow> channels_wf cs \<and> keys cs = refreshed (concat fss) ks \<and>
     (if length (concat fss) < 64
      then num_bands cs = int (length fss) \<and> (\<forall>b < length fss. bd_num_channels (bands cs ! b) = int (length (fss ! b)))
      else num_bands cs = (if 64 \<le> length (hd fss) then 0 else 1))"

lemma lists_end:
  assumes c: "channels_wf c" "keys c = take 64 (ks @ map fkey (concat fss))" and n: "n = min 64 (length (concat fss))" "b \<le> 2"
    and ok: "if length (concat fss) < 64
      then b = length fss \<and> (\<forall>b < length fss. bd_num_channels (bands c ! b) = int (length (fss ! b)))
      else b = (if 64 \<le> length (hd fss) then 0 else 1)"
  shows "lists_bands ks fss (c\<lparr>num_channels := int n, num_bands := int b\<rparr>)"
proof -
  have "n \<le> length (keys c)" using c(2) n(1) by (simp add: min_def)
  from list_end [OF c(1) this n(2)] c(2) n(1) ok show ?thesis
    by (auto simp: lists_bands_def refreshed_def min_def split: if_splits)
qed

lemma band_loop_lists:
  assumes wf: "channels_wf cs" and ok: "\<forall>x \<in> set xs. band_ok L A x"
  defines "fss \<equiv> map (band_freqs L A) (take 2 xs)"
  shows "\<exists>b cs'. band_loop L A xs 0 0 cs = Some (b, int (min 64 (length (concat fss))), cs') \<and>
    lists_bands (keys cs) fss (cs'\<lparr>num_channels := int (min 64 (length (concat fss))), num_bands := int b\<rparr>)"
proof (cases xs)
  case Nil
  have "keys cs = take 64 (keys cs)" using keys_length [OF wf] wf by (simp add: channels_wf_def MAX_CHANNELS_def)
  then have "lists_bands (keys cs) [] (cs\<lparr>num_channels := int 0, num_bands := int 0\<rparr>)"
    by (intro lists_end [OF wf]) simp_all
  with Nil show ?thesis by (simp add: fss_def)
next
  case (Cons x ys)
  let ?f = "band_freqs L A"
  have okx: "band_ok L A x" using ok Cons by simp
  have z: "(0 :: nat) \<le> length (keys cs)" "(0 :: nat) < 64" "(0 :: nat) < 2" "(1 :: nat) < 2" by simp_all
  obtain c1 where r1: "channels_wf c1" "keys c1 = take 64 (keys cs @ map fkey (?f x))" "length (bands c1) = 2"
      "band_loop L A (x # ys) 0 (int 0) cs = (let n = 0 + length (?f x) in
        if 64 \<le> n then Some (0, 64, c1)
        else if 0 = (0 :: nat) then band_loop L A ys 1 (int n) (set_band_channels 0 (int n) c1)
        else Some (2, int n, set_band_channels 0 (int n) c1))"
    by (rule band_step [where b = 0 and xs = ys, OF wf okx z(3) z(1,2)]) (rule that; assumption)
  note c1 = r1(1-3)
  have c1_run: "band_loop L A xs 0 0 cs = (if 64 \<le> length (?f x) then Some (0, 64, c1)
        else band_loop L A ys 1 (int (length (?f x))) (set_band_channels 0 (int (length (?f x))) c1))"
    using r1(4) by (simp add: Cons Let_def del: band_loop.simps)
  show ?thesis
  proof (cases "64 \<le> length (?f x)")
    case True
    have "lists_bands (keys cs) fss (c1\<lparr>num_channels := int (min 64 (length (concat fss))), num_bands := int 0\<rparr>)"
    proof (rule lists_end [OF c1(1) _ refl])
      have "64 \<le> length (keys cs @ map fkey (?f x))" using True by simp
      then show "keys c1 = take 64 (keys cs @ map fkey (concat fss))"
        unfolding c1(2) by (simp add: fss_def Cons take_Cons')
    qed (use True Cons in \<open>simp_all add: fss_def\<close>)
    with c1_run True Cons show ?thesis by (intro exI [of _ 0] exI [of _ c1]) (simp add: fss_def)
  next
    case False
    let ?n = "length (?f x)" and ?c1 = "set_band_channels 0 (int (length (?f x))) c1"
    have k1: "?n \<le> length (keys ?c1)" "?n < 64" "channels_wf ?c1" using c1(1,2) False by simp_all
    have n0: "bd_num_channels (bands ?c1 ! 0) = int ?n" using c1(3) by (simp add: set_band_channels_def)
    show ?thesis
    proof (cases ys)
      case Nil
      have "lists_bands (keys cs) fss (?c1\<lparr>num_channels := int (min 64 (length (concat fss))), num_bands := int 1\<rparr>)"
        by (rule lists_end [OF k1(3) _ refl]) (use False n0 c1(2) Cons Nil in \<open>simp_all add: fss_def\<close>)
      with c1_run False Cons Nil show ?thesis by (intro exI [of _ 1] exI [of _ ?c1]) (simp add: fss_def)
    next
      case (Cons y zs)
      have fss: "fss = [?f x, ?f y]" using \<open>xs = x # ys\<close> Cons by (simp add: fss_def)
      from ok \<open>xs = x # ys\<close> Cons have oky: "band_ok L A y" by simp
      obtain c2 where c2: "channels_wf c2" "keys c2 = take 64 (keys ?c1 @ map fkey (?f y))" "length (bands c2) = 2"
          "\<And>j. j \<noteq> 1 \<Longrightarrow> bands c2 ! j = bands ?c1 ! j"
          "band_loop L A (y # zs) 1 (int ?n) ?c1 = (let n = ?n + length (?f y) in
            if 64 \<le> n then Some (1, 64, c2)
            else if 1 = (0 :: nat) then band_loop L A zs 1 (int n) (set_band_channels 1 (int n) c2)
            else Some (2, int n, set_band_channels 1 (int n) c2))"
        by (rule band_step [where b = 1 and xs = zs, OF k1(3) oky z(4) k1(1,2)]) (rule that; assumption)
      have c2_run: "band_loop L A ys 1 (int ?n) ?c1 =
            (if 64 \<le> ?n + length (?f y) then Some (1, 64, c2)
             else Some (2, int (?n + length (?f y)), set_band_channels 1 (int (?n + length (?f y))) c2))"
        using c2(5) by (simp add: Cons Let_def del: band_loop.simps)
      have b0: "bands c2 ! 0 = bands ?c1 ! 0" using c2(4) [of 0] by simp
      have kc2: "keys c2 = take 64 (keys cs @ map fkey (concat fss))"
        using c2(2) c1(2) by (simp add: fss min_def)
      show ?thesis
      proof (cases "64 \<le> ?n + length (?f y)")
        case True
        have "lists_bands (keys cs) fss (c2\<lparr>num_channels := int (min 64 (length (concat fss))), num_bands := int 1\<rparr>)"
          by (rule lists_end [OF c2(1) kc2 refl]) (use True False in \<open>simp_all add: fss\<close>)
        with c1_run False c2_run True show ?thesis by (intro exI [of _ 1] exI [of _ c2]) (simp add: fss)
      next
        case lt: False
        let ?c2 = "set_band_channels 1 (int (?n + length (?f y))) c2"
        have k2: "keys ?c2 = take 64 (keys cs @ map fkey (concat fss))" "channels_wf ?c2" using kc2 c2(1) by simp_all
        have "bd_num_channels (bands ?c2 ! 0) = int ?n" "bd_num_channels (bands ?c2 ! 1) = int (length (?f y))"
          using c2(3) b0 n0 by (simp_all add: set_band_channels_def)
        then have "lists_bands (keys cs) fss (?c2\<lparr>num_channels := int (min 64 (length (concat fss))), num_bands := int 2\<rparr>)"
          by (intro lists_end [OF k2(2,1) refl]) (use lt in \<open>auto simp: fss less_Suc_eq\<close>)
        with c1_run False c2_run lt show ?thesis by (intro exI [of _ 2] exI [of _ ?c2]) (simp add: fss)
      qed
    qed
  qed
qed

lemma freqlist_cb_lists:
  assumes wf: "channels_wf cs" and wb: "genl_attrs L msg NL80211_ATTR_WIPHY_BANDS = Some wb"
    and ok: "\<forall>x \<in> set (nla_nested L wb). band_ok L A x"
  shows "\<exists>cs'. nl80211_get_freqlist_cb L A msg cs = Some (NL_SKIP, cs') \<and>
    lists_bands (keys cs) (map (band_freqs L A) (take 2 (nla_nested L wb))) cs'"
  using band_loop_lists [OF wf ok] wb by (auto simp: nl80211_get_freqlist_cb_def)

text \<open>C13: From the answer of the kernel the callback of \<open>ifctrl_iwget_freqlist\<close>
  builds a well-formed table.  From an empty table it has the frequencies that are not
  disabled, of the first two bands, in order and with their channel numbers, as many as fit into
  the 64 places.  When they fit, the number of bands and the number of channels of each band are
  right.  When the table gets full, the band that filled it is not counted: with 64
  frequencies in the first band the table has no band at all, which makes
  \<open>uwifi_channel_init\<close> fail.  From a table that has entries already the new number of channels is
  right, but the old entries stay in front.\<close>

theorem freqlist_spec:
  assumes wf: "channels_wf cs" and wb: "genl_attrs L msg NL80211_ATTR_WIPHY_BANDS = Some wb"
    and ok: "\<forall>x \<in> set (nla_nested L wb). band_ok L A x"
    and fss: "fss = map (band_freqs L A) (take 2 (nla_nested L wb))"
  shows "\<exists>cs'. nl80211_get_freqlist_cb L A msg cs = Some (NL_SKIP, cs') \<and> channels_wf cs' \<and>
    map cf_freq (used cs') = take (min 64 (length (concat fss))) (map cf_freq (used cs) @ map word_of_int (concat fss)) \<and>
    map cf_chan (used cs') = take (min 64 (length (concat fss))) (map cf_chan (used cs) @ map wlan_freq2chan (concat fss)) \<and>
    (if length (concat fss) < 64
     then num_bands cs' = int (length fss) \<and> (\<forall>b < length fss. bd_num_channels (bands cs' ! b) = int (length (fss ! b)))
     else num_bands cs' = (if 64 \<le> length (hd fss) then 0 else 1))"
proof -
  from freqlist_cb_lists [OF wf wb ok] obtain cs' where
    run: "nl80211_get_freqlist_cb L A msg cs = Some (NL_SKIP, cs')" and l: "lists_bands (keys cs) fss cs'"
    unfolding fss by blast
  have p: "map cf_freq (used c) = map snd (keys c)" "map cf_chan (used c) = map fst (keys c)" for c
    by (simp_all add: keys_def comp_def)
  have ks: "keys cs' = refreshed (concat fss) (keys cs)" using l by (simp add: lists_bands_def)
  have "map cf_freq (used cs') = take (min 64 (length (concat fss))) (map cf_freq (used cs) @ map word_of_int (concat fss))"
    "map cf_chan (used cs') = take (min 64 (length (concat fss))) (map cf_chan (used cs) @ map wlan_freq2chan (concat fss))"
    unfolding p ks refreshed_def by (simp_all add: take_map [symmetric] fkey_def comp_def del: take_append)
  with run l show ?thesis unfolding lists_bands_def by (intro exI [of _ cs'] conjI) (assumption | simp)+
qed

text \<open>An answer with two bands: two frequencies, one of them disabled, and none.\<close>

definition bands_libnl :: "(unit, nat) libnl" where
  "bands_libnl = some_libnl\<lparr>genl_attrs := \<lambda>msg. [NL80211_ATTR_WIPHY_BANDS \<mapsto> [1]],
     nla_nested := \<lambda>v. if v = [1] then [[2], [3]] else if v = [4] then [[6], [7]] else []\<rparr>"

definition bands_abi :: nl80211_abi where
  "bands_abi = some_abi\<lparr>band_attrs := \<lambda>v. if v = [2] then [NL80211_BAND_ATTR_FREQS \<mapsto> [4]]
       else [NL80211_BAND_ATTR_FREQS \<mapsto> [5], NL80211_BAND_ATTR_HT_CAPA \<mapsto> [2, 0]],
     freq_attrs := \<lambda>v. if v = [6] then [NL80211_FREQUENCY_ATTR_FREQ \<mapsto> le32_enc 2412]
       else [NL80211_FREQUENCY_ATTR_FREQ \<mapsto> le32_enc 2417, NL80211_FREQUENCY_ATTR_DISABLED \<mapsto> []]\<rparr>"

lemma le32_len: "length (le32_enc w) = 4" by (rule le32.enc_width)

lemma zero_channels_wf: "channels_wf zero_channels" "num_channels zero_channels = 0"
  by (simp_all add: channels_wf_def zero_channels_def MAX_CHANNELS_def MAX_BANDS_def)

lemma zero_channels_used: "used zero_channels = []" by (simp add: used_def zero_channels_def)

lemma bands_example:
  "genl_attrs bands_libnl () NL80211_ATTR_WIPHY_BANDS = Some [1]"
  "nla_nested bands_libnl [1] = [[2], [3]]" "nla_nested bands_libnl [4] = [[6], [7]]" "nla_nested bands_libnl [5] = []"
  "\<forall>x \<in> {[2], [3]}. band_ok bands_libnl bands_abi x"
proof -
  show "genl_attrs bands_libnl () NL80211_ATTR_WIPHY_BANDS = Some [1]" by (simp add: bands_libnl_def)
  show nest: "nla_nested bands_libnl [1] = [[2], [3]]" "nla_nested bands_libnl [4] = [[6], [7]]"
    "nla_nested bands_libnl [5] = []" by (simp_all add: bands_libnl_def)
  show "\<forall>x \<in> {[2], [3]}. band_ok bands_libnl bands_abi x"
    by (simp add: band_ok_def freqs_ok_def bands_abi_def nest le32_len)
qed

lemma freqlist_spec_witness:
  "\<exists>cs'. nl80211_get_freqlist_cb bands_libnl bands_abi () zero_channels = Some (NL_SKIP, cs') \<and>
     map cf_freq (used cs') = [2412] \<and> map cf_chan (used cs') = [1] \<and> num_bands cs' = 2"
proof -
  note wb = bands_example(1) and nest = bands_example(2-4)
  have ok: "\<forall>x \<in> set (nla_nested bands_libnl [1]). band_ok bands_libnl bands_abi x"
    using bands_example(5) by (simp add: nest)
  have fs: "band_freqs bands_libnl bands_abi [2] = [2412]" "band_freqs bands_libnl bands_abi [3] = []"
    by (simp_all add: band_freqs_def enabled_freqs_def bands_abi_def nest i32_def)
  have fss: "[[2412], []] = map (band_freqs bands_libnl bands_abi) (take 2 (nla_nested bands_libnl [1]))"
    by (simp add: nest fs)
  have ch: "wlan_freq2chan 2412 = 1" by (simp add: wlan_freq2chan_def signed_divide_int_def)
  show ?thesis using freqlist_spec [OF zero_channels_wf(1) wb ok fss] zero_channels_used by (auto simp: ch)
qed

subsection \<open>The request\<close>

text \<open>A message with a list of bands in the form that the kernel gives them, and its frequencies.\<close>

definition freqlist_ok :: "('m, 'w) libnl \<Rightarrow> nl80211_abi \<Rightarrow> 'm \<Rightarrow> bool" where
  "freqlist_ok L A msg \<longleftrightarrow> (\<exists>wb. genl_attrs L msg NL80211_ATTR_WIPHY_BANDS = Some wb \<and>
     (\<forall>x \<in> set (nla_nested L wb). band_ok L A x))"

definition answer_freqs :: "('m, 'w) libnl \<Rightarrow> nl80211_abi \<Rightarrow> 'm \<Rightarrow> int list" where
  "answer_freqs L A msg =
     concat (map (band_freqs L A) (take 2 (nla_nested L (the (genl_attrs L msg NL80211_ATTR_WIPHY_BANDS)))))"

definition freqlist_step :: "('m, 'w) libnl \<Rightarrow> nl80211_abi \<Rightarrow> 'm \<Rightarrow> uwifi_channels \<Rightarrow> uwifi_channels" where
  "freqlist_step L A msg cs = snd (the (nl80211_get_freqlist_cb L A msg cs))"

lemma freqlist_step_ok:
  assumes "channels_wf cs" "freqlist_ok L A msg"
  shows "nl80211_get_freqlist_cb L A msg cs = Some (NL_SKIP, freqlist_step L A msg cs)"
    and "channels_wf (freqlist_step L A msg cs)"
    and "keys (freqlist_step L A msg cs) = refreshed (answer_freqs L A msg) (keys cs)"
proof -
  from assms(2) obtain wb where wb: "genl_attrs L msg NL80211_ATTR_WIPHY_BANDS = Some wb"
    "\<forall>x \<in> set (nla_nested L wb). band_ok L A x" by (auto simp: freqlist_ok_def)
  from freqlist_cb_lists [OF assms(1) wb] obtain cs' where
    c: "nl80211_get_freqlist_cb L A msg cs = Some (NL_SKIP, cs')"
       "lists_bands (keys cs) (map (band_freqs L A) (take 2 (nla_nested L wb))) cs'" by blast
  then show "nl80211_get_freqlist_cb L A msg cs = Some (NL_SKIP, freqlist_step L A msg cs)"
    by (simp add: freqlist_step_def)
  from c wb(1) show "channels_wf (freqlist_step L A msg cs)"
    "keys (freqlist_step L A msg cs) = refreshed (answer_freqs L A msg) (keys cs)"
    by (simp_all add: freqlist_step_def lists_bands_def answer_freqs_def)
qed

lemma freqlist_stepping:
  assumes "\<forall>msg. freqlist_ok L A msg"
  shows "stepping channels_wf (freqlist_step L A) (nl80211_get_freqlist_cb L A)"
  unfolding stepping_def by (intro allI impI conjI freqlist_step_ok(1,2) assms [rule_format])

lemma freqlist_fold:
  assumes "\<forall>msg. freqlist_ok L A msg"
  shows "channels_wf cs \<Longrightarrow> channels_wf (fold (freqlist_step L A) ms cs) \<and>
    keys (fold (freqlist_step L A) ms cs) = fold (\<lambda>msg. refreshed (answer_freqs L A msg)) ms (keys cs)"
proof (induction ms arbitrary: cs)
  case (Cons msg ms)
  from assms have "freqlist_ok L A msg" by simp
  note step = freqlist_step_ok(2,3) [OF Cons.prems this]
  from Cons.IH [OF step(1)] step(2) show ?case by simp
qed simp

text \<open>The request leaves a well-formed table, which the messages of the answer have refreshed one by one.\<close>

lemma get_freqlist_result:
  assumes k: "live_socket (nl_sock s) s = Some k" and L: "kernel_ok L k" and ok: "\<forall>msg. freqlist_ok L A msg"
    and wf: "channels_wf (channels intf)"
  obtains r cs s' ms where "nl_iwget_freqlist L A intf s = Some (r, intf\<lparr>channels := cs\<rparr>, s')" "outcome L k r s s'"
    "(ms = [] \<and> \<not> r \<and> \<not> unrefused L) \<or> answer_to L k ms r" "channels_wf cs"
    "keys cs = fold (\<lambda>msg. refreshed (answer_freqs L A msg)) ms (keys (channels intf))"
proof -
  from query_fold [OF k L freqlist_stepping [OF ok] wf, of NL80211_CMD_GET_WIPHY None False
      "[(NL80211_ATTR_WIPHY, le32_enc (word_of_int (if_phy intf)))]"]
  obtain r ms s' where q: "nl_query L NL80211_CMD_GET_WIPHY None False
      [(NL80211_ATTR_WIPHY, le32_enc (word_of_int (if_phy intf)))] (nl80211_get_freqlist_cb L A) (channels intf) s =
      Some (r, fold (freqlist_step L A) ms (channels intf), s')" "outcome L k r s s'"
    "(ms = [] \<and> \<not> r \<and> \<not> unrefused L) \<or> answer_to L k ms r" by blast
  from freqlist_fold [OF ok wf, of ms] q show thesis
    by (intro that [of r "fold (freqlist_step L A) ms (channels intf)" s' ms]) (simp_all add: nl_iwget_freqlist_def)
qed

text \<open>A second list that is not longer than the first one does not change the frequencies of the entries it keeps.\<close>

lemma second_list_is_stale:
  assumes "length fs' \<le> min 64 (length fs)"
  shows "refreshed fs' (refreshed fs []) = take (length fs') (map fkey fs)"
proof -
  from assms have "length fs' \<le> length (refreshed fs [])" "min 64 (length fs') = length fs'" "length fs' \<le> min 64 (length fs)"
    by (simp_all add: refreshed_def)
  then have "refreshed fs' (refreshed fs []) = take (length fs') (refreshed fs [])" by (simp add: refreshed_def [of fs'])
  also have "\<dots> = take (length fs') (map fkey fs)" using assms by (simp add: refreshed_def min_absorb1)
  finally show ?thesis .
qed

subsection \<open>Initialisation of the channels over nl80211\<close>

text \<open>
  The operations of this interface control as the driver of the channel component.  The values
  for calls that are not defined are never used with a connected socket and a kernel that
  answers (\<open>nl80211_platform_exact\<close>).
\<close>

definition nl80211_platform ::
    "('m, 'w) libnl \<Rightarrow> nl80211_abi \<Rightarrow> ('w nl_state \<Rightarrow> u32 \<times> 'w nl_state) \<Rightarrow> 'w nl_state platform" where
  "nl80211_platform L A clock = \<lparr>plat_time_usec = clock,
     ifctrl_iwset_freq = (\<lambda>name f width center s.
       case nl_iwset_freq L A (Some name) f width center s of None \<Rightarrow> (False, s) | Some r \<Rightarrow> r),
     ifctrl_iwget_freqlist = (\<lambda>intf s.
       case nl_iwget_freqlist L A intf s of None \<Rightarrow> (intf, s) | Some (r, intf, s) \<Rightarrow> (intf, s))\<rparr>"

lemma nl80211_platform_exact:
  assumes k: "live_socket (nl_sock s) s = Some k" and L: "kernel_ok L k"
  shows "nl_iwset_freq L A (Some name) f width center s = Some (ifctrl_iwset_freq (nl80211_platform L A clock) name f width center s)"
    and "\<lbrakk>\<forall>msg. freqlist_ok L A msg; channels_wf (channels intf)\<rbrakk> \<Longrightarrow>
      \<exists>r. nl_iwget_freqlist L A intf s = Some (r, ifctrl_iwget_freqlist (nl80211_platform L A clock) intf s)"
proof -
  from command_outcome [OF k L, of NL80211_CMD_SET_CHANNEL "Some name" "freq_request A f width center"]
  show "nl_iwset_freq L A (Some name) f width center s = Some (ifctrl_iwset_freq (nl80211_platform L A clock) name f width center s)"
    by (auto simp: nl80211_platform_def nl_iwset_freq_def)
  assume "\<forall>msg. freqlist_ok L A msg" "channels_wf (channels intf)"
  from get_freqlist_result [OF k L this] obtain r cs s' where "nl_iwget_freqlist L A intf s = Some (r, intf\<lparr>channels := cs\<rparr>, s')"
    by metis
  then show "\<exists>r. nl_iwget_freqlist L A intf s = Some (r, ifctrl_iwget_freqlist (nl80211_platform L A clock) intf s)"
    by (simp add: nl80211_platform_def)
qed

lemma capab_widths:
  assumes wf: "channels_wf cs"
  shows "\<forall>e \<in> set (used (check_all_capab cs)). CHAN_WIDTH_20 \<le> cf_max_width e"
proof
  note r = check_all_capab_result [OF wf]
  fix e assume "e \<in> set (used (check_all_capab cs))"
  then obtain i where i: "i < length (used (check_all_capab cs))" "e = used (check_all_capab cs) ! i" by (auto simp: in_set_conv_nth)
  then have "int i < num_channels cs" using used_length [OF r(2)] r(1) r(2) by (simp add: same_keys_def channels_wf_def)
  from r(3) [of "int i"] this i(2) show "CHAN_WIDTH_20 \<le> cf_max_width e" by (simp add: entry_ok_def)
qed

lemma map_pairs_eq: "map f xs = map f ys \<Longrightarrow> map g xs = map g ys \<Longrightarrow> map (\<lambda>e. (f e, g e)) xs = map (\<lambda>e. (f e, g e)) ys"
  by (induction xs ys rule: list_induct2') auto

lemma keys_capab:
  assumes "channels_wf cs"
  shows "keys (check_all_capab cs) = keys cs" "channels_wf (check_all_capab cs)"
proof -
  note r = check_all_capab_result [OF assms]
  from same_keys_used [OF r(1)] show "keys (check_all_capab cs) = keys cs"
    unfolding keys_def by (intro map_pairs_eq) simp_all
  show "channels_wf (check_all_capab cs)" by (rule r(2))
qed

text \<open>One list, entered in an empty table and in a table that is as long already.\<close>

lemma refreshed_empty: "refreshed fs [] = take 64 (map fkey fs)"
  by (cases "length fs \<le> 64") (simp_all add: refreshed_def)

lemma refreshed_table:
  assumes "channels_wf cs" "length fs \<le> length (keys cs)"
  shows "refreshed fs (keys cs) = take (length fs) (keys cs)"
proof -
  have "length (keys cs) \<le> 64" using keys_length [OF assms(1)] assms(1) by (simp add: channels_wf_def MAX_CHANNELS_def)
  with assms(2) show ?thesis by (simp add: refreshed_def)
qed

text \<open>C14: \<open>uwifi_channel_init\<close> over the nl80211 interface control, with a
  connected socket and a kernel that answers with well-formed bands.  The request for the
  frequencies returns and leaves no resource behind except as for a command; it is not sent only when libnl, the memory or the
  interface refuses.  The channel table afterwards is the old one refreshed by each message \<open>msg\<close> of the answer: it gets as
  many entries as the answer has frequencies, at most 64, but the entries that it had stay in front and are not replaced.  So
  from an empty table and one message it lists the first 64 frequencies of the answer, in order; and when it had
  as many entries as the answer has frequencies already, none of these is entered.  Every entry has a width of at
  least 20 MHz, and the call succeeds only with a channel in the table.  It is undefined exactly when the
  driver reports a band and a channel, none is configured, and the current frequency of the interface is not in the refreshed table.\<close>

theorem nl80211_channel_init:
  assumes k: "live_socket (nl_sock s) s = Some k" and L: "kernel_ok L k" and ok: "\<forall>msg. freqlist_ok L A msg"
    and wf: "channels_wf (channels intf)"
  shows "\<exists>r cs s1 ms ks. nl_iwget_freqlist L A intf s = Some (r, intf\<lparr>channels := cs\<rparr>, s1) \<and> outcome L k r s s1 \<and>
    ((ms = [] \<and> \<not> r \<and> \<not> unrefused L) \<or> answer_to L k ms r) \<and>
    ks = fold (\<lambda>msg. refreshed (answer_freqs L A msg)) ms (keys (channels intf)) \<and>
    (\<forall>msg. ms = [msg] \<longrightarrow>
      (keys (channels intf) = [] \<longrightarrow> ks = take 64 (map fkey (answer_freqs L A msg))) \<and>
      (length (answer_freqs L A msg) \<le> length (keys (channels intf)) \<longrightarrow>
         ks = take (length (answer_freqs L A msg)) (keys (channels intf)))) \<and>
    (uwifi_channel_init (nl80211_platform L A clock) intf s = None \<longleftrightarrow>
       0 < num_bands cs \<and> ks \<noteq> [] \<and> cs_freq (channel_set intf) = 0 \<and> cs_freq (channel intf) \<noteq> 0 \<and>
       cs_freq (channel intf) \<notin> snd ` set ks) \<and>
    (\<forall>success intf' s'. uwifi_channel_init (nl80211_platform L A clock) intf s = Some (success, intf', s') \<longrightarrow>
       channels_wf (channels intf') \<and> keys (channels intf') = ks \<and>
       (\<forall>e \<in> set (used (channels intf')). CHAN_WIDTH_20 \<le> cf_max_width e) \<and>
       (success \<longrightarrow> ks \<noteq> [] \<and> 0 < num_bands (channels intf')))"
proof -
  let ?P = "nl80211_platform L A clock"
  obtain r cs s1 ms where q: "nl_iwget_freqlist L A intf s = Some (r, intf\<lparr>channels := cs\<rparr>, s1)" "outcome L k r s s1"
    "(ms = [] \<and> \<not> r \<and> \<not> unrefused L) \<or> answer_to L k ms r" "channels_wf cs"
    "keys cs = fold (\<lambda>msg. refreshed (answer_freqs L A msg)) ms (keys (channels intf))"
    by (rule get_freqlist_result [OF k L ok wf])
  have f: "ifctrl_iwget_freqlist ?P intf s = (intf\<lparr>channels := cs\<rparr>, s1)" using q(1) by (simp add: nl80211_platform_def)
  have fs: "cf_freq ` set (used c) = snd ` set (keys c)" for c by (simp add: keys_def image_image)
  have n: "0 < num_channels cs \<longleftrightarrow> keys cs \<noteq> []" using keys_length [OF q(4)] by simp
  have one: "(keys (channels intf) = [] \<longrightarrow> refreshed fs (keys (channels intf)) = take 64 (map fkey fs)) \<and>
      (length fs \<le> length (keys (channels intf)) \<longrightarrow> refreshed fs (keys (channels intf)) = take (length fs) (keys (channels intf)))"
    for fs using refreshed_table [OF wf, of fs] by (simp add: refreshed_empty)
  have undef: "uwifi_channel_init ?P intf s = None \<longleftrightarrow>
       0 < num_bands cs \<and> keys cs \<noteq> [] \<and> cs_freq (channel_set intf) = 0 \<and> cs_freq (channel intf) \<noteq> 0 \<and>
       cs_freq (channel intf) \<notin> snd ` set (keys cs)"
    using channel_init_undefined [OF f] q(4) fs [of cs] n by simp
  have "channels_wf (channels intf') \<and> keys (channels intf') = keys cs \<and>
       (\<forall>e \<in> set (used (channels intf')). CHAN_WIDTH_20 \<le> cf_max_width e) \<and>
       (success \<longrightarrow> keys cs \<noteq> [] \<and> 0 < num_bands (channels intf'))"
    if run: "uwifi_channel_init ?P intf s = Some (success, intf', s')" for success intf' s'
  proof -
    from channel_init_channels [OF f run] have c: "channels intf' = check_all_capab cs"
      "success \<longrightarrow> 0 < num_bands (channels intf') \<and> 0 < num_channels (channels intf')" by auto
    note kc = keys_capab [OF q(4)]
    have "success \<longrightarrow> keys cs \<noteq> []" using c kc keys_length [OF kc(2)] by auto
    with c kc capab_widths [OF q(4)] show ?thesis by simp
  qed
  with q undef one show ?thesis
    by (intro exI [of _ r] exI [of _ cs] exI [of _ s1] exI [of _ ms] exI [of _ "keys cs"]) simp
qed

lemma bands_kernel_ok: "kernel_ok bands_libnl k" "freqlist_ok bands_libnl bands_abi msg"
proof -
  have "nl_batch bands_libnl k w n = nl_batch some_libnl k w n" for w n
    by (induction n arbitrary: w) (simp_all add: bands_libnl_def)
  then show "kernel_ok bands_libnl k" using some_kernel_ok [of k] by (simp add: kernel_ok_def bands_libnl_def)
  show "freqlist_ok bands_libnl bands_abi msg" using bands_example by (simp add: freqlist_ok_def)
qed

text \<open>The answer lists channel 1 twice, in two messages.  It is entered in an empty table, but not in a table that has an entry.\<close>

definition one_channel :: uwifi_channels where
  "one_channel = zero_channels\<lparr>chans := zero_chan\<lparr>cf_chan := 36, cf_freq := 5180\<rparr> # replicate 63 zero_chan, num_channels := 1\<rparr>"

lemma one_channel_ok: "channels_wf one_channel" "keys one_channel = [(36, 5180)]" "keys zero_channels = []"
  using zero_channels_wf
  by (simp_all add: channels_wf_def one_channel_def keys_def used_def zero_channels_def MAX_CHANNELS_def)

lemma bands_answer:
  "answer_to bands_libnl k ms b \<longleftrightarrow> ms = [(), ()] \<and> b" "unrefused bands_libnl" "answer_freqs bands_libnl bands_abi msg = [2412]"
proof -
  show "answer_to bands_libnl k ms b \<longleftrightarrow> ms = [(), ()] \<and> b" "unrefused bands_libnl"
    by (rule example_answer) (simp_all add: bands_libnl_def some_libnl_def unrefused_def)
  have "band_freqs bands_libnl bands_abi [2] = [2412]" "band_freqs bands_libnl bands_abi [3] = []"
    by (simp_all add: band_freqs_def enabled_freqs_def bands_abi_def bands_example i32_def)
  then show "answer_freqs bands_libnl bands_abi msg = [2412]" by (simp add: answer_freqs_def bands_example)
qed

lemma nl80211_channel_init_witness:
  "(\<exists>success intf' s'. uwifi_channel_init (nl80211_platform bands_libnl bands_abi (\<lambda>s. (0, s)))
      (intf2\<lparr>channel := zero_spec, channels := zero_channels\<rparr>) some_state = Some (success, intf', s') \<and>
    keys (channels intf') = [(1, 2412)]) \<and>
   (\<exists>success intf' s'. uwifi_channel_init (nl80211_platform bands_libnl bands_abi (\<lambda>s. (0, s)))
      (intf2\<lparr>channel := zero_spec, channels := one_channel\<rparr>) some_state = Some (success, intf', s') \<and>
    keys (channels intf') = [(36, 5180)])"
proof -
  have k: "live_socket (nl_sock some_state) some_state = Some 0"
    using some_state_live(2) by (simp add: some_state_def)
  have ok: "\<forall>msg. freqlist_ok bands_libnl bands_abi msg" using bands_kernel_ok(2) by blast
  have run: "\<exists>success intf' s'. uwifi_channel_init (nl80211_platform bands_libnl bands_abi (\<lambda>s. (0, s)))
      (intf2\<lparr>channel := zero_spec, channels := cs\<rparr>) some_state = Some (success, intf', s') \<and>
      keys (channels intf') = refreshed [2412] (refreshed [2412] (keys cs))" if wf: "channels_wf cs" for cs
    using nl80211_channel_init [OF k bands_kernel_ok(1) ok, of "intf2\<lparr>channel := zero_spec, channels := cs\<rparr>" "\<lambda>s. (0, s)"] wf
    by (auto simp: bands_answer zero_spec_def)
  have "fkey 2412 = (1, 2412)" by (simp add: fkey_def wlan_freq2chan_def signed_divide_int_def)
  with run [OF zero_channels_wf(1)] run [OF one_channel_ok(1)] show ?thesis
    by (simp add: one_channel_ok refreshed_def)
qed

end
