(* ===== verification/Netdev.thy ===== *)
theory Netdev
  imports Util
begin

text \<open>
  \<open>linux/netdev.c\<close>, \<open>linux/packet_sock.c\<close> and \<open>linux/platform.c\<close>: the ioctl calls on a network
  device, the raw packet socket, and the clock.

  The kernel is the record \<open>syscalls\<close>; its functions may depend on and change a world \<open>'w\<close>.
  The model keeps the open file descriptors itself, in the order of opening: \<open>socket\<close> returns
  the lowest number that is not open, as POSIX has it.

  The union in \<open>struct ifreq\<close> is a word of 128 bits, little-endian, of which the members are
  views: the address family and the flags are bits 0 to 15, the data of a hardware address
  begins at bit 16, and the address in a \<open>struct sockaddr_in\<close> is bits 32 to 63.
\<close>

subsection \<open>The kernel\<close>

datatype ioctl_request = SIOCGIFHWADDR | SIOCGIFADDR | SIOCSIFADDR | SIOCGIFFLAGS | SIOCSIFFLAGS

datatype socket_kind = Dgram_Socket | Packet_Socket

record ifreq =
  ifr_name :: string
  ifr_union :: "128 word"

record 'w syscalls =
  sys_socket :: "socket_kind \<Rightarrow> 'w \<Rightarrow> bool \<times> 'w"
  sys_ioctl :: "nat \<Rightarrow> ioctl_request \<Rightarrow> ifreq \<Rightarrow> 'w \<Rightarrow> int \<times> ifreq \<times> 'w"
  sys_ifindex :: "string \<Rightarrow> 'w \<Rightarrow> u32 \<times> 'w"
  sys_bind :: "nat \<Rightarrow> u32 \<Rightarrow> 'w \<Rightarrow> int \<times> 'w"
  sys_recv :: "nat \<Rightarrow> nat \<Rightarrow> 'w \<Rightarrow> (int \<times> bytes) \<times> 'w"
  sys_monotonic :: "'w \<Rightarrow> (int \<times> int) \<times> 'w"

record 'w os =
  os_fds :: "nat list"
  os_world :: 'w

definition lowest_free :: "nat list \<Rightarrow> nat" where
  "lowest_free fds = hd (filter (\<lambda>i. i \<notin> set fds) [0..<Suc (length fds)])"

definition os_socket :: "'w syscalls \<Rightarrow> socket_kind \<Rightarrow> 'w os \<Rightarrow> int \<times> 'w os" where
  "os_socket K kind s =
    (case sys_socket K kind (os_world s) of (ok, w) \<Rightarrow>
       let s = s\<lparr>os_world := w\<rparr>; fd = lowest_free (os_fds s) in
       if ok then (int fd, s\<lparr>os_fds := os_fds s @ [fd]\<rparr>) else (-1, s))"

definition os_close :: "int \<Rightarrow> 'w os \<Rightarrow> 'w os" where
  "os_close fd s = (if fd < 0 then s else s\<lparr>os_fds := remove1 (nat fd) (os_fds s)\<rparr>)"

definition os_ioctl :: "'w syscalls \<Rightarrow> int \<Rightarrow> ioctl_request \<Rightarrow> ifreq \<Rightarrow> 'w os \<Rightarrow> int \<times> ifreq \<times> 'w os" where
  "os_ioctl K fd req ifr s =
    (case sys_ioctl K (nat fd) req ifr (os_world s) of (r, ifr, w) \<Rightarrow> (r, ifr, s\<lparr>os_world := w\<rparr>))"

definition os_run :: "('w \<Rightarrow> 'r \<times> 'w) \<Rightarrow> 'w os \<Rightarrow> 'r \<times> 'w os" where
  "os_run f s = (case f (os_world s) of (r, w) \<Rightarrow> (r, s\<lparr>os_world := w\<rparr>))"

subsection \<open>Interface requests\<close>

text \<open>\<open>memset(&ifr, 0, sizeof(ifr)); strncpy(ifr.ifr_name, ifname, IF_NAMESIZE - 1);\<close>\<close>

definition IF_NAMESIZE :: nat where "IF_NAMESIZE = 16"

definition new_ifreq :: "string \<Rightarrow> ifreq" where
  "new_ifreq name = \<lparr>ifr_name = take (IF_NAMESIZE - 1) name, ifr_union = 0\<rparr>"

definition AF_INET :: u16 where "AF_INET = 2"
definition IFF_UP :: u16 where "IFF_UP = 0x1"
definition IFF_PROMISC :: u16 where "IFF_PROMISC = 0x100"

definition sa_family :: "ifreq \<Rightarrow> u16" where "sa_family ifr = ucast (ifr_union ifr)"
definition ifr_flags :: "ifreq \<Rightarrow> u16" where "ifr_flags ifr = ucast (ifr_union ifr)"
definition s_addr :: "ifreq \<Rightarrow> u32" where "s_addr ifr = ucast (drop_bit 32 (ifr_union ifr))"

definition sa_data :: "nat \<Rightarrow> ifreq \<Rightarrow> bytes" where
  "sa_data n ifr = le_enc n (drop_bit 16 (ifr_union ifr))"

definition set_low16 :: "u16 \<Rightarrow> ifreq \<Rightarrow> ifreq" where
  "set_low16 v ifr = ifr\<lparr>ifr_union := (ifr_union ifr AND NOT (mask 16)) OR ucast v\<rparr>"

definition set_s_addr :: "u32 \<Rightarrow> ifreq \<Rightarrow> ifreq" where
  "set_s_addr v ifr = ifr\<lparr>ifr_union := (ifr_union ifr AND NOT (push_bit 32 (mask 32))) OR push_bit 32 (ucast v)\<rparr>"

subsection \<open>linux/netdev.c\<close>

definition netdev_get_hwinfo :: "'w syscalls \<Rightarrow> string \<Rightarrow> 'w os \<Rightarrow> int \<times> 'w os" where
  "netdev_get_hwinfo K name s =
    (let (fd, s) = os_socket K Dgram_Socket s in
     if fd = -1 then (0, s)
     else
       (let (r, ifr, s) = os_ioctl K fd SIOCGIFHWADDR (new_ifreq name) s; s = os_close fd s in
        if r < 0 then (-1, s) else (uint (sa_family ifr), s)))"

text \<open>The address is written through \<open>mac\<close>; the result here is the new contents or \<open>None\<close> for false.\<close>

definition netdev_get_mac_address :: "'w syscalls \<Rightarrow> string \<Rightarrow> 'w os \<Rightarrow> bytes option \<times> 'w os" where
  "netdev_get_mac_address K name s =
    (let (fd, s) = os_socket K Dgram_Socket s in
     if fd = -1 then (None, s)
     else
       (let (r, ifr, s) = os_ioctl K fd SIOCGIFHWADDR (new_ifreq name) s; s = os_close fd s in
        if r < 0 then (None, s) else (Some (sa_data 6 ifr), s)))"

definition netdev_get_ip_address :: "'w syscalls \<Rightarrow> string \<Rightarrow> 'w os \<Rightarrow> u32 option \<times> 'w os" where
  "netdev_get_ip_address K name s =
    (let (fd, s) = os_socket K Dgram_Socket s in
     if fd = -1 then (None, s)
     else
       (let (r, ifr, s) = os_ioctl K fd SIOCGIFADDR (set_low16 AF_INET (new_ifreq name)) s;
            s = os_close fd s in
        if r < 0 then (None, s) else (Some (s_addr ifr), s)))"

definition netdev_set_ip_address :: "'w syscalls \<Rightarrow> string \<Rightarrow> u32 \<Rightarrow> 'w os \<Rightarrow> bool \<times> 'w os" where
  "netdev_set_ip_address K name ip s =
    (let (fd, s) = os_socket K Dgram_Socket s in
     if fd = -1 then (False, s)
     else
       (let (r, ifr, s) = os_ioctl K fd SIOCSIFADDR (set_s_addr ip (set_low16 AF_INET (new_ifreq name))) s;
            s = os_close fd s in
        if r < 0 then (False, s) else (True, s)))"

definition new_flags :: "bool \<Rightarrow> bool \<Rightarrow> u16 \<Rightarrow> u16" where
  "new_flags up promisc flags =
    (let flags = (if up then flags OR IFF_UP else flags AND NOT IFF_UP) in
     if promisc then flags OR IFF_PROMISC else flags AND NOT IFF_PROMISC)"

definition netdev_set_up_promisc :: "'w syscalls \<Rightarrow> string \<Rightarrow> bool \<Rightarrow> bool \<Rightarrow> 'w os \<Rightarrow> bool \<times> 'w os" where
  "netdev_set_up_promisc K name up promisc s =
    (let (fd, s) = os_socket K Dgram_Socket s in
     if fd = -1 then (False, s)
     else
       (let (r, ifr, s) = os_ioctl K fd SIOCGIFFLAGS (new_ifreq name) s in
        if r < 0 then (False, os_close fd s)
        else
          (let (r, ifr, s) = os_ioctl K fd SIOCSIFFLAGS (set_low16 (new_flags up promisc (ifr_flags ifr)) ifr) s;
               s = os_close fd s in
           if r < 0 then (False, s) else (True, s))))"

subsection \<open>linux/packet\_sock.c and linux/platform.c\<close>

text \<open>
  \<open>packet_socket_open\<close> ends the process when the socket cannot be created or bound; \<open>Inl\<close> is
  the exit status.
\<close>

definition packet_socket_open :: "'w syscalls \<Rightarrow> string \<Rightarrow> 'w os \<Rightarrow> (int + int) \<times> 'w os" where
  "packet_socket_open K devname s =
    (let (fd, s) = os_socket K Packet_Socket s in
     if fd < 0 then (Inl 1, s)
     else
       (let (ifindex, s) = os_run (sys_ifindex K devname) s in
        if ifindex = 0 then (Inr (-1), s)
        else
          (let (ret, s) = os_run (sys_bind K (nat fd) ifindex) s in
           if ret \<noteq> 0 then (Inl 1, s) else (Inr fd, s))))"

definition packet_socket_recv :: "'w syscalls \<Rightarrow> int \<Rightarrow> nat \<Rightarrow> 'w os \<Rightarrow> (int \<times> bytes) \<times> 'w os" where
  "packet_socket_recv K fd bufsize s = os_run (sys_recv K (nat fd) bufsize) s"

text \<open>
  \<open>socket_set_receive_buffer\<close> without \<open>DEBUG\<close>.  The stream that \<open>fopen\<close> opens is closed
  again, so the open descriptors stay the same; \<open>fprintf\<close> to the NULL that a failing \<open>fopen\<close>
  returns is undefined.  \<open>Inl\<close> is the exit status of \<open>err\<close>.
\<close>

record 'w sockopts =
  so_fopen :: "string \<Rightarrow> 'w \<Rightarrow> bool \<times> 'w"
  so_print :: "string \<Rightarrow> 'w \<Rightarrow> 'w"
  so_rcvbuf :: "nat \<Rightarrow> int \<Rightarrow> 'w \<Rightarrow> int \<times> 'w"

definition socket_set_receive_buffer ::
    "'w sockopts \<Rightarrow> int \<Rightarrow> int \<Rightarrow> 'w os \<Rightarrow> ((int + unit) \<times> 'w os) option" where
  "socket_set_receive_buffer F fd sockbufsize s =
    (let (opened, s) = os_run (so_fopen F ''/proc/sys/net/core/rmem_max'') s in
     if \<not> opened then None
     else
       (let s = s\<lparr>os_world := so_print F (fmt_d sockbufsize) (os_world s)\<rparr>;
            (ret, s) = os_run (so_rcvbuf F (nat fd) sockbufsize) s in
        Some (if ret \<noteq> 0 then Inl 1 else Inr (), s)))"

text \<open>\<open>tv_sec\<close> and \<open>tv_nsec\<close>; the result is cut to 32 bits.\<close>

definition linux_time_usec :: "'w syscalls \<Rightarrow> 'w os \<Rightarrow> u32 \<times> 'w os" where
  "linux_time_usec K s =
    (let ((sec, nsec), s) = os_run (sys_monotonic K) s in
     (word_of_int (sec * 1000000 + nsec sdiv 1000), s))"

subsection \<open>File descriptors\<close>

lemma lowest_free_new: "lowest_free fds \<notin> set fds"
proof -
  have "\<exists>i \<in> set [0..<Suc (length fds)]. i \<notin> set fds"
  proof (rule ccontr)
    assume "\<not> ?thesis"
    then have "set [0..<Suc (length fds)] \<subseteq> set fds" by blast
    then have "{0..<Suc (length fds)} \<subseteq> set fds" by (simp only: set_upt)
    from card_mono [OF _ this] card_length [of fds] show False by simp
  qed
  then have "filter (\<lambda>i. i \<notin> set fds) [0..<Suc (length fds)] \<noteq> []" by (simp add: filter_empty_conv)
  from hd_in_set [OF this] show ?thesis by (auto simp: lowest_free_def)
qed

lemma os_socket_cases:
  obtains (none) s' where "os_socket K kind s = (-1, s')" "os_fds s' = os_fds s"
  | (some) fd s' where "os_socket K kind s = (int fd, s')" "fd = lowest_free (os_fds s)" "os_fds s' = os_fds s @ [fd]"
proof (cases "sys_socket K kind (os_world s)")
  case (Pair ok w)
  show thesis
  proof (cases ok)
    case True
    show thesis
      by (rule some [of "lowest_free (os_fds s)" "s\<lparr>os_world := w, os_fds := os_fds s @ [lowest_free (os_fds s)]\<rparr>"])
        (simp_all add: os_socket_def Let_def Pair True)
  next
    case False
    show thesis by (rule none [of "s\<lparr>os_world := w\<rparr>"]) (simp_all add: os_socket_def Let_def Pair False)
  qed
qed

lemma os_keeps_fds [simp]:
  "os_ioctl K fd req ifr s = (r, ifr', s') \<Longrightarrow> os_fds s' = os_fds s"
  "os_run f s = (v, s') \<Longrightarrow> os_fds s' = os_fds s"
  by (auto simp: os_ioctl_def os_run_def split: prod.splits)

lemma close_new: "os_fds s = fds @ [fd] \<Longrightarrow> fd = lowest_free fds \<Longrightarrow> os_fds (os_close (int fd) s) = fds"
  using lowest_free_new [of fds] by (simp add: os_close_def remove1_append)

text \<open>Every function of \<open>netdev.c\<close> closes the socket it opens, on every path.\<close>

lemma netdev_closes:
  "os_fds (snd (netdev_get_hwinfo K name s)) = os_fds s"
  "os_fds (snd (netdev_get_mac_address K name s)) = os_fds s"
  "os_fds (snd (netdev_get_ip_address K name s)) = os_fds s"
  "os_fds (snd (netdev_set_ip_address K name ip s)) = os_fds s"
  "os_fds (snd (netdev_set_up_promisc K name up promisc s)) = os_fds s"
proof -
  have c: "os_fds (os_close (int fd) s3) = os_fds s"
    if "os_fds s1 = os_fds s @ [fd]" "fd = lowest_free (os_fds s)" "os_fds s3 = os_fds s1" for fd s1 s3
    using close_new [of s3 "os_fds s" fd] that by simp
  show "os_fds (snd (netdev_get_hwinfo K name s)) = os_fds s"
    "os_fds (snd (netdev_get_mac_address K name s)) = os_fds s"
    "os_fds (snd (netdev_get_ip_address K name s)) = os_fds s"
    "os_fds (snd (netdev_set_ip_address K name ip s)) = os_fds s"
    "os_fds (snd (netdev_set_up_promisc K name up promisc s)) = os_fds s"
    by (cases K Dgram_Socket s rule: os_socket_cases;
        auto simp: netdev_get_hwinfo_def netdev_get_mac_address_def netdev_get_ip_address_def
          netdev_set_ip_address_def netdev_set_up_promisc_def Let_def c split: prod.splits)+
qed

text \<open>
  \<open>socket_set_receive_buffer\<close> does not check the result of \<open>fopen\<close>: it is defined exactly when
  the sysctl file can be opened for writing, which needs the rights of the superuser.
\<close>

lemma receive_buffer_eq:
  "socket_set_receive_buffer F fd n s =
    (case so_fopen F ''/proc/sys/net/core/rmem_max'' (os_world s) of (opened, w) \<Rightarrow>
       if \<not> opened then None
       else (case so_rcvbuf F (nat fd) n (so_print F (fmt_d n) w) of (ret, w) \<Rightarrow>
               Some (if ret \<noteq> 0 then Inl 1 else Inr (), s\<lparr>os_world := w\<rparr>)))"
  by (simp add: socket_set_receive_buffer_def os_run_def Let_def split: prod.split)

lemma receive_buffer_defined_iff:
  "socket_set_receive_buffer F fd n s \<noteq> None \<longleftrightarrow> fst (so_fopen F ''/proc/sys/net/core/rmem_max'' (os_world s))"
  unfolding receive_buffer_eq by (cases "so_fopen F ''/proc/sys/net/core/rmem_max'' (os_world s)") (simp split: prod.split)

end
