(* ===== verification/Scan_Safety.thy ===== *)
theory Scan_Safety
  imports Channel_Scan
begin

text \<open>
  Memory safety of scanning for any channel table a driver may deliver: unlike the scan
  invariant, nothing is said here about the order of the channels or about the limits.  The
  index of the interface is in the table or -1, and every operation keeps it so.
\<close>

definition index_ok :: "uwifi_interface \<Rightarrow> bool" where
  "index_ok intf \<longleftrightarrow> channels_wf (channels intf) \<and> -1 \<le> channel_idx intf \<and> channel_idx intf < num_channels (channels intf)"

definition min_found :: "uwifi_interface \<Rightarrow> bool" where
  "min_found intf \<longleftrightarrow> channel_min intf = 0 \<or> channel_min intf \<in> cf_chan ` set (used (channels intf))"

text \<open>The fields that scanning leaves alone.\<close>

definition same_device :: "uwifi_interface \<Rightarrow> uwifi_interface \<Rightarrow> bool" where
  "same_device a b \<longleftrightarrow> channels b = channels a \<and> sock b = sock a \<and> arphdr b = arphdr a \<and> ifname b = ifname a"

lemma same_device_refl [simp]: "same_device a a"
  by (simp add: same_device_def)

lemma same_device_trans: "same_device a b \<Longrightarrow> same_device b c \<Longrightarrow> same_device a c"
  by (simp add: same_device_def)

subsection \<open>The next channel\<close>

text \<open>The current channel is the last one of the scan, and it is not visited a second time.\<close>

definition scan_wraps :: "uwifi_interface \<Rightarrow> bool" where
  "scan_wraps intf \<longleftrightarrow> num_channels (channels intf) \<le> channel_idx intf + 1 \<or>
     (channel_max intf \<noteq> 0 \<and> channel_max intf < uwifi_channel_get_chan (channels intf) (channel_idx intf + 1))"

definition visits_twice :: "uwifi_interface \<Rightarrow> bool" where
  "visits_twice intf \<longleftrightarrow> cs_width (channel intf) = CHAN_WIDTH_40 \<and> \<not> uwifi_channel_is_ht40plus (channel intf) \<and>
     cf_ht40plus (used (channels intf) ! nat (channel_idx intf))"

lemma next_step_defined:
  assumes wf: "channels_wf (channels intf)" and i: "0 \<le> i" "i < num_channels (channels intf)"
  shows "next_step intf i b = None \<longleftrightarrow>
    \<not> (cs_width (channel intf) = CHAN_WIDTH_40 \<and> \<not> b \<and> cf_ht40plus (used (channels intf) ! nat i)) \<and>
    chan_at (channels intf) (next_increment intf i) = None"
  using chan_at_used [OF wf i] by (auto simp: next_step_def bind_conv split: option.splits)

lemma increment_undefined:
  assumes wf: "channels_wf (channels intf)" and i: "0 \<le> i" "i < num_channels (channels intf)"
  shows "chan_at (channels intf) (next_increment intf i) = None \<longleftrightarrow>
    \<not> min_found intf \<and> (num_channels (channels intf) \<le> i + 1 \<or>
      (channel_max intf \<noteq> 0 \<and> channel_max intf < uwifi_channel_get_chan (channels intf) (i + 1)))"
proof -
  have n: "num_channels (channels intf) \<le> 64" "0 \<le> num_channels (channels intf)"
    using wf by (simp_all add: channels_wf_def MAX_CHANNELS_def)
  have m: "channel_min intf \<noteq> 0 \<Longrightarrow> uwifi_channel_idx_from_chan (channels intf) (channel_min intf) = -1 \<longleftrightarrow> \<not> min_found intf"
    by (simp add: min_found_def by_chan.idx_miss)
  have r: "-1 \<le> uwifi_channel_idx_from_chan (channels intf) (channel_min intf)"
    "uwifi_channel_idx_from_chan (channels intf) (channel_min intf) < 64"
    using idx_from_chan_lt [OF wf, of "channel_min intf"] n by simp_all
  then have c: "chan_at (channels intf) (uwifi_channel_idx_from_chan (channels intf) (channel_min intf)) = None \<longleftrightarrow>
      uwifi_channel_idx_from_chan (channels intf) (channel_min intf) = -1"
    by (auto simp: chan_at_def MAX_CHANNELS_def)
  have z: "chan_at (channels intf) 0 \<noteq> None" by (simp add: chan_at_def MAX_CHANNELS_def)
  have s: "chan_at (channels intf) (i + 1) \<noteq> None" if "i + 1 < num_channels (channels intf)"
    using that i n by (simp add: chan_at_def MAX_CHANNELS_def)
  have mz: "min_found intf" if "channel_min intf = 0" using that by (simp add: min_found_def)
  show ?thesis
    using n c z s m mz by (auto simp: next_increment_def Let_def MAX_CHANNELS_def)
qed

lemma get_next_undefined:
  assumes wf: "channels_wf (channels intf)" and i: "0 \<le> channel_idx intf" "channel_idx intf < num_channels (channels intf)"
  shows "uwifi_channel_get_next intf ch = None \<longleftrightarrow>
    \<not> min_found intf \<and> channel_min intf \<le> cf_chan (used (channels intf) ! nat (channel_idx intf)) \<and>
    scan_wraps intf \<and> \<not> visits_twice intf"
proof -
  let ?cs = "channels intf"
  have g: "uwifi_channel_get_next intf ch = None \<longleftrightarrow> (case next_start intf of (j, k, b) \<Rightarrow> next_step j k b = None)"
    by (auto simp: uwifi_channel_get_next_def bind_conv split: prod.splits)
  have c: "uwifi_channel_get_chan ?cs (channel_idx intf) = cf_chan (used ?cs ! nat (channel_idx intf))"
    by (rule get_chan_used [OF wf i])
  show ?thesis
  proof (cases "channel_min intf \<noteq> 0 \<and> cf_chan (used ?cs ! nat (channel_idx intf)) < channel_min intf")
    case False
    then have "next_start intf = (intf, channel_idx intf, uwifi_channel_is_ht40plus (channel intf))"
      unfolding next_start_def c by (rule if_not_P)
    with g have "uwifi_channel_get_next intf ch = None \<longleftrightarrow> \<not> visits_twice intf \<and> \<not> min_found intf \<and> scan_wraps intf"
      by (simp add: next_step_defined [OF wf i] increment_undefined [OF wf i] visits_twice_def scan_wraps_def)
    with False show ?thesis by (auto simp: min_found_def)
  next
    case True
    let ?k = "uwifi_channel_idx_from_chan ?cs (channel_min intf)"
    show ?thesis
    proof (cases "?k < 0")
      case k: True
      let ?j = "intf\<lparr>channel_min := 0\<rparr>"
      have "next_start intf = (?j, channel_idx intf, True)" using True k by (simp add: next_start_def c)
      moreover have "min_found ?j" by (simp add: min_found_def)
      ultimately show ?thesis
        using True g next_step_defined [of ?j "channel_idx intf" True] increment_undefined [of ?j "channel_idx intf"] wf i by simp
    next
      case k: False
      then have "next_start intf = (intf, ?k, True)" using True by (simp add: next_start_def c Let_def)
      moreover have "min_found intf" using k by_chan.idx_miss [of ?cs "channel_min intf"] by (auto simp: min_found_def)
      moreover have "?k < num_channels ?cs" using idx_from_chan_lt [OF wf] by blast
      ultimately show ?thesis
        using True g next_step_defined [OF wf, of ?k True] increment_undefined [OF wf, of ?k] k by simp
    qed
  qed
qed

text \<open>C37: \<open>uwifi_channel_get_next\<close>, called with a current channel in the table,
  is undefined in exactly one situation: a lower limit is set that no channel of the table has, the
  current channel is not below it, and the scan wraps from here.  Then the code
  looks the limit up, gets -1 and reads the entry before the first one.  Only a current channel below
  the limit makes it reset the limit.\<close>

theorem get_next_undefined_iff:
  assumes wf: "channels_wf (channels intf)" and i: "0 \<le> channel_idx intf" "channel_idx intf < num_channels (channels intf)"
  shows "uwifi_channel_get_next intf ch = None \<longleftrightarrow>
    \<not> min_found intf \<and> channel_min intf \<le> cf_chan (used (channels intf) ! nat (channel_idx intf)) \<and>
    scan_wraps intf \<and> \<not> visits_twice intf"
  by (rule get_next_undefined [OF assms])

lemma get_next_undefined_iff_witness:
  "uwifi_channel_get_next (intf2\<lparr>channel_min := 3, channel_idx := 1\<rparr>) zero_spec = None"
proof -
  let ?i = "intf2\<lparr>channel_min := 3, channel_idx := 1\<rparr>"
  have "channels_wf (channels ?i)" "0 \<le> channel_idx ?i" "channel_idx ?i < num_channels (channels ?i)"
    using table2_wf table2_distinct(2) by (simp_all add: intf2_def)
  from get_next_undefined_iff [OF this, of zero_spec] show ?thesis
    using table2_distinct(2)
    by (simp add: min_found_def scan_wraps_def visits_twice_def intf2_def zero_spec_def table2_used)
qed

subsection \<open>Changing the channel keeps the index in the table\<close>

lemma change_index_ok:
  assumes "index_ok intf" "uwifi_channel_change P intf ch w = (ok, intf', w')"
  shows "index_ok intf' \<and> same_device intf intf' \<and> channel_min intf' = channel_min intf"
proof -
  have "channels_wf (channels intf)" using assms(1) by (simp add: index_ok_def)
  note r = idx_from_freq_lt [OF this, of "cs_freq ch"]
  show ?thesis
    by (rule channel_change_cases [where P = P and intf = intf and ch = ch and w = w])
      (use assms r in \<open>auto simp: index_ok_def same_device_def\<close>)
qed

lemma change_found:
  assumes "index_ok intf" "cs_freq ch \<in> cf_freq ` set (used (channels intf))" "0 \<le> channel_idx intf"
    "uwifi_channel_change P intf ch w = (ok, intf', w')"
  shows "0 \<le> channel_idx intf'"
proof -
  have "uwifi_channel_idx_from_freq (channels intf) (cs_freq ch) \<noteq> -1"
    using assms(2) by (simp add: by_freq.idx_found)
  moreover have "channels_wf (channels intf)" using assms(1) by (simp add: index_ok_def)
  ultimately have r: "0 \<le> uwifi_channel_idx_from_freq (channels intf) (cs_freq ch)"
    using idx_from_freq_lt [of "channels intf" "cs_freq ch"] by auto
  show ?thesis
    by (rule channel_change_cases [where P = P and intf = intf and ch = ch and w = w]) (use assms(3,4) r in auto)
qed

text \<open>The next channel is one of the table, and only a limit that is not found is reset.\<close>

lemma get_next_table:
  assumes ok: "index_ok intf" "0 \<le> channel_idx intf" "min_found intf" and run: "uwifi_channel_get_next intf ch = Some (intf', ch')"
  shows "intf' = intf \<and> cs_freq ch' \<in> cf_freq ` set (used (channels intf))"
proof -
  have wf: "channels_wf (channels intf)" and i: "channel_idx intf < num_channels (channels intf)"
    using ok by (simp_all add: index_ok_def)
  let ?k = "uwifi_channel_idx_from_chan (channels intf) (channel_min intf)"
  have k: "0 \<le> ?k \<and> ?k < num_channels (channels intf)" if "channel_min intf \<noteq> 0"
    using that ok(3) by_chan.idx_miss [of "channels intf" "channel_min intf"] idx_from_chan_lt [OF wf, of "channel_min intf"]
    by (auto simp: min_found_def)
  have at: "e \<in> set (used (channels intf))" if "chan_at (channels intf) j = Some e" "j < num_channels (channels intf)" for j e
    using that used_in [OF wf, of j] by (auto simp: chan_at_def split: if_splits)
  have inc: "next_increment intf j < num_channels (channels intf)" if "j < num_channels (channels intf)" for j
    using k i ok(2) by (auto simp: next_increment_def Let_def)
  obtain j b where s: "next_start intf = (intf, j, b)" "j < num_channels (channels intf)"
    using k i by (cases "channel_min intf \<noteq> 0 \<and>
        uwifi_channel_get_chan (channels intf) (channel_idx intf) < channel_min intf") (auto simp: next_start_def Let_def)
  from run s(1) obtain e b' where e: "next_step intf j b = Some (e, b')" "intf' = intf" "cs_freq ch' = cf_freq e"
    by (auto simp: uwifi_channel_get_next_def bind_conv)
  then have "e \<in> set (used (channels intf))"
    using at [of j] at [of "next_increment intf j"] s(2) inc [OF s(2)]
    by (auto simp: next_step_def bind_conv split: if_splits option.splits)
  with e show ?thesis by blast
qed

lemma auto_loop_safe:
  "index_ok intf \<Longrightarrow> 0 \<le> channel_idx intf \<Longrightarrow> min_found intf \<Longrightarrow>
   \<exists>ok intf' w'. auto_loop P tries intf ch w = Some (ok, intf', w') \<and> index_ok intf' \<and> same_device intf intf' \<and>
     channel_min intf' = channel_min intf"
proof (induction P tries intf ch w rule: auto_loop.induct)
  case (1 P tries intf ch w)
  have "channels_wf (channels intf)" "channel_idx intf < num_channels (channels intf)"
    using 1(2) by (simp_all add: index_ok_def)
  then have "uwifi_channel_get_next intf ch \<noteq> None" using get_next_undefined [of intf ch] 1(3,4) by simp
  then obtain i c where n: "uwifi_channel_get_next intf ch = Some (i, c)" by (metis option.exhaust surj_pair)
  note t = get_next_table [OF 1(2,3,4) n]
  obtain ok intf1 w1 where c: "uwifi_channel_change P intf c w = (ok, intf1, w1)" by (metis prod_cases3)
  have s: "index_ok intf1" "same_device intf intf1" "channel_min intf1 = channel_min intf"
    using change_index_ok [OF 1(2) c] by simp_all
  have z: "0 \<le> channel_idx intf1" using change_found [OF 1(2) _ 1(3) c] t by blast
  have m: "min_found intf1" using 1(4) s by (simp add: min_found_def same_device_def)
  have e: "auto_loop P tries intf ch w = (if \<not> ok \<and> tries - 1 > 0 then auto_loop P (tries - 1) intf1 c w1 else Some (ok, intf1, w1))"
    using n t c by (subst auto_loop.simps) simp
  show ?case
  proof (cases "\<not> ok \<and> tries - 1 > 0")
    case True
    with t n c have "\<exists>ok intf' w'. auto_loop P (tries - 1) intf1 c w1 = Some (ok, intf', w') \<and> index_ok intf' \<and>
        same_device intf1 intf' \<and> channel_min intf' = channel_min intf1"
      by (intro 1(1) [OF n refl _ refl True s(1) z m]) simp_all
    with True s same_device_trans [OF s(2)] show ?thesis unfolding e by auto
  next
    case False
    with s show ?thesis unfolding e by auto
  qed
qed

text \<open>\<open>uwifi_channel_auto_change\<close> returns for every table, as long as the lower limit is a channel of it.\<close>

lemma auto_change_safe:
  assumes ok: "index_ok intf" and m: "channel_scan intf \<Longrightarrow> min_found intf"
  shows "\<exists>r intf' w'. uwifi_channel_auto_change P intf w = Some (r, intf', w') \<and> index_ok intf' \<and> same_device intf intf'"
proof (cases "\<not> channel_scan intf \<or> channel_idx intf = -1")
  case True
  with ok show ?thesis by (auto simp: uwifi_channel_auto_change_def)
next
  case False
  then have z: "0 \<le> channel_idx intf" using ok by (auto simp: index_ok_def)
  obtain now w1 where t: "plat_time_usec P w = (now, w1)" by force
  from auto_loop_safe [OF ok z, of P "auto_tries intf" zero_spec w1] m False obtain b intf1 w2 where
    l: "auto_loop P (auto_tries intf) intf zero_spec w1 = Some (b, intf1, w2)" "index_ok intf1" "same_device intf intf1"
    by auto
  obtain now2 w3 where t2: "plat_time_usec P w2 = (now2, w3)" by force
  have "uwifi_channel_auto_change P intf w =
      (if uwifi_channel_get_remaining_dwell_time intf now > 0 then Some (0, intf, w1)
       else if \<not> b then Some (-1, intf1\<lparr>last_channelchange := now2\<rparr>, w3) else Some (1, intf1, w2))"
    using False by (simp add: uwifi_channel_auto_change_def t l(1) t2)
  moreover have "index_ok (intf1\<lparr>last_channelchange := now2\<rparr>)" "same_device intf (intf1\<lparr>last_channelchange := now2\<rparr>)"
    using l by (simp_all add: index_ok_def same_device_def)
  ultimately show ?thesis using ok l(2,3) by auto
qed

subsection \<open>Initialisation leaves the index in the table\<close>

lemma channel_init_index:
  assumes f: "ifctrl_iwget_freqlist P intf w = (intf1, w1)" and wf: "channels_wf (channels intf1)"
    and run: "uwifi_channel_init P intf w = Some (ok, intf', w')" and ok: "ok"
  shows "index_ok intf'"
proof -
  obtain now w2 where t: "plat_time_usec P w1 = (now, w2)" by force
  define i1 where "i1 = intf1\<lparr>channel_initialized := True, channel_idx := -1, last_channelchange := now\<rparr>"
  define i2 where "i2 = i1\<lparr>channels := check_all_capab (channels i1)\<rparr>"
  have wf2: "channels_wf (channels i2)" using check_all_capab_result(2) [OF wf] by (simp add: i1_def i2_def)
  have i2: "index_ok i2" using wf2 by (simp add: index_ok_def channels_wf_def) (simp add: i1_def i2_def)
  have ch: "index_ok i'" if "uwifi_channel_change P j c v = (b, i', v')" "index_ok j" for j c v b i' v'
    using change_index_ok [OF that(2,1)] by simp
  have cur: "index_ok intf'" if "init_from_current P i2 w2 = Some (r, intf', w')" for r
  proof -
    define j where "j = i2\<lparr>channel_idx := uwifi_channel_idx_from_freq (channels i2) (cs_freq (channel i2)), channel_set := channel i2\<rparr>"
    have j: "index_ok (j\<lparr>max_phy_rate := m, channel_set := c\<rparr>)" "index_ok (j\<lparr>max_phy_rate := m\<rparr>)" for m c
      using wf2 idx_from_freq_lt [OF wf2] by (simp_all add: index_ok_def j_def)
    define b where "b = channel_get_band_from_idx (channels j) (channel_idx j)"
    define k where "k = j\<lparr>max_phy_rate := word_of_int (wlan_max_phy_rate (bd_max_chan_width b) (bd_streams_rx b))\<rparr>"
    from that obtain e where "intf' = k \<or> (\<exists>c. \<exists>b v. uwifi_channel_change P (k\<lparr>channel_set := c\<rparr>) c w2 = (b, intf', v))"
      unfolding init_from_current_def j_def [symmetric] Let_def b_def [symmetric] k_def [symmetric] prod.case_distrib
      by (auto simp: bind_conv split: if_splits prod.splits) (metis surj_pair)+
    then show ?thesis using j unfolding k_def by (auto dest!: ch)
  qed
  have "(if num_bands (channels i2) \<le> 0 \<or> num_channels (channels i2) \<le> 0 then Some (False, i2, w2)
     else if cs_freq (channel_set i2) > 0 then Some (uwifi_channel_change P i2 (channel_set i2) w2)
     else if cs_freq (channel i2) = 0 then Some (True, i2\<lparr>max_phy_rate := word_of_int (wlan_max_phy_rate
                (bd_max_chan_width (bands (channels i2) ! 0)) (bd_streams_rx (bands (channels i2) ! 0))),
              channel_idx := -1\<rparr>, w2)
     else init_from_current P i2 w2) = Some (ok, intf', w')"
    using run unfolding uwifi_channel_init_def f t Let_def prod.case i1_def [symmetric] i2_def [symmetric] .
  moreover have "index_ok (i2\<lparr>max_phy_rate := m, channel_idx := -1\<rparr>)" for m
    using wf2 by (simp add: index_ok_def channels_wf_def)
  ultimately show ?thesis using i2 ok by (auto split: if_splits dest!: ch [OF _ i2] cur)
qed

end
