(* ===== verification/Interface.thy ===== *)
theory Interface
  imports Netdev Network Raw_Parser Scan_Safety
begin

text \<open>
  \<open>linux/interface.c\<close>: bringing a monitor interface up and down, and \<open>core/ifctrl-dummy.c\<close>,
  the interface control of platforms that have none.

  The driver is the record \<open>platform\<close> of the channel model together with the function
  \<open>ifctrl_iwget_interface_info\<close>, the argument \<open>info\<close>; both work on the world below the
  file descriptors of \<open>Netdev\<close>.  The list head \<open>wlan_nodes\<close> is \<open>NODES\<close> in the node heap.
\<close>

subsection \<open>Bringing an interface up and down\<close>

text \<open>\<open>Inl\<close> is the exit status of a process that has ended, \<open>Inr\<close> the result of \<open>uwifi_init\<close>.\<close>

type_synonym 'w info_call = "uwifi_interface \<Rightarrow> 'w \<Rightarrow> (bool \<times> uwifi_interface) \<times> 'w"

definition init_channels ::
    "'w platform \<Rightarrow> 'w info_call \<Rightarrow> uwifi_interface \<Rightarrow> 'w os \<Rightarrow> (bool \<times> uwifi_interface \<times> 'w os) option" where
  "init_channels P info intf s =
    (let ((ok, intf), s) = os_run (info intf) s in
     if \<not> ok then Some (False, intf, s)
     else do {
       (ok, intf, w) \<leftarrow> uwifi_channel_init P intf (os_world s);
       Some (ok, intf, s\<lparr>os_world := w\<rparr>) })"

definition init_device ::
    "'w platform \<Rightarrow> 'w info_call \<Rightarrow> 'w syscalls \<Rightarrow> uwifi_interface \<Rightarrow> 'w os \<Rightarrow>
     (bool \<times> uwifi_interface \<times> 'w os) option" where
  "init_device P info K intf s =
    (let (ok, s) = netdev_set_up_promisc K (ifname intf) True True s in
     if \<not> ok then Some (False, intf, s)
     else
       (let (hw, s) = netdev_get_hwinfo K (ifname intf) s; intf = intf\<lparr>arphdr := hw\<rparr> in
        if arphdr intf \<noteq> ARPHRD_IEEE80211_RADIOTAP \<and> arphdr intf \<noteq> ARPHRD_IEEE80211_PRISM
        then Some (False, intf, s)
        else init_channels P info intf s))"

definition init_socket ::
    "'w platform \<Rightarrow> 'w info_call \<Rightarrow> 'w syscalls \<Rightarrow> uwifi_interface \<Rightarrow> 'w os \<Rightarrow>
     ((int + bool) \<times> uwifi_interface \<times> 'w os) option" where
  "init_socket P info K intf s =
    (case packet_socket_open K (ifname intf) s of
       (Inl status, s) \<Rightarrow> Some (Inl status, intf, s)
     | (Inr fd, s) \<Rightarrow>
         (let intf = intf\<lparr>sock := fd\<rparr> in
          if sock intf < 0 then Some (Inr False, intf, s)
          else do {
            (ok, intf, s) \<leftarrow> init_device P info K intf s;
            Some (Inr ok, intf, s) }))"

definition uwifi_init ::
    "'w platform \<Rightarrow> 'w info_call \<Rightarrow> 'w syscalls \<Rightarrow> uwifi_interface \<Rightarrow> wheap \<Rightarrow> 'w os \<Rightarrow>
     ((int + bool) \<times> uwifi_interface \<times> wheap \<times> 'w os) option" where
  "uwifi_init P info K intf h s = do {
     h \<leftarrow> on_links (\<lambda>l. cc_list_head_init l NODES) h;
     let (now, s) = os_run (plat_time_usec P) s;
     (r, intf, s) \<leftarrow> init_socket P info K (intf\<lparr>channel_idx := -1, last_channelchange := now\<rparr>) s;
     Some (r, intf, h, s) }"

definition uwifi_fini ::
    "'w syscalls \<Rightarrow> uwifi_interface \<Rightarrow> wheap \<Rightarrow> 'w os \<Rightarrow> (uwifi_interface \<times> wheap \<times> 'w os) option" where
  "uwifi_fini K intf h s =
    (let (intf, s) = (if sock intf > 0 then (intf\<lparr>sock := -1\<rparr>, os_close (sock intf) s) else (intf, s));
         (ok, s) = netdev_set_up_promisc K (ifname intf) True False s in do {
       h \<leftarrow> uwifi_nodes_free NODES h;
       Some (intf, h, s) })"

subsection \<open>The dummy interface control\<close>

definition dummy_init :: bool where "dummy_init = True"
definition dummy_finish :: "'w \<Rightarrow> 'w" where "dummy_finish w = w"
definition dummy_iwadd_monitor :: "string \<Rightarrow> string \<Rightarrow> bool" where "dummy_iwadd_monitor interface monitor_interface = False"
definition dummy_iwdel :: "string \<Rightarrow> bool" where "dummy_iwdel interface = False"
definition dummy_iwset_monitor :: "string \<Rightarrow> bool" where "dummy_iwset_monitor interface = False"

definition dummy_iwset_freq :: "string \<Rightarrow> u32 \<Rightarrow> uwifi_chan_width \<Rightarrow> u32 \<Rightarrow> bool" where
  "dummy_iwset_freq interface freq width center1 = False"

definition dummy_iwget_interface_info :: "'w info_call" where
  "dummy_iwget_interface_info intf w = ((False, intf), w)"

definition dummy_iwget_freqlist :: "uwifi_interface \<Rightarrow> bool \<times> uwifi_interface" where
  "dummy_iwget_freqlist intf = (False, intf)"

definition dummy_is_monitor :: "uwifi_interface \<Rightarrow> bool" where "dummy_is_monitor intf = True"

text \<open>The dummy functions as a driver, with a clock of the platform.\<close>

definition dummy_platform :: "('w \<Rightarrow> u32 \<times> 'w) \<Rightarrow> 'w platform" where
  "dummy_platform clock = \<lparr>plat_time_usec = clock,
     ifctrl_iwset_freq = (\<lambda>name f width center w. (dummy_iwset_freq name f width center, w)),
     ifctrl_iwget_freqlist = (\<lambda>intf w. (snd (dummy_iwget_freqlist intf), w))\<rparr>"

subsection \<open>Descriptors and channels after initialisation\<close>

lemma packet_socket_cases:
  obtains (exit) s' where "packet_socket_open K name s = (Inl 1, s')"
  | (unknown) s' where "packet_socket_open K name s = (Inr (-1), s')" "os_fds s' = os_fds s @ [lowest_free (os_fds s)]"
  | (opened) s' where "packet_socket_open K name s = (Inr (int (lowest_free (os_fds s))), s')"
      "os_fds s' = os_fds s @ [lowest_free (os_fds s)]"
proof (cases K Packet_Socket s rule: os_socket_cases)
  case (none s1)
  then show thesis using exit [of s1] by (simp add: packet_socket_open_def)
next
  case (some fd s1)
  obtain i s2 where i: "os_run (sys_ifindex K name) s1 = (i, s2)" by force
  obtain r s3 where r: "os_run (sys_bind K fd i) s2 = (r, s3)" by force
  have fds: "os_fds s2 = os_fds s @ [fd]" "os_fds s3 = os_fds s @ [fd]" using i r some by simp_all
  have "packet_socket_open K name s = (if i = 0 then (Inr (-1), s2) else if r \<noteq> 0 then (Inl 1, s3) else (Inr (int fd), s3))"
    using some i r by (simp add: packet_socket_open_def)
  then show thesis using exit [of s3] unknown [of s2] opened [of s3] fds some by (cases "i = 0"; cases "r = 0") simp_all
qed

lemma init_device_undefined:
  "init_device P info K intf s = None \<Longrightarrow> \<exists>i w. uwifi_channel_init P i w = None"
  by (auto simp: init_device_def init_channels_def Let_def bind_conv split: prod.splits if_splits)

lemma fini_closes:
  assumes t: "tables_inv h" and fds: "os_fds s = fds @ [lowest_free fds]"
    and fd: "sock intf = -1 \<or> sock intf = int (lowest_free fds)"
  shows "\<exists>intf' h' s'. uwifi_fini K intf h s = Some (intf', h', s') \<and> sock intf' \<le> 0 \<and> node_at h' = Map.empty \<and>
    os_fds s' = (if 0 < sock intf then fds else fds @ [lowest_free fds])"
proof -
  from t obtain T where "tables_ok h T" by (auto simp: tables_inv_def)
  from nodes_free_run [OF this] obtain h' where h': "uwifi_nodes_free NODES h = Some h'" "node_at h' = Map.empty" by blast
  show ?thesis
  proof (cases "0 < sock intf")
    case True
    obtain ok s2 where up: "netdev_set_up_promisc K (ifname intf) True False (os_close (sock intf) s) = (ok, s2)" by force
    have "os_fds s2 = fds"
      using netdev_closes(5) [of K "ifname intf" True False "os_close (sock intf) s"] up close_new [OF fds refl] fd True by simp
    with True up h' show ?thesis by (simp add: uwifi_fini_def)
  next
    case False
    obtain ok s2 where up: "netdev_set_up_promisc K (ifname intf) True False s = (ok, s2)" by force
    have "os_fds s2 = fds @ [lowest_free fds]"
      using netdev_closes(5) [of K "ifname intf" True False s] up fds by simp
    with False up h' show ?thesis by (simp add: uwifi_fini_def)
  qed
qed

text \<open>
  What the interface set-up asks of a driver: the channel list goes to the channel table, which
  stays well formed, and the information about the interface leaves socket, device type, name
  and table alone.  \<open>channel_driver\<close> is the same contract as an interface, with what follows from it.
\<close>

definition table_driver :: "'w platform \<Rightarrow> 'w info_call \<Rightarrow> bool" where
  "table_driver P info \<longleftrightarrow>
     (\<forall>intf w. \<exists>cs w'. ifctrl_iwget_freqlist P intf w = (intf\<lparr>channels := cs\<rparr>, w') \<and>
        (channels_wf (channels intf) \<longrightarrow> channels_wf cs)) \<and>
     (\<forall>intf w. \<exists>r intf' w'. info intf w = ((r, intf'), w') \<and> same_device intf intf')"

locale channel_driver =
  fixes P :: "'w platform" and info :: "'w info_call"
  assumes freqlist_table: "\<exists>cs w'. ifctrl_iwget_freqlist P intf w = (intf\<lparr>channels := cs\<rparr>, w') \<and>
      (channels_wf (channels intf) \<longrightarrow> channels_wf cs)"
    and info_device: "\<exists>r intf' w'. info intf w = ((r, intf'), w') \<and> same_device intf intf'"
begin

lemma is_table_driver: "table_driver P info"
  using freqlist_table info_device by (simp add: table_driver_def)

lemma channel_init_result:
  assumes run: "uwifi_channel_init P intf w = Some (ok, intf', w')"
  shows "sock intf' = sock intf \<and> arphdr intf' = arphdr intf \<and> ifname intf' = ifname intf \<and>
    (ok \<longrightarrow> 0 < num_bands (channels intf') \<and> 0 < num_channels (channels intf') \<and>
      (channels_wf (channels intf) \<longrightarrow> index_ok intf'))"
proof -
  obtain cs w1 where f: "ifctrl_iwget_freqlist P intf w = (intf\<lparr>channels := cs\<rparr>, w1)"
    "channels_wf (channels intf) \<longrightarrow> channels_wf cs" using freqlist_table by blast
  from channel_init_channels [OF f(1) run] channel_init_index [OF f(1) _ run] f(2) show ?thesis by auto
qed

lemma init_device_result:
  assumes run: "init_device P info K intf s = Some (ok, intf', s')"
  shows "os_fds s' = os_fds s \<and> sock intf' = sock intf \<and>
    (ok \<longrightarrow> (arphdr intf' = ARPHRD_IEEE80211_RADIOTAP \<or> arphdr intf' = ARPHRD_IEEE80211_PRISM) \<and>
       0 < num_bands (channels intf') \<and> 0 < num_channels (channels intf') \<and> (channels_wf (channels intf) \<longrightarrow> index_ok intf'))"
proof -
  obtain up s1 where 1: "netdev_set_up_promisc K (ifname intf) True True s = (up, s1)" by force
  obtain hw s2 where 2: "netdev_get_hwinfo K (ifname intf) s1 = (hw, s2)" by force
  define j where "j = intf\<lparr>arphdr := hw\<rparr>"
  have j: "sock j = sock intf" "arphdr j = hw" "channels j = channels intf" by (simp_all add: j_def)
  have fds: "os_fds s1 = os_fds s" "os_fds s2 = os_fds s"
    using netdev_closes(5) [of K "ifname intf" True True s] netdev_closes(1) [of K "ifname intf" s1] 1 2 by simp_all
  from info_device [of j "os_world s2"] obtain r i3 w3 where
    i: "info j (os_world s2) = ((r, i3), w3)" "sock i3 = sock intf" "arphdr i3 = hw" "channels i3 = channels intf"
    using j by (auto simp: same_device_def)
  have c: "init_channels P info j s2 = (if \<not> r then Some (False, i3, s2\<lparr>os_world := w3\<rparr>)
      else do { (ok, k, w) \<leftarrow> uwifi_channel_init P i3 w3; Some (ok, k, s2\<lparr>os_world := w\<rparr>) })"
    by (simp add: init_channels_def os_run_def i(1))
  have e: "init_device P info K intf s =
      (if \<not> up then Some (False, intf, s1)
       else if hw \<noteq> ARPHRD_IEEE80211_RADIOTAP \<and> hw \<noteq> ARPHRD_IEEE80211_PRISM then Some (False, j, s2)
       else init_channels P info j s2)"
    unfolding init_device_def 1 2 Let_def prod.case j_def [symmetric] j(2) ..
  show ?thesis
  proof (cases "up \<and> (hw = ARPHRD_IEEE80211_RADIOTAP \<or> hw = ARPHRD_IEEE80211_PRISM) \<and> r")
    case False
    with run [unfolded e c] i fds j show ?thesis by (auto split: if_splits)
  next
    case True
    with run [unfolded e c] obtain w4 where c: "uwifi_channel_init P i3 w3 = Some (ok, intf', w4)" "os_fds s' = os_fds s2"
      by (auto simp: bind_conv)
    from channel_init_result [OF c(1)] c(2) i fds True show ?thesis by auto
  qed
qed

lemma init_socket_result:
  shows "case init_socket P info K intf s of
      None \<Rightarrow> \<exists>i w. uwifi_channel_init P i w = None
    | Some (Inl status, _) \<Rightarrow> status = 1
    | Some (Inr ok, intf', s') \<Rightarrow>
        os_fds s' = os_fds s @ [lowest_free (os_fds s)] \<and>
        (sock intf' = -1 \<or> sock intf' = int (lowest_free (os_fds s))) \<and>
        (ok \<longrightarrow> 0 \<le> sock intf' \<and> (arphdr intf' = ARPHRD_IEEE80211_RADIOTAP \<or> arphdr intf' = ARPHRD_IEEE80211_PRISM) \<and>
           0 < num_bands (channels intf') \<and> 0 < num_channels (channels intf') \<and>
           (channels_wf (channels intf) \<longrightarrow> index_ok intf'))"
proof (rule packet_socket_cases [of K "ifname intf" s])
  fix s1 assume o: "packet_socket_open K (ifname intf) s = (Inr (int (lowest_free (os_fds s))), s1)"
    "os_fds s1 = os_fds s @ [lowest_free (os_fds s)]"
  let ?j = "intf\<lparr>sock := int (lowest_free (os_fds s))\<rparr>"
  have e: "init_socket P info K intf s = do { (ok, i, t) \<leftarrow> init_device P info K ?j s1; Some (Inr ok, i, t) }"
    by (simp add: init_socket_def o(1))
  show ?thesis
  proof (cases "init_device P info K ?j s1")
    case None
    with e init_device_undefined [OF None] show ?thesis by simp
  next
    case (Some r)
    obtain ok i t where r: "r = (ok, i, t)" by (cases r)
    from init_device_result [OF Some [unfolded r]] e Some r o(2) show ?thesis by simp
  qed
qed (simp_all add: init_socket_def)

lemma init_ready:
  assumes wf: "channels_wf (channels intf)" and run: "uwifi_init P info K intf h s = Some (Inr True, intf', h', s')"
  shows "on_links (\<lambda>l. cc_list_head_init l NODES) h = Some h' \<and> index_ok intf' \<and>
    sock intf' = int (lowest_free (os_fds s)) \<and> os_fds s' = os_fds s @ [lowest_free (os_fds s)] \<and>
    (arphdr intf' = ARPHRD_IEEE80211_RADIOTAP \<or> arphdr intf' = ARPHRD_IEEE80211_PRISM) \<and> 0 < num_channels (channels intf')"
proof -
  obtain now s1 where t: "os_run (plat_time_usec P) s = (now, s1)" by force
  then have fds1: "os_fds s1 = os_fds s" by simp
  define i1 where "i1 = intf\<lparr>channel_idx := -1, last_channelchange := now\<rparr>"
  from run have r: "on_links (\<lambda>l. cc_list_head_init l NODES) h = Some h'" "init_socket P info K i1 s1 = Some (Inr True, intf', s')"
    by (auto simp: uwifi_init_def t i1_def bind_conv)
  have "channels_wf (channels i1)" using wf by (simp add: i1_def)
  note i = init_socket_result [where K = K and intf = i1 and s = s1, unfolded r(2) option.case prod.case sum.case fds1]
  then have "0 \<le> sock intf'" by blast
  with i have "sock intf' = int (lowest_free (os_fds s))" by (elim conjE disjE) simp_all
  with i r(1) \<open>channels_wf (channels i1)\<close> show ?thesis by blast
qed

end

lemma table_driver_iff: "table_driver P info \<longleftrightarrow> channel_driver P info"
  by (auto simp: channel_driver.is_table_driver) (auto simp: channel_driver_def table_driver_def)

text \<open>The dummy interface control keeps the contract.\<close>

interpretation dummy: channel_driver "dummy_platform clock" dummy_iwget_interface_info for clock
proof
  fix intf :: uwifi_interface and w :: 'a
  show "\<exists>cs w'. ifctrl_iwget_freqlist (dummy_platform clock) intf w = (intf\<lparr>channels := cs\<rparr>, w') \<and>
      (channels_wf (channels intf) \<longrightarrow> channels_wf cs)"
    by (intro exI [of _ "channels intf"] exI [of _ w]) (simp add: dummy_platform_def dummy_iwget_freqlist_def)
  show "\<exists>r intf' w'. dummy_iwget_interface_info intf w = ((r, intf'), w') \<and> same_device intf intf'"
    by (intro exI [of _ False] exI [of _ intf] exI [of _ w]) (simp add: dummy_iwget_interface_info_def)
qed

text \<open>C16: \<open>uwifi_init\<close> with a driver that only fills in the channel table is
  undefined only where \<open>uwifi_channel_init\<close> is.  When it does not end the process it has
  initialised the node list and opened exactly one descriptor, the packet socket: the other
  sockets are closed on all paths.  When it succeeds the interface is in monitor mode and has
  channels.  \<open>uwifi_fini\<close>, also after a failed \<open>uwifi_init\<close>, frees all nodes and closes the
  packet socket if its number is kept and not 0; an interface without number leaks it, since
  \<open>packet_socket_open\<close> returns -1 and forgets it.\<close>

theorem init_fini_spec:
  assumes D: "table_driver P info" and h: "links h NODES \<noteq> None"
  shows "case uwifi_init P info K intf h s of
      None \<Rightarrow> \<exists>i w. uwifi_channel_init P i w = None
    | Some (Inl status, _) \<Rightarrow> status = 1
    | Some (Inr ok, intf', h', s') \<Rightarrow>
        is_list (links h') NODES [] \<and>
        os_fds s' = os_fds s @ [lowest_free (os_fds s)] \<and>
        (sock intf' = -1 \<or> sock intf' = int (lowest_free (os_fds s))) \<and>
        (ok \<longrightarrow> 0 \<le> sock intf' \<and> (arphdr intf' = ARPHRD_IEEE80211_RADIOTAP \<or> arphdr intf' = ARPHRD_IEEE80211_PRISM) \<and>
           0 < num_bands (channels intf') \<and> 0 < num_channels (channels intf')) \<and>
        (\<forall>h2. tables_inv h2 \<longrightarrow> (\<exists>intf2 h3 s2. uwifi_fini K intf' h2 s' = Some (intf2, h3, s2) \<and> sock intf2 \<le> 0 \<and>
           node_at h3 = Map.empty \<and> os_fds s2 = (if 0 < sock intf' then os_fds s else os_fds s')))"
proof -
  from h have "NODES \<in> dom (links h)" by (simp only: domIff not_not) simp
  then obtain l where l: "cc_list_head_init (links h) NODES = Some l" "is_list l NODES []" by (rule head_init_list)
  define h1 where "h1 = h\<lparr>links := l\<rparr>"
  have h1: "on_links (\<lambda>l. cc_list_head_init l NODES) h = Some h1" "is_list (links h1) NODES []"
    using l by (simp_all add: on_links_def h1_def)
  obtain now s1 where t: "os_run (plat_time_usec P) s = (now, s1)" by force
  then have fds1: "os_fds s1 = os_fds s" by simp
  define i1 where "i1 = intf\<lparr>channel_idx := -1, last_channelchange := now\<rparr>"
  have u: "uwifi_init P info K intf h s = do { (r, i, t) \<leftarrow> init_socket P info K i1 s1; Some (r, i, h1, t) }"
    by (simp add: uwifi_init_def h1(1) t i1_def)
  note r = channel_driver.init_socket_result [OF D [unfolded table_driver_iff], where K = K and intf = i1 and s = s1, unfolded fds1]
  show ?thesis
  proof (cases "init_socket P info K i1 s1")
    case None
    with u r show ?thesis by simp
  next
    case (Some x)
    then obtain res i t where x: "init_socket P info K i1 s1 = Some (res, i, t)" by (cases x) auto
    show ?thesis
    proof (cases res)
      case (Inl st)
      with u r x show ?thesis by simp
    next
      case (Inr ok)
      with r x have k: "os_fds t = os_fds s @ [lowest_free (os_fds s)]"
        "sock i = -1 \<or> sock i = int (lowest_free (os_fds s))" by simp_all
      have fin: "\<forall>h2. tables_inv h2 \<longrightarrow> (\<exists>intf2 h3 s2. uwifi_fini K i h2 t = Some (intf2, h3, s2) \<and> sock intf2 \<le> 0 \<and>
           node_at h3 = Map.empty \<and> os_fds s2 = (if 0 < sock i then os_fds s else os_fds t))"
        unfolding k(1) by (intro allI impI) (rule fini_closes [OF _ k])
      have e: "uwifi_init P info K intf h s = Some (Inr ok, i, h1, t)" using u x Inr by simp
      show ?thesis unfolding e option.case prod.case sum.case
        using r [unfolded x Inr option.case prod.case sum.case] h1(2) fin by blast
    qed
  qed
qed

definition good_info :: "u32 info_call" where "good_info intf w = ((True, intf), w)"

text \<open>A kernel that reports a radiotap interface.\<close>

definition good_kernel :: "u32 syscalls" where
  "good_kernel = \<lparr>sys_socket = (\<lambda>k w. (True, w)), sys_ioctl = (\<lambda>fd req ifr w. (0, ifr\<lparr>ifr_union := 803\<rparr>, w)),
     sys_ifindex = (\<lambda>n w. (3, w)), sys_bind = (\<lambda>fd i w. (0, w)), sys_recv = (\<lambda>fd n w. ((-1, []), w)),
     sys_monotonic = (\<lambda>w. ((0, 0), w))\<rparr>"

definition three_fds :: "u32 os" where "three_fds = \<lparr>os_fds = [0, 1, 2], os_world = 7\<rparr>"

lemma good_driver: "table_driver good_platform good_info"
  unfolding table_driver_def good_platform_def good_info_def
proof (intro conjI allI)
  fix intf :: uwifi_interface and w :: u32
  show "\<exists>cs w'. ifctrl_iwget_freqlist \<lparr>plat_time_usec = \<lambda>w. (w, w + 1000000),
      ifctrl_iwset_freq = \<lambda>name f width center w. (True, w), ifctrl_iwget_freqlist = \<lambda>intf w. (intf, w)\<rparr> intf w =
      (intf\<lparr>channels := cs\<rparr>, w') \<and> (channels_wf (channels intf) \<longrightarrow> channels_wf cs)"
    by (intro exI [of _ "channels intf"] exI [of _ w]) simp
qed auto

lemma lowest_example: "lowest_free [0, Suc 0, 2] = 3" "lowest_free [0, Suc 0, 2, 3] = 4"
  by (simp_all add: lowest_free_def upt_rec)

lemma init_example:
  "\<exists>intf' h' s'. uwifi_init good_platform good_info good_kernel (intf2\<lparr>channel := zero_spec\<rparr>) blank_heap three_fds =
     Some (Inr True, intf', h', s')"
proof -
  let ?i = "intf2\<lparr>channel := zero_spec\<rparr>"
  have l: "on_links (\<lambda>l. cc_list_head_init l NODES) blank_heap \<noteq> None"
    by (simp add: on_links_def cc_list_head_init_def blank_heap_def set_next_def set_prev_def)
  have n: "num_bands (check_all_capab table2) = 1" "num_channels (check_all_capab table2) = 2"
    using check_all_capab_result(1) [OF table2_wf] by (simp_all add: same_keys_def table2_def)
  have u: "ucast (803 :: 128 word) = (803 :: u16)" by simp
  have up: "netdev_set_up_promisc good_kernel name True True (s\<lparr>os_fds := [0, Suc 0, 2, 3]\<rparr>) = (True, s\<lparr>os_fds := [0, Suc 0, 2, 3]\<rparr>)"
    for name s
    by (simp add: netdev_set_up_promisc_def os_socket_def os_ioctl_def os_close_def good_kernel_def lowest_example Let_def)
  have hw: "netdev_get_hwinfo good_kernel name (s\<lparr>os_fds := [0, Suc 0, 2, 3]\<rparr>) = (803, s\<lparr>os_fds := [0, Suc 0, 2, 3]\<rparr>)"
    for name s
    by (simp add: netdev_get_hwinfo_def os_socket_def os_ioctl_def os_close_def good_kernel_def lowest_example Let_def
      sa_family_def u)
  have so: "packet_socket_open good_kernel name (three_fds\<lparr>os_world := w\<rparr>) = (Inr 3, three_fds\<lparr>os_world := w, os_fds := [0, Suc 0, 2, 3]\<rparr>)"
    for name w
    by (simp add: packet_socket_open_def os_socket_def os_run_def good_kernel_def lowest_example Let_def three_fds_def)
  have c: "\<exists>j v. uwifi_channel_init good_platform (?i\<lparr>channel_idx := -1, last_channelchange := t, sock := 3, arphdr := 803\<rparr>) w =
      Some (True, j, v)" for t w
    using n by (simp add: uwifi_channel_init_def good_platform_def intf2_def zero_spec_def Let_def)
  obtain h1 where h1: "on_links (\<lambda>l. cc_list_head_init l NODES) blank_heap = Some h1" using l by blast
  have t: "os_run (plat_time_usec good_platform) three_fds = (7, three_fds\<lparr>os_world := 7 + 1000000\<rparr>)"
    by (simp add: os_run_def good_platform_def three_fds_def)
  have d: "\<exists>j v. init_device good_platform good_info good_kernel
      (?i\<lparr>channel_idx := -1, last_channelchange := t, sock := 3\<rparr>) (s\<lparr>os_fds := [0, Suc 0, 2, 3]\<rparr>) = Some (True, j, v)" for t s
    using c [of t "os_world s"]
    by (auto simp: init_device_def up hw init_channels_def os_run_def good_info_def ARPHRD_IEEE80211_RADIOTAP_def Let_def)
  show ?thesis
    using d [of 7 "three_fds\<lparr>os_world := 7 + 1000000\<rparr>"]
    by (auto simp: uwifi_init_def h1 t init_socket_def so Let_def)
qed

lemma init_fini_spec_witness:
  "\<exists>intf' h' s'. uwifi_init good_platform good_info good_kernel (intf2\<lparr>channel := zero_spec\<rparr>) blank_heap three_fds =
     Some (Inr True, intf', h', s') \<and> sock intf' = 3 \<and> os_fds s' = [0, 1, 2, 3] \<and> is_list (links h') NODES [] \<and>
     0 < num_channels (channels intf')"
proof -
  have h: "links blank_heap NODES \<noteq> None" by (simp add: blank_heap_def)
  obtain intf' h' s' where r: "uwifi_init good_platform good_info good_kernel (intf2\<lparr>channel := zero_spec\<rparr>) blank_heap
    three_fds = Some (Inr True, intf', h', s')" using init_example by blast
  have lf: "int (lowest_free (os_fds three_fds)) = 3" "os_fds three_fds @ [lowest_free (os_fds three_fds)] = [0, 1, 2, 3]"
    by (simp_all add: three_fds_def lowest_example)
  note f = init_fini_spec [OF good_driver h, where K = good_kernel and intf = "intf2\<lparr>channel := zero_spec\<rparr>" and s = three_fds,
    unfolded r option.case prod.case sum.case lf]
  from f have "sock intf' = -1 \<or> sock intf' = 3" "0 \<le> sock intf'" by blast+
  then have "sock intf' = 3" by linarith
  moreover have "os_fds s' = [0, 1, 2, 3] \<and> is_list (links h') NODES [] \<and> 0 < num_channels (channels intf')" using f by blast
  ultimately show ?thesis using r by blast
qed

end
