(* ===== verification/Nl80211_Driver.thy ===== *)
theory Nl80211_Driver
  imports Freqlist_Facts Interface
begin

text \<open>
  The nl80211 interface control as the driver of the interface set-up: it keeps the contract
  \<open>channel_driver\<close> on every state and with every answer of the kernel, also a malformed one, so
  what holds for \<open>uwifi_init\<close> with such a driver holds over nl80211.
\<close>

subsection \<open>What a callback keeps, a request keeps\<close>

definition keeps :: "('a \<Rightarrow> bool) \<Rightarrow> ('m \<Rightarrow> 'a \<Rightarrow> (nl_action \<times> 'a) option) \<Rightarrow> bool" where
  "keeps I cb \<longleftrightarrow> (\<forall>msg a act a'. I a \<longrightarrow> cb msg a = Some (act, a') \<longrightarrow> I a')"

lemma deliver_keeps:
  assumes cb: "keeps I cb"
  shows "deliver L cb es (err, arg) = Some (err', arg') \<Longrightarrow> I arg \<Longrightarrow> I arg'"
proof (induction es arbitrary: err arg)
  case (Cons ev es)
  show ?case
  proof (cases ev)
    case (NL_valid msg)
    with Cons.prems(1) obtain act a where "cb msg arg = Some (act, a)"
      "(if act = NL_STOP then Some (err, a) else deliver L cb es (err, a)) = Some (err', arg')"
      by (auto simp: bind_conv)
    with cb Cons.IH [of err a] Cons.prems(2) show ?thesis unfolding keeps_def by (cases "act = NL_STOP") auto
  qed (use Cons in \<open>auto simp: nl80211_ack_cb_def nl80211_err_cb_def nl80211_finish_cb_def split: if_splits\<close>)
qed simp

lemma wait_ack_keeps:
  assumes cb: "keeps I cb" and run: "wait_ack L k cb err arg s = Some r" and i: "I arg"
  shows "I (fst (snd r))"
proof -
  let ?P = "\<lambda>L' k' cb' err arg s r. cb' = cb \<longrightarrow> I arg \<longrightarrow> I (fst (snd r))"
  have "?P L k cb err arg s r"
  proof (rule wait_ack.raw_induct [where P = ?P, OF _ run])
    fix w L' k' cb' err arg s r
    assume IH: "\<And>L' k' cb' err arg s r. w L' k' cb' err arg s = Some r \<Longrightarrow> ?P L' k' cb' err arg s r"
      and step: "(if 0 < err then case lib (nl_recvmsgs L' k') s of (es, s) \<Rightarrow> do {
          (err, arg) \<leftarrow> deliver L' cb' es (err, arg);
          w L' k' cb' err arg s } else Some (err, arg, s)) = Some r"
    show "?P L' k' cb' err arg s r"
    proof (intro impI)
      assume a: "cb' = cb" "I arg"
      show "I (fst (snd r))"
      proof (cases "0 < err")
        case True
        with step obtain e a' s1 where d: "deliver L' cb' (fst (nl_recvmsgs L' k' (nl_world s))) (err, arg) = Some (e, a')"
          "w L' k' cb' e a' s1 = Some r" by (auto simp: lib_eq bind_conv)
        from IH [OF d(2)] a deliver_keeps [OF cb d(1) [unfolded a(1)] a(2)] show ?thesis by simp
      next
        case False
        with step a show ?thesis by auto
      qed
    qed
  qed
  with i show ?thesis by simp
qed

lemma query_keeps:
  assumes cb: "keeps I cb" and run: "nl_query L cmd interface dump attrs cb arg s = Some (r, arg', s')" and i: "I arg"
  shows "I arg'"
proof -
  have send: "I b" if "nl80211_send_recv L sk m (Some cb) arg t = Some (q, b, u)" for sk m t q b u
  proof -
    obtain co t1 where c: "cb_alloc L t = (co, t1)" by (cases "cb_alloc L t")
    show ?thesis
    proof (cases co)
      case None
      with that c i show ?thesis by (auto simp: nl80211_send_recv_def)
    next
      case (Some n)
      with that c have "b = arg \<or> (\<exists>k e v w. wait_ack L k cb 1 arg v = Some (e, b, w))"
        by (auto simp: nl80211_send_recv_def bind_conv lib_eq Let_def split: if_splits)
      with wait_ack_keeps [OF cb _ i] i show ?thesis by fastforce
    qed
  qed
  from run have "arg' = arg \<or> (\<exists>m t q u. nl80211_send_recv L (nl_sock t) m (Some cb) arg t = Some (q, arg', u))"
    by (auto simp: nl_query_def bind_conv split: option.splits if_splits)
  with send i show ?thesis by blast
qed

subsection \<open>The two callbacks of the driver\<close>

lemma list_add_wf:
  assumes "channels_wf cs" "uwifi_channel_list_add cs f = Some (b, c)"
  shows "channels_wf c"
  by (rule list_add_key [OF assms(1), of f]) (use assms(2) in simp)

lemma freq_loop_wf:
  "freq_loop A xs i cs = Some (full, j, cs') \<Longrightarrow> channels_wf cs \<Longrightarrow> 0 \<le> i \<Longrightarrow> i < 64 \<Longrightarrow>
   channels_wf cs' \<and> 0 \<le> j \<and> j \<le> 64 \<and> (\<not> full \<longrightarrow> j < 64)"
proof (induction xs arbitrary: i cs)
  case (Cons x xs)
  show ?case
  proof (cases "\<exists>v. freq_attrs A x NL80211_FREQUENCY_ATTR_FREQ = Some v \<and>
      freq_attrs A x NL80211_FREQUENCY_ATTR_DISABLED = None")
    case False
    then have "freq_loop A (x # xs) i cs = freq_loop A xs i cs" by (auto split: option.splits)
    with Cons show ?thesis by simp
  next
    case True
    with Cons.prems(1) obtain f b c where c: "uwifi_channel_list_add cs (i32 f) = Some (b, c)"
      "(if i + 1 \<ge> MAX_CHANNELS then Some (True, i + 1, c) else freq_loop A xs (i + 1) c) = Some (full, j, cs')"
      by (auto simp: bind_conv)
    with Cons.IH [of "i + 1" c] list_add_wf [OF Cons.prems(2) c(1)] Cons.prems(3,4) show ?thesis
      by (auto simp: MAX_CHANNELS_def split: if_splits)
  qed
qed simp

lemma band_caps_wf: "band_caps tb b cs = Some c \<Longrightarrow> channels_wf cs \<Longrightarrow> channels_wf c"
  by (auto simp: band_caps_def bind_conv channels_wf_def)

lemma band_loop_wf:
  "band_loop L A xs b i cs = Some (b', j, cs') \<Longrightarrow> channels_wf cs \<Longrightarrow> 0 \<le> i \<Longrightarrow> i < 64 \<Longrightarrow> b < 2 \<Longrightarrow>
   channels_wf cs' \<and> 0 \<le> j \<and> j \<le> 64 \<and> b' \<le> 2"
proof (induction xs arbitrary: b i cs)
  case (Cons x xs)
  from Cons.prems(1) obtain c v full k d where s: "band_caps (band_attrs A x) b cs = Some c"
    "freq_loop A (nla_nested L v) i c = Some (full, k, d)"
    "(if full then Some (b, k, d)
      else if int (b + 1) \<ge> MAX_BANDS then Some (b + 1, k, set_band_channels b k d)
      else band_loop L A xs (b + 1) k (set_band_channels b k d)) = Some (b', j, cs')"
    unfolding band_loop.simps Let_def by (auto simp: bind_conv)
  from freq_loop_wf [OF s(2) band_caps_wf [OF s(1) Cons.prems(2)] Cons.prems(3,4)]
  have d: "channels_wf d" "0 \<le> k" "k \<le> 64" "\<not> full \<longrightarrow> k < 64" by simp_all
  have "b = 0 \<or> b = 1" using Cons.prems(5) by auto
  with d Cons.IH [of "b + 1" k "set_band_channels b k d"] s(3) show ?case
    by (elim disjE) (auto simp: MAX_BANDS_def split: if_splits)
qed simp

lemma freqlist_cb_keeps: "keeps channels_wf (nl80211_get_freqlist_cb L A)"
  unfolding keeps_def
proof (intro allI impI)
  fix msg cs act cs' assume wf: "channels_wf cs" and run: "nl80211_get_freqlist_cb L A msg cs = Some (act, cs')"
  then obtain xs b i c where b: "band_loop L A xs 0 0 cs = Some (b, i, c)" "cs' = c\<lparr>num_channels := i, num_bands := int b\<rparr>"
    by (auto simp: nl80211_get_freqlist_cb_def bind_conv)
  from band_loop_wf [OF b(1) wf] b(2) show "channels_wf cs'"
    by (simp add: channels_wf_def MAX_CHANNELS_def MAX_BANDS_def)
qed

lemma with_attr_device:
  assumes "with_attr get a upd x = Some y" "\<And>v. same_device x (upd v x)"
  shows "same_device x y"
  using assms by (cases a) (auto simp: with_attr_def bind_conv)

lemma info_cb_keeps: "keeps (same_device intf) (nl80211_get_interface_info_cb L A)"
  unfolding keeps_def
proof (intro allI impI)
  fix msg i act i' assume s: "same_device intf i" and run: "nl80211_get_interface_info_cb L A msg i = Some (act, i')"
  let ?a = "genl_attrs L msg"
  from run obtain i1 i2 i3 i4 where c:
    "with_attr rd32 (?a NL80211_ATTR_WIPHY_FREQ) (\<lambda>v intf. intf\<lparr>channel := (channel intf)\<lparr>cs_freq := v\<rparr>\<rparr>) i = Some i1"
    "with_attr rd32 (?a NL80211_ATTR_CHANNEL_WIDTH) (\<lambda>v intf. intf\<lparr>channel := (channel intf)\<lparr>cs_width := width_from_nl A v\<rparr>\<rparr>) i1 = Some i2"
    "with_attr rd32 (?a NL80211_ATTR_CENTER_FREQ1) (\<lambda>v intf. intf\<lparr>channel := (channel intf)\<lparr>cs_center_freq := v\<rparr>\<rparr>) i2 = Some i3"
    "with_attr rd32 (?a NL80211_ATTR_IFTYPE) (\<lambda>v intf. intf\<lparr>if_type := i32 v\<rparr>) i3 = Some i4"
    "with_attr rd32 (?a NL80211_ATTR_WIPHY) (\<lambda>v intf. intf\<lparr>if_phy := i32 v\<rparr>) i4 = Some i'"
    unfolding nl80211_get_interface_info_cb_def Let_def by (auto simp: bind_conv)
  have "same_device i i1" "same_device i1 i2" "same_device i2 i3" "same_device i3 i4" "same_device i4 i'"
    by (rule c [THEN with_attr_device]; simp add: same_device_def)+
  with s show "same_device intf i'" using same_device_trans by blast
qed

subsection \<open>The driver\<close>

definition nl80211_info :: "('m, 'w) libnl \<Rightarrow> nl80211_abi \<Rightarrow> 'w nl_state info_call" where
  "nl80211_info L A intf s =
    (case nl_iwget_interface_info L A intf s of None \<Rightarrow> ((False, intf), s) | Some (r, intf, s) \<Rightarrow> ((r, intf), s))"

interpretation nl80211: channel_driver "nl80211_platform L A clock" "nl80211_info L A" for L A clock
proof
  fix intf :: uwifi_interface and s :: "'b nl_state"
  show "\<exists>cs w'. ifctrl_iwget_freqlist (nl80211_platform L A clock) intf s = (intf\<lparr>channels := cs\<rparr>, w') \<and>
      (channels_wf (channels intf) \<longrightarrow> channels_wf cs)"
  proof (cases "nl_iwget_freqlist L A intf s")
    case None
    then show ?thesis by (intro exI [of _ "channels intf"] exI [of _ s]) (simp add: nl80211_platform_def)
  next
    case (Some x)
    then obtain r cs t where q: "nl_query L NL80211_CMD_GET_WIPHY None False
        [(NL80211_ATTR_WIPHY, le32_enc (word_of_int (if_phy intf)))] (nl80211_get_freqlist_cb L A) (channels intf) s = Some (r, cs, t)"
      "x = (r, intf\<lparr>channels := cs\<rparr>, t)" by (auto simp: nl_iwget_freqlist_def bind_conv)
    from query_keeps [OF freqlist_cb_keeps q(1)] Some q(2) show ?thesis
      by (intro exI [of _ cs] exI [of _ t]) (simp add: nl80211_platform_def)
  qed
  show "\<exists>r intf' w'. nl80211_info L A intf s = ((r, intf'), w') \<and> same_device intf intf'"
  proof (cases "nl_iwget_interface_info L A intf s")
    case None
    then show ?thesis by (intro exI [of _ False] exI [of _ intf] exI [of _ s]) (simp add: nl80211_info_def)
  next
    case (Some x)
    obtain r i t where x: "x = (r, i, t)" by (cases x)
    with Some query_keeps [OF info_cb_keeps [of intf], where arg = intf and arg' = i] have "same_device intf i"
      by (simp add: nl_iwget_interface_info_def)
    with Some x show ?thesis by (intro exI [of _ r] exI [of _ i] exI [of _ t]) (simp add: nl80211_info_def)
  qed
qed

end
