(* ===== verification/Session.thy ===== *)
theory Session
  imports Receive Nl80211_Driver
begin

text \<open>
  A monitoring session as a state machine: \<open>uwifi_init\<close>, then any sequence of the calls that an
  application makes (receive and enter a packet, expire nodes, move the scan on, set a channel),
  and \<open>uwifi_fini\<close>.  Every component takes part: packet socket, parsers, channel table, scanning,
  node and ESSID tables.  The theorem says that with a receive buffer that is large enough no sequence of allowed calls leads out of defined
  behaviour, and that nothing is left open behind it.
\<close>

subsection \<open>States and calls\<close>

text \<open>
  The receive buffer is longer than the size that is handed to \<open>packet_socket_recv\<close>, which
  overwrites the front of it.
\<close>

record 'w session =
  se_intf :: uwifi_interface
  se_heap :: wheap
  se_os :: "'w os"
  se_buf :: bytes

text \<open>The numbers of \<open>Recv\<close> are the addresses that \<open>malloc\<close> gives for a node and an ESSID.\<close>

datatype session_call = Recv nat nat | Expire u32 | Scan | Tune uwifi_chan_spec

definition enter_packet :: "u32 \<Rightarrow> nat \<Rightarrow> nat \<Rightarrow> uwifi_packet \<Rightarrow> wheap \<Rightarrow> wheap option" where
  "enter_packet now m e p h = do {
     (i, p, h) \<leftarrow> uwifi_node_update now (Some m) p NODES h;
     case i of
       None \<Rightarrow> Some h
     | Some i \<Rightarrow> do {
         h \<leftarrow> uwifi_nodes_find_ap i NODES h;
         uwifi_essids_update (Some e) ESSIDS (Some p) (Some i) h } }"

definition receive_packet ::
    "radiotap_lib \<Rightarrow> 'w platform \<Rightarrow> 'w syscalls \<Rightarrow> nat \<Rightarrow> nat \<Rightarrow> nat \<Rightarrow> 'w session \<Rightarrow> 'w session option" where
  "receive_packet R P K bufsize m e s =
    (let ((n, data), os) = packet_socket_recv K (sock (se_intf s)) bufsize (se_os s);
         buf = data @ drop (length data) (se_buf s) in
     if n \<le> 0 then Some (s\<lparr>se_os := os, se_buf := buf\<rparr>)
     else do {
       (ret, p) \<leftarrow> uwifi_parse_raw R buf (nat n) zero_packet (arphdr (se_intf s));
       let (p, intf) = uwifi_fixup_packet_channel p (se_intf s);
       let (now, os) = os_run (plat_time_usec P) os;
       h \<leftarrow> enter_packet now m e p (se_heap s);
       Some \<lparr>se_intf = intf, se_heap = h, se_os = os, se_buf = buf\<rparr> })"

fun run_call :: "radiotap_lib \<Rightarrow> 'w platform \<Rightarrow> 'w syscalls \<Rightarrow> nat \<Rightarrow> session_call \<Rightarrow> 'w session \<Rightarrow> 'w session option" where
  "run_call R P K bufsize (Recv m e) s = receive_packet R P K bufsize m e s"
| "run_call R P K bufsize (Expire sec) s =
    (let (now, os) = os_run (plat_time_usec P) (se_os s) in do {
       (h, t) \<leftarrow> uwifi_nodes_timeout NODES sec (last_nodetimeout (se_intf s)) now (se_heap s);
       Some (s\<lparr>se_intf := (se_intf s)\<lparr>last_nodetimeout := t\<rparr>, se_heap := h, se_os := os\<rparr>) })"
| "run_call R P K bufsize Scan s = do {
     (r, intf, w) \<leftarrow> uwifi_channel_auto_change P (se_intf s) (os_world (se_os s));
     Some (s\<lparr>se_intf := intf, se_os := (se_os s)\<lparr>os_world := w\<rparr>\<rparr>) }"
| "run_call R P K bufsize (Tune ch) s =
    (case uwifi_channel_change P (se_intf s) ch (os_world (se_os s)) of
       (r, intf, w) \<Rightarrow> Some (s\<lparr>se_intf := intf, se_os := (se_os s)\<lparr>os_world := w\<rparr>\<rparr>))"

text \<open>What the application has to see to, and what \<open>malloc\<close> does: fresh memory and not more nodes than
  the counters can hold, and a lower limit of the scan that is a channel of the table.\<close>

fun call_ok :: "session_call \<Rightarrow> 'w session \<Rightarrow> bool" where
  "call_ok (Recv m e) s \<longleftrightarrow> node_at (se_heap s) m = None \<and> essid_at (se_heap s) e = None \<and> room (se_heap s)"
| "call_ok (Expire sec) s \<longleftrightarrow> room (se_heap s)"
| "call_ok Scan s \<longleftrightarrow> (channel_scan (se_intf s) \<longrightarrow> min_found (se_intf s))"
| "call_ok (Tune ch) s \<longleftrightarrow> True"

inductive session_run :: "radiotap_lib \<Rightarrow> 'w platform \<Rightarrow> 'w syscalls \<Rightarrow> nat \<Rightarrow> 'w session \<Rightarrow> 'w session \<Rightarrow> bool"
  for R P K bufsize s where
  session_start: "session_run R P K bufsize s s"
| session_step: "session_run R P K bufsize s t \<Longrightarrow> call_ok c t \<Longrightarrow> run_call R P K bufsize c t = Some u \<Longrightarrow>
    session_run R P K bufsize s u"

inductive_cases session_run_cases: "session_run R P K bufsize s t"

subsection \<open>The invariant\<close>

text \<open>What \<open>recv\<close> does: it returns the number of bytes that it has written, at most the size of the buffer.\<close>

definition recv_ok :: "'w syscalls \<Rightarrow> bool" where
  "recv_ok K \<longleftrightarrow> (\<forall>fd n w. case sys_recv K fd n w of ((r, data), w') \<Rightarrow> length data = nat r \<and> nat r \<le> n)"

text \<open>
  What the application has to provide as a buffer.  The 802.11 parser reads up to 32 bytes behind a packet, and the
  radiotap iterator runs up to the 16-bit field \<open>it_len\<close>, which the code does not compare with the
  number of received bytes.
\<close>

definition buffer_ok :: "nat \<Rightarrow> 'w session \<Rightarrow> bool" where
  "buffer_ok bufsize s \<longleftrightarrow> bufsize + 32 \<le> length (se_buf s) \<and>
     (arphdr (se_intf s) = ARPHRD_IEEE80211_RADIOTAP \<longrightarrow> 2 ^ 16 \<le> length (se_buf s))"

definition session_inv :: "nat \<Rightarrow> nat list \<Rightarrow> 'w session \<Rightarrow> bool" where
  "session_inv bufsize fds s \<longleftrightarrow> reachable (se_heap s) \<and> index_ok (se_intf s) \<and>
     sock (se_intf s) = int (lowest_free fds) \<and> os_fds (se_os s) = fds @ [lowest_free fds] \<and>
     buffer_ok bufsize s"

lemma fixup_device:
  assumes "index_ok intf"
  shows "index_ok (snd (uwifi_fixup_packet_channel p intf)) \<and> same_device intf (snd (uwifi_fixup_packet_channel p intf))"
proof -
  have "channels_wf (channels intf)" using assms by (simp add: index_ok_def)
  from idx_from_freq_lt [OF this, of "phy_freq p"] assms show ?thesis
    by (auto simp: uwifi_fixup_packet_channel_def Let_def index_ok_def same_device_def)
qed

lemma enter_packet_runs:
  assumes "reachable h" "room h" "packet_wf p" "node_at h m = None" "essid_at h e = None"
  shows "\<exists>h'. enter_packet now m e p h = Some h' \<and> reachable h'"
  using update_and_link [OF assms, of now] by (fastforce simp: enter_packet_def split: option.splits)

lemma receive_keeps:
  assumes R: "radiotap_ok R" and K: "recv_ok K" and b: "bufsize < 2 ^ 31"
    and inv: "session_inv bufsize fds s" and c: "call_ok (Recv m e) s"
  shows "\<exists>s'. receive_packet R P K bufsize m e s = Some s' \<and> session_inv bufsize fds s'"
proof -
  note i = inv [unfolded session_inv_def]
  obtain n data w where r0: "sys_recv K (nat (sock (se_intf s))) bufsize (os_world (se_os s)) = ((n, data), w)"
    by (metis surj_pair)
  define os where "os = (se_os s)\<lparr>os_world := w\<rparr>"
  have r: "packet_socket_recv K (sock (se_intf s)) bufsize (se_os s) = ((n, data), os)" and os: "os_fds os = os_fds (se_os s)"
    using r0 by (simp_all add: packet_socket_recv_def os_run_def os_def)
  have "case sys_recv K (nat (sock (se_intf s))) bufsize (os_world (se_os s)) of ((r, data), w') \<Rightarrow>
      length data = nat r \<and> nat r \<le> bufsize"
    using K [unfolded recv_ok_def, THEN spec, THEN spec, THEN spec] .
  then have d: "length data = nat n" "nat n \<le> bufsize" by (simp_all add: r0)
  define buf where "buf = data @ drop (length data) (se_buf s)"
  have l: "length buf = length (se_buf s)" using d i by (simp add: buf_def buffer_ok_def)
  show ?thesis
  proof (cases "n \<le> 0")
    case True
    then have "receive_packet R P K bufsize m e s = Some (s\<lparr>se_os := os, se_buf := buf\<rparr>)"
      by (simp add: receive_packet_def r buf_def)
    moreover have "session_inv bufsize fds (s\<lparr>se_os := os, se_buf := buf\<rparr>)" using i os l
      by (simp add: session_inv_def buffer_ok_def)
    ultimately show ?thesis by blast
  next
    case False
    have lb: "nat n + 32 \<le> length buf" "0 < nat n" "nat n < 2 ^ 31"
      using False d(2) i l b by (simp_all add: buffer_ok_def)
    have it: "unat x \<le> length buf" if "arphdr (se_intf s) = ARPHRD_IEEE80211_RADIOTAP" for x :: u16
    proof -
      have "unat x < 2 ^ LENGTH(16)" by (rule unsigned_less)
      with i l that show ?thesis by (simp add: buffer_ok_def)
    qed
    from parse_raw_runs [OF R lb zero_packet_wf it, of "arphdr (se_intf s)"] obtain ret p where
      p: "uwifi_parse_raw R buf (nat n) zero_packet (arphdr (se_intf s)) = Some (ret, p)" "packet_wf p" by blast
    obtain q intf where q: "uwifi_fixup_packet_channel p (se_intf s) = (q, intf)" by force
    have "packet_wf q" using fixup_wf [of p "se_intf s"] p(2) q by simp
    obtain now os2 where t: "os_run (plat_time_usec P) os = (now, os2)" by force
    from enter_packet_runs [OF _ _ \<open>packet_wf q\<close>, of "se_heap s" m e now] c i obtain h where
      h: "enter_packet now m e q (se_heap s) = Some h" "reachable h" by auto
    have "receive_packet R P K bufsize m e s = Some \<lparr>se_intf = intf, se_heap = h, se_os = os2, se_buf = buf\<rparr>"
      using False by (simp add: receive_packet_def r p(1) q t h(1) flip: buf_def)
    moreover have "session_inv bufsize fds \<lparr>se_intf = intf, se_heap = h, se_os = os2, se_buf = buf\<rparr>"
      using i os l t h(2) fixup_device [of "se_intf s" p] q
      by (auto simp: session_inv_def same_device_def buffer_ok_def)
    ultimately show ?thesis by blast
  qed
qed

lemma call_keeps:
  assumes R: "radiotap_ok R" and K: "recv_ok K" and b: "bufsize < 2 ^ 31"
    and inv: "session_inv bufsize fds s" and c: "call_ok c s"
  shows "\<exists>s'. run_call R P K bufsize c s = Some s' \<and> session_inv bufsize fds s'"
proof (cases c)
  case (Recv m e)
  with receive_keeps [OF R K b inv, of m e P] c show ?thesis by simp
next
  case (Expire sec)
  note i = inv [unfolded session_inv_def]
  obtain now os where t: "os_run (plat_time_usec P) (se_os s) = (now, os)" by force
  then have os: "os_fds os = os_fds (se_os s)" by simp
  have "room (se_heap s)" using c Expire by simp
  from network_sound_step [OF _ room_few [OF this], of "Nodes_Timeout sec (last_nodetimeout (se_intf s)) now"] i
  obtain h l where h: "uwifi_nodes_timeout NODES sec (last_nodetimeout (se_intf s)) now (se_heap s) = Some (h, l)" "reachable h"
    by auto
  with Expire t i os show ?thesis by (simp add: session_inv_def index_ok_def buffer_ok_def)
next
  case Scan
  note i = inv [unfolded session_inv_def]
  from auto_change_safe [of "se_intf s" P "os_world (se_os s)"] i c Scan obtain r intf w where
    a: "uwifi_channel_auto_change P (se_intf s) (os_world (se_os s)) = Some (r, intf, w)" "index_ok intf" "same_device (se_intf s) intf"
    by auto
  with Scan i show ?thesis by (simp add: session_inv_def same_device_def buffer_ok_def)
next
  case (Tune ch)
  note i = inv [unfolded session_inv_def]
  obtain r intf w where a: "uwifi_channel_change P (se_intf s) ch (os_world (se_os s)) = (r, intf, w)" by (metis prod_cases3)
  with change_index_ok [OF _ a] Tune i show ?thesis by (auto simp: session_inv_def same_device_def buffer_ok_def)
qed

lemma session_run_inv:
  assumes "session_run R P K bufsize s t" "radiotap_ok R" "recv_ok K" "bufsize < 2 ^ 31" "session_inv bufsize fds s"
  shows "session_inv bufsize fds t"
  using assms(1)
proof (induction rule: session_run.induct)
  case (session_step t c u)
  from call_keeps [OF assms(2-4) session_step.IH session_step.hyps(2), of P] session_step.hyps(3) show ?case by auto
qed (rule assms(5))

subsection \<open>From \<open>uwifi_init\<close> to \<open>uwifi_fini\<close>\<close>

text \<open>
  The state in which the application enters its loop: \<open>uwifi_init\<close> has succeeded, on list heads
  that nothing has used before, and the ESSID list has been initialised.
\<close>

definition session_begins ::
    "'w platform \<Rightarrow> 'w info_call \<Rightarrow> 'w syscalls \<Rightarrow> uwifi_interface \<Rightarrow> 'w os \<Rightarrow> 'w session \<Rightarrow> bool" where
  "session_begins P info K intf os s \<longleftrightarrow> (\<exists>h.
     uwifi_init P info K intf blank_heap os = Some (Inr True, se_intf s, h, se_os s) \<and>
     on_links (\<lambda>l. cc_list_head_init l ESSIDS) h = Some (se_heap s))"

lemma begin_inv:
  assumes D: "table_driver P info" and wf: "channels_wf (channels intf)" and b: "session_begins P info K intf os s"
    and buf: "buffer_ok bufsize s"
  shows "session_inv bufsize (os_fds os) s"
proof -
  from b obtain h where h: "uwifi_init P info K intf blank_heap os = Some (Inr True, se_intf s, h, se_os s)"
    "on_links (\<lambda>l. cc_list_head_init l ESSIDS) h = Some (se_heap s)" by (auto simp: session_begins_def)
  note r = channel_driver.init_ready [OF D [unfolded table_driver_iff] wf h(1)]
  with h(2) have "init_tables blank_heap = Some (se_heap s)" by (simp add: init_tables_def)
  with reachable_init r buf show ?thesis by (simp add: session_inv_def)
qed

lemma session_ends:
  assumes inv: "session_inv bufsize fds s"
  shows "\<exists>intf' h' os'. uwifi_fini K (se_intf s) (se_heap s) (se_os s) = Some (intf', h', os') \<and>
    node_at h' = Map.empty \<and> (0 < lowest_free fds \<longrightarrow> os_fds os' = fds)"
proof -
  from inv have i: "tables_inv (se_heap s)" "os_fds (se_os s) = fds @ [lowest_free fds]" "sock (se_intf s) = int (lowest_free fds)"
    using reachable_ok by (auto simp: session_inv_def tables_inv_def)
  from fini_closes [OF i(1,2), of "se_intf s" K] i(3) show ?thesis by auto
qed

text \<open>Over nl80211 no contract of the driver is left to assume.\<close>

lemmas nl80211_session_inv = begin_inv [OF nl80211.is_table_driver]

text \<open>The condition on the buffer is needed: without it, a received packet on which the radiotap iterator
  runs out of the buffer makes the call undefined, however few bytes were received.\<close>

lemma recv_overread:
  assumes R: "radiotap_ok R" and a: "arphdr (se_intf s) = ARPHRD_IEEE80211_RADIOTAP"
    and r: "sys_recv K (nat (sock (se_intf s))) bufsize (os_world (se_os s)) = ((n, data), w)" and n: "8 \<le> n"
    and l: "it_len R (data @ drop (length data) (se_buf s)) = Some l"
    and out: "iterate R (data @ drop (length data) (se_buf s)) (uint l) = None"
  shows "run_call R P K bufsize (Recv m e) s = None"
proof -
  from n have "8 \<le> nat n" by linarith
  from radiotap_overread [OF R this l out] n a r show ?thesis
    by (simp add: receive_packet_def packet_socket_recv_def os_run_def)
qed

text \<open>C2: A monitoring session, from a successful \<open>uwifi_init\<close> on, over any driver
  that keeps the contract of the channel table, any clock, a radiotap library that keeps its contract, and a kernel that writes what it says into the receive
  buffer.  Received frames may have any bytes and any length up to \<open>bufsize\<close>, which is less than \<open>2^31\<close>, but the buffer
  has 32 bytes behind \<open>bufsize\<close>, and, if the device delivers radiotap headers, at least \<open>2^16\<close> bytes altogether, since the parsers
  read behind the received bytes (\<open>recv_overread\<close>).  A call is allowed when \<open>malloc\<close> gives fresh memory, the tables
  hold less than \<open>2^32 - 2\<close> nodes, and a scan with a lower limit has this limit in the table.
  Whatever allowed calls the application makes, in any order: the next allowed call returns and stays
  inside the buffer and live memory; the tables of nodes and ESSIDs are well formed; the channel index is in the
  table or -1; the packet socket is still the one descriptor that was opened.  And \<open>uwifi_fini\<close> frees every node and
  closes that descriptor, unless its number is 0.\<close>

theorem session_safe:
  assumes D: "table_driver P info" and R: "radiotap_ok R" and K: "recv_ok K"
    and wf: "channels_wf (channels intf)" and b: "session_begins P info K intf os s0"
    and buf: "bufsize < 2 ^ 31" "bufsize + 32 \<le> length (se_buf s0)"
      "arphdr (se_intf s0) = ARPHRD_IEEE80211_RADIOTAP \<Longrightarrow> 2 ^ 16 \<le> length (se_buf s0)"
    and run: "session_run R P K bufsize s0 s"
  shows "(\<forall>c. call_ok c s \<longrightarrow> (\<exists>s'. run_call R P K bufsize c s = Some s')) \<and>
    tables_inv (se_heap s) \<and> channels_wf (channels (se_intf s)) \<and>
    -1 \<le> channel_idx (se_intf s) \<and> channel_idx (se_intf s) < num_channels (channels (se_intf s)) \<and>
    sock (se_intf s) = int (lowest_free (os_fds os)) \<and> os_fds (se_os s) = os_fds os @ [lowest_free (os_fds os)] \<and>
    (\<exists>intf' h' os'. uwifi_fini K (se_intf s) (se_heap s) (se_os s) = Some (intf', h', os') \<and>
       node_at h' = Map.empty \<and> (0 < lowest_free (os_fds os) \<longrightarrow> os_fds os' = os_fds os))"
proof -
  have "buffer_ok bufsize s0" using buf(2,3) by (simp add: buffer_ok_def)
  then have inv: "session_inv bufsize (os_fds os) s"
    by (rule session_run_inv [OF run R K buf(1) begin_inv [OF D wf b]])
  note i = inv [unfolded session_inv_def index_ok_def]
  have "tables_inv (se_heap s)" using i reachable_ok by (auto simp: tables_inv_def)
  with i call_keeps [OF R K buf(1) inv, of _ P] session_ends [OF inv, of K] show ?thesis by blast
qed

text \<open>The session of the example of \<open>uwifi_init\<close>, with a buffer of 70000 bytes, after a change of the channel.\<close>

lemma good_recv: "recv_ok good_kernel"
  by (simp add: recv_ok_def good_kernel_def)

lemma session_safe_witness:
  "\<exists>s0 s. session_begins good_platform good_info good_kernel (intf2\<lparr>channel := zero_spec\<rparr>) three_fds s0 \<and>
     run_call demo_radiotap good_platform good_kernel 60000 (Tune zero_spec) s0 = Some s \<and>
     (\<exists>s'. run_call demo_radiotap good_platform good_kernel 60000 (Recv 0 0) s = Some s') \<and>
     tables_inv (se_heap s) \<and> sock (se_intf s) = 3 \<and> os_fds (se_os s) = [0, 1, 2, 3]"
proof -
  let ?i = "intf2\<lparr>channel := zero_spec\<rparr>"
  obtain intf' h' os' where r: "uwifi_init good_platform good_info good_kernel ?i blank_heap three_fds =
     Some (Inr True, intf', h', os')" using init_example by blast
  have wf: "channels_wf (channels ?i)" using table2_wf by (simp add: intf2_def)
  note ready = channel_driver.init_ready [OF good_driver [unfolded table_driver_iff] wf r]
  obtain h where "init_tables blank_heap = Some h" by (rule init_tables_run)
  with ready have h: "on_links (\<lambda>l. cc_list_head_init l ESSIDS) h' = Some h" by (simp add: init_tables_def)
  define s0 where "s0 = \<lparr>se_intf = intf', se_heap = h, se_os = os', se_buf = replicate 70000 0\<rparr>"
  have b: "session_begins good_platform good_info good_kernel ?i three_fds s0"
    using r h by (auto simp: session_begins_def s0_def)
  obtain r i w where "uwifi_channel_change good_platform (se_intf s0) zero_spec (os_world (se_os s0)) = (r, i, w)"
    by (metis surj_pair)
  then obtain s where s: "run_call demo_radiotap good_platform good_kernel 60000 (Tune zero_spec) s0 = Some s" by simp
  have hs: "se_heap s = h" using s by (auto simp: s0_def split: prod.splits)
  have "session_run demo_radiotap good_platform good_kernel 60000 s0 s"
    by (rule session_step [OF session_start _ s]) simp
  from session_safe [OF good_driver demo_radiotap_ok good_recv wf b _ _ _ this]
  have all: "\<forall>c. call_ok c s \<longrightarrow> (\<exists>s'. run_call demo_radiotap good_platform good_kernel 60000 c s = Some s')"
    "tables_inv (se_heap s)" "sock (se_intf s) = int (lowest_free (os_fds three_fds))"
    "os_fds (se_os s) = os_fds three_fds @ [lowest_free (os_fds three_fds)]" by (simp_all add: s0_def)
  obtain g where "init_tables blank_heap = Some g" "tables_ok g no_tables" by (rule init_tables_run)
  with \<open>init_tables blank_heap = Some h\<close> have "node_at h = Map.empty" "essid_at h = Map.empty"
    using tables_okD(1) [of h no_tables] by (auto simp: heap_rep_def no_tables_def)
  then have "call_ok (Recv 0 0) s" by (simp add: hs room_def)
  with all(1) have "\<exists>s'. run_call demo_radiotap good_platform good_kernel 60000 (Recv 0 0) s = Some s'" by blast
  moreover have "sock (se_intf s) = 3" "os_fds (se_os s) = [0, 1, 2, 3]"
    using all(3,4) by (simp_all add: three_fds_def lowest_example)
  ultimately show ?thesis using b s all(2) by blast
qed

end
