(* ===== verification/Ifctrl_Wext.thy ===== *)
theory Ifctrl_Wext
  imports Netdev Channel_Scan
begin

text \<open>
  \<open>linux/ifctrl-wext.c\<close>: interface control with the old wireless extensions.  The three ioctl
  calls are a record of their own; \<open>iw_freq\<close> and \<open>iw_range\<close> are the structures of
  \<open>linux/wireless.h\<close> as far as the code uses them, the array of frequencies as a list.
  \<open>ifctrl_iwget_interface_info\<close> is not modelled: it uses a field \<open>if_freq\<close> that the
  interface structure does not have, so the file does not compile.
\<close>

record iw_freq =
  fq_m :: int
  fq_e :: int
  fq_i :: u8

record iw_range =
  we_version_compiled :: u8
  num_frequency :: u8
  rg_freq :: "iw_freq list"

record 'w wext_calls =
  siocsiwfreq :: "int \<Rightarrow> string \<Rightarrow> iw_freq \<Rightarrow> 'w \<Rightarrow> int \<times> 'w"
  siocgiwfreq :: "int \<Rightarrow> string \<Rightarrow> 'w \<Rightarrow> (int \<times> iw_freq) \<times> 'w"
  siocgiwrange :: "int \<Rightarrow> string \<Rightarrow> 'w \<Rightarrow> (int \<times> iw_range) \<times> 'w"

text \<open>\<open>freq *= 100000\<close> on an \<open>int\<close>: an overflow is undefined.\<close>

definition wext_set_freq ::
    "'w wext_calls \<Rightarrow> int \<Rightarrow> string \<Rightarrow> int \<Rightarrow> 'w os \<Rightarrow> (bool \<times> 'w os) option" where
  "wext_set_freq W fd devname freq s =
    (if freq * 100000 < - (2 ^ 31) \<or> 2 ^ 31 \<le> freq * 100000 then None
     else
       (let (r, s) = os_run (siocsiwfreq W fd (take 15 devname)
              \<lparr>fq_m = freq * 100000, fq_e = 1, fq_i = 0\<rparr>) s in
        Some (\<not> r < 0, s)))"

definition wext_get_freq :: "'w wext_calls \<Rightarrow> int \<Rightarrow> string \<Rightarrow> 'w os \<Rightarrow> int \<times> 'w os" where
  "wext_get_freq W fd devname s =
    (let ((r, f), s) = os_run (siocgiwfreq W fd (take 15 devname)) s in
     (if r < 0 then 0 else fq_m f, s))"

text \<open>The loop: \<open>n\<close> more entries, \<open>i\<close> done, and the counters of the two bands.\<close>

definition wext_entry :: "iw_freq \<Rightarrow> uwifi_chan_freq \<Rightarrow> uwifi_chan_freq" where
  "wext_entry f e = e\<lparr>cf_chan := uint (fq_i f),
     cf_freq := word_of_int (if fq_m f > 100000000 then fq_m f sdiv 100000 else fq_m f)\<rparr>"

fun wext_loop :: "iw_freq list \<Rightarrow> nat \<Rightarrow> nat \<Rightarrow> int \<times> int \<Rightarrow> uwifi_channels \<Rightarrow>
    (nat \<times> (int \<times> int) \<times> uwifi_channels) option" where
  "wext_loop fs 0 i cnt cs = Some (i, cnt, cs)"
| "wext_loop fs (Suc n) i (band0cnt, band1cnt) cs =
    (if int i \<ge> MAX_CHANNELS then Some (i, (band0cnt, band1cnt), cs)
     else do {
       f \<leftarrow> rd fs i;
       e \<leftarrow> rd (chans cs) i;
       let e = wext_entry f e;
       let cs = cs\<lparr>chans := (chans cs)[i := e]\<rparr>;
       wext_loop fs n (i + 1)
         (if cf_freq e \<le> 2500 then (band0cnt + 1, band1cnt) else (band0cnt, band1cnt + 1)) cs })"

definition wext_get_channels ::
    "'w wext_calls \<Rightarrow> int \<Rightarrow> string \<Rightarrow> uwifi_channels \<Rightarrow> 'w os \<Rightarrow> (int \<times> uwifi_channels \<times> 'w os) option" where
  "wext_get_channels W fd devname cs s =
    (let ((r, rng), s) = os_run (siocgiwrange W fd (take 15 devname)) s in
     if r < 0 then Some (0, cs, s)
     else if we_version_compiled rng < 16 then Some (0, cs, s)
     else do {
       (i, (band0cnt, band1cnt), cs) \<leftarrow> wext_loop (rg_freq rng) (unat (num_frequency rng)) 0 (0, 0) cs;
       b0 \<leftarrow> rd (bands cs) 0;
       b1 \<leftarrow> rd (bands cs) 1;
       Some (int i, cs\<lparr>num_channels := int i, num_bands := (if band1cnt > 0 then 2 else 1),
         bands := (bands cs)[0 := b0\<lparr>bd_num_channels := band0cnt\<rparr>, 1 := b1\<lparr>bd_num_channels := band1cnt\<rparr>]\<rparr>, s) })"

text \<open>The interface of \<open>ifctrl.h\<close>; the variable \<open>wext_fd\<close> is an argument and a result.\<close>

definition wext_init :: "'w syscalls \<Rightarrow> 'w os \<Rightarrow> (bool \<times> int) \<times> 'w os" where
  "wext_init K s = (let (fd, s) = os_socket K Dgram_Socket s in ((\<not> fd < 0, fd), s))"

definition wext_finish :: "int \<Rightarrow> 'w os \<Rightarrow> 'w os" where
  "wext_finish wext_fd s = (if wext_fd \<ge> 0 then os_close wext_fd s else s)"

definition wext_iwadd_monitor :: "string \<Rightarrow> string \<Rightarrow> bool" where "wext_iwadd_monitor interface monitor_interface = False"
definition wext_iwdel :: "string \<Rightarrow> bool" where "wext_iwdel interface = False"
definition wext_iwset_monitor :: "string \<Rightarrow> bool" where "wext_iwset_monitor interface = False"

definition wext_iwset_freq ::
    "'w wext_calls \<Rightarrow> int \<Rightarrow> string \<Rightarrow> u32 \<Rightarrow> uwifi_chan_width \<Rightarrow> u32 \<Rightarrow> 'w os \<Rightarrow> (bool \<times> 'w os) option" where
  "wext_iwset_freq W wext_fd interface freq width center1 s = wext_set_freq W wext_fd interface (i32 freq) s"

definition wext_iwget_freqlist ::
    "'w wext_calls \<Rightarrow> int \<Rightarrow> uwifi_interface \<Rightarrow> 'w os \<Rightarrow> (bool \<times> uwifi_interface \<times> 'w os) option" where
  "wext_iwget_freqlist W wext_fd intf s = do {
     (n, cs, s) \<leftarrow> wext_get_channels W wext_fd (ifname intf) (channels intf) s;
     Some (n \<noteq> 0, intf\<lparr>channels := cs\<rparr>, s) }"

definition wext_is_monitor :: "uwifi_interface \<Rightarrow> bool" where "wext_is_monitor intf = True"

subsection \<open>The channel list\<close>

text \<open>A range with at least as many frequencies as it announces gives a well-formed table.\<close>

lemma wext_loop_ok:
  "length (chans cs) = 64 \<Longrightarrow> i + n \<le> length fs \<Longrightarrow> i \<le> 64 \<Longrightarrow>
   \<exists>b0' b1' cs'. wext_loop fs n i (b0, b1) cs = Some (min 64 (i + n), (b0', b1'), cs') \<and>
     b0' + b1' = b0 + b1 + int (min 64 (i + n) - i) \<and> b0 \<le> b0' \<and> b1 \<le> b1' \<and>
     length (chans cs') = 64 \<and> bands cs' = bands cs"
proof (induction fs n i "(b0, b1)" cs arbitrary: b0 b1 rule: wext_loop.induct)
  case (1 fs i cs)
  then show ?case by simp
next
  case (2 fs n i b0 b1 cs)
  show ?case
  proof (cases "i = 64")
    case True
    then show ?thesis using 2 by (simp add: MAX_CHANNELS_def)
  next
    case False
    with 2 have i: "i < 64" "i < length fs" "i < length (chans cs)" by simp_all
    let ?e = "wext_entry (fs ! i) (chans cs ! i)"
    let ?cs = "cs\<lparr>chans := (chans cs)[i := ?e]\<rparr>"
    let ?c = "if cf_freq ?e \<le> 2500 then (b0 + 1, b1) else (b0, b1 + 1)"
    obtain c0 c1 where c: "?c = (c0, c1)" by fastforce
    then have sum: "c0 + c1 = b0 + b1 + 1" "b0 \<le> c0" "b1 \<le> c1" by (auto split: if_splits)
    have run: "wext_loop fs (Suc n) i (b0, b1) cs = wext_loop fs n (i + 1) (c0, c1) ?cs"
      using i c by (simp add: MAX_CHANNELS_def rd_Some Let_def)
    have ih: "\<exists>b0' b1' cs'. wext_loop fs n (i + 1) (c0, c1) ?cs = Some (min 64 (i + 1 + n), (b0', b1'), cs') \<and>
     b0' + b1' = c0 + c1 + int (min 64 (i + 1 + n) - (i + 1)) \<and> c0 \<le> b0' \<and> c1 \<le> b1' \<and>
     length (chans cs') = 64 \<and> bands cs' = bands ?cs"
      using 2(1) [OF _ rd_Some [OF i(2)] rd_Some [OF i(3)] refl refl c] 2(2,3) i by (simp add: MAX_CHANNELS_def)
    then obtain b0' b1' cs' where r: "wext_loop fs n (i + 1) (c0, c1) ?cs = Some (min 64 (i + 1 + n), (b0', b1'), cs')"
     "b0' + b1' = c0 + c1 + int (min 64 (i + 1 + n) - (i + 1))" "c0 \<le> b0'" "c1 \<le> b1'"
     "length (chans cs') = 64" "bands cs' = bands cs" by auto
    have m: "min 64 (i + 1 + n) = min 64 (i + Suc n)" by simp
    have "int (min 64 (i + Suc n) - i) = 1 + int (min 64 (i + 1 + n) - (i + 1))" using i(1) by simp
    with r(2) sum have "b0' + b1' = b0 + b1 + int (min 64 (i + Suc n) - i)" by linarith
    with r sum run m show ?thesis by (intro exI conjI) (simp | linarith)+
  qed
qed

lemma wext_get_channels_wf:
  assumes wf: "channels_wf cs" and call: "siocgiwrange W fd (take 15 devname) (os_world s) = ((r, rng), w)"
    and ok: "0 \<le> r" "16 \<le> we_version_compiled rng" "unat (num_frequency rng) \<le> length (rg_freq rng)"
  shows "\<exists>cs'. wext_get_channels W fd devname cs s = Some (num_channels cs', cs', s\<lparr>os_world := w\<rparr>) \<and> channels_wf cs' \<and>
    num_channels cs' = int (min 64 (unat (num_frequency rng))) \<and>
    bd_num_channels (bands cs' ! 0) + bd_num_channels (bands cs' ! 1) = num_channels cs' \<and>
    (num_bands cs' = 1 \<longleftrightarrow> bd_num_channels (bands cs' ! 1) = 0)"
proof -
  let ?n = "unat (num_frequency rng)"
  have l: "length (chans cs) = 64" "length (bands cs) = 2" using wf by (simp_all add: channels_wf_def)
  from wext_loop_ok [of cs 0 ?n "rg_freq rng" 0 0] l ok(3) obtain b0 b1 c where
    c: "wext_loop (rg_freq rng) ?n 0 (0, 0) cs = Some (min 64 ?n, (b0, b1), c)" "b0 + b1 = int (min 64 ?n)"
      "0 \<le> b0" "0 \<le> b1" "length (chans c) = 64" "bands c = bands cs" by auto
  let ?cs = "c\<lparr>num_channels := int (min 64 ?n), num_bands := (if b1 > 0 then 2 else 1),
         bands := (bands c)[0 := (bands c ! 0)\<lparr>bd_num_channels := b0\<rparr>, 1 := (bands c ! 1)\<lparr>bd_num_channels := b1\<rparr>]\<rparr>"
  have "wext_get_channels W fd devname cs s = Some (int (min 64 ?n), ?cs, s\<lparr>os_world := w\<rparr>)"
    using call ok(1,2) c l by (simp add: wext_get_channels_def os_run_def rd_Some)
  moreover have "channels_wf ?cs" using c(5,6) l by (simp add: channels_wf_def MAX_CHANNELS_def MAX_BANDS_def)
  ultimately show ?thesis using c l by (intro exI [of _ ?cs]) simp
qed

end
