(* ===== verification/Esp_Promisc.thy ===== *)
theory Esp_Promisc
  imports Parser_Facts
begin

text \<open>
  \<open>esp8266/esp_promisc.c\<close>: frames from the promiscuous mode of the ESP8266.  The buffer starts
  with the 12 bytes of \<open>struct RxControl\<close>, whose first byte is the signed RSSI; the length of
  the buffer tells how much of the frame follows.
\<close>

definition sizeof_RxControl :: nat where "sizeof_RxControl = 12"

definition esp_frame_len :: "nat \<Rightarrow> nat option" where
  "esp_frame_len len = (if len = 12 then None else if len = 128 then Some 112 else Some 36)"

definition uwifi_esp_parse :: "bytes \<Rightarrow> nat \<Rightarrow> uwifi_packet \<Rightarrow> (bool \<times> uwifi_packet) option" where
  "uwifi_esp_parse buf len pkt =
    (case esp_frame_len len of
       None \<Rightarrow> Some (False, pkt)
     | Some frame_len \<Rightarrow> do {
         rssi \<leftarrow> rd buf 0;
         (r, pkt) \<leftarrow> uwifi_parse_80211_header (drop sizeof_RxControl buf) frame_len
           (zero_packet\<lparr>phy_signal := sint rssi\<rparr>);
         Some (r \<ge> 0, pkt) })"

text \<open>
  The frames are cut to 112 and 36 bytes, so the parser can run to their end; with the
  readable bytes it needs the result is defined, and it has the signal of the header unless
  the buffer carries no frame.
\<close>

lemma esp_parse_safe:
  assumes "\<And>n. esp_frame_len len = Some n \<Longrightarrow> sizeof_RxControl + n + 32 \<le> length buf" and wf: "packet_wf pkt"
  shows "\<exists>ok pkt'. uwifi_esp_parse buf len pkt = Some (ok, pkt') \<and> packet_wf pkt'"
proof (cases "esp_frame_len len")
  case None
  with wf show ?thesis by (auto simp: uwifi_esp_parse_def)
next
  case (Some n)
  have l: "n + 32 \<le> length (drop sizeof_RxControl buf)" using assms(1) [OF Some] by simp
  have "0 < length buf" using l by (cases buf) simp_all
  then obtain b where b: "rd buf 0 = Some b" by (simp add: rd_Some)
  have "packet_wf (zero_packet\<lparr>phy_signal := sint b\<rparr>)" using zero_packet_wf by (simp add: packet_wf_def)
  from parse_header_result [OF l this] b Some show ?thesis by (auto simp: uwifi_esp_parse_def)
qed

end
