(* ===== verification/Wpa_Ctrl.thy ===== *)
theory Wpa_Ctrl
  imports Netdev
begin

text \<open>
  \<open>linux/wpa_ctrl.c\<close>: the client of the control socket of \<open>wpa_supplicant\<close>.

  The open file descriptors are those of \<open>Netdev\<close>; the structures that \<open>calloc\<close> returns are
  numbered in the order of allocation, and a freed one is \<open>None\<close>.  The calls on a UNIX domain
  socket are the record \<open>unix_calls\<close>, over the same world.  Its \<open>un_recv\<close> yields the next
  datagram or \<open>None\<close> for an error; what does not fit into the buffer is discarded, as
  \<open>recv\<close> does on a datagram socket.  \<open>un_select\<close> yields the result of \<open>select\<close>, whether the
  bit of the descriptor is set, and \<open>errno\<close>.  A descriptor from \<open>FD_SETSIZE\<close> on is outside the
  \<open>fd_set\<close>.
\<close>

subsection \<open>The kernel and the state\<close>

record 'w unix_calls =
  un_calloc :: "'w \<Rightarrow> bool \<times> 'w"
  un_getpid :: int
  un_bind :: "nat \<Rightarrow> string \<Rightarrow> 'w \<Rightarrow> (int \<times> int) \<times> 'w"
  un_unlink :: "string \<Rightarrow> 'w \<Rightarrow> 'w"
  un_connect :: "nat \<Rightarrow> bytes \<Rightarrow> 'w \<Rightarrow> int \<times> 'w"
  un_getfl :: "nat \<Rightarrow> 'w \<Rightarrow> int \<times> 'w"
  un_setfl :: "nat \<Rightarrow> int \<Rightarrow> 'w \<Rightarrow> int \<times> 'w"
  un_send :: "nat \<Rightarrow> string \<Rightarrow> 'w \<Rightarrow> int \<times> 'w"
  un_select :: "nat \<Rightarrow> 'w \<Rightarrow> (int \<times> bool \<times> int) \<times> 'w"
  un_recv :: "nat \<Rightarrow> 'w \<Rightarrow> bytes option \<times> 'w"

record wpa_ctrl =
  ctrl_s :: int
  ctrl_local :: string
  ctrl_dest :: bytes

record 'w wpa_state =
  wpa_os :: "'w os"
  wpa_objs :: "wpa_ctrl option list"

definition with_os :: "('w os \<Rightarrow> 'r \<times> 'w os) \<Rightarrow> 'w wpa_state \<Rightarrow> 'r \<times> 'w wpa_state" where
  "with_os f s = (case f (wpa_os s) of (r, t) \<Rightarrow> (r, s\<lparr>wpa_os := t\<rparr>))"

definition un :: "('w \<Rightarrow> 'r \<times> 'w) \<Rightarrow> 'w wpa_state \<Rightarrow> 'r \<times> 'w wpa_state" where
  "un f s = with_os (os_run f) s"

definition un_close :: "int \<Rightarrow> 'w wpa_state \<Rightarrow> 'w wpa_state" where
  "un_close fd s = s\<lparr>wpa_os := os_close fd (wpa_os s)\<rparr>"

definition un_remove :: "'w unix_calls \<Rightarrow> string \<Rightarrow> 'w wpa_state \<Rightarrow> 'w wpa_state" where
  "un_remove U path s = snd (un (\<lambda>w. ((), un_unlink U path w)) s)"

definition live_ctrl :: "'w wpa_state \<Rightarrow> nat \<Rightarrow> wpa_ctrl option" where
  "live_ctrl s c = (if c < length (wpa_objs s) then wpa_objs s ! c else None)"

definition set_ctrl :: "nat \<Rightarrow> wpa_ctrl \<Rightarrow> 'w wpa_state \<Rightarrow> 'w wpa_state" where
  "set_ctrl c x s = s\<lparr>wpa_objs := (wpa_objs s)[c := Some x]\<rparr>"

definition EINTR :: int where "EINTR = 4"
definition EADDRINUSE :: int where "EADDRINUSE = 98"
definition O_NONBLOCK :: int where "O_NONBLOCK = 0x800"
definition FD_SETSIZE :: nat where "FD_SETSIZE = 1024"
definition sizeof_sun_path :: nat where "sizeof_sun_path = 108"

subsection \<open>Opening and closing\<close>

text \<open>The name the client binds, by \<open>snprintf\<close>, and the name it connects to, by \<open>strncpy\<close>.\<close>

definition local_path :: "'w unix_calls \<Rightarrow> string" where
  "local_path U = ''/tmp/wpa_ctrl_'' @ fmt_d (un_getpid U) @ ''-'' @ fmt_d 0"

text \<open>
  The loop at the label \<open>try_again\<close>: a stale socket file is removed and \<open>bind\<close> called again,
  for as long as the name is in use.  The result is whether the socket is bound.
\<close>

partial_function (option) try_again ::
    "'w unix_calls \<Rightarrow> nat \<Rightarrow> int \<Rightarrow> 'w wpa_state \<Rightarrow> (bool \<times> 'w wpa_state) option" where
  "try_again U c fd s = do {
     x \<leftarrow> live_ctrl s c;
     let path = take (sizeof_sun_path - 1) (local_path U);
     let s = set_ctrl c (x\<lparr>ctrl_local := path\<rparr>) s;
     if length (local_path U) \<ge> sizeof_sun_path then Some (False, un_close fd s)
     else do {
       let ((ret, errno), s) = un (un_bind U (nat fd) path) s;
       if ret < 0 then
         (if errno = EADDRINUSE then try_again U c fd (un_remove U path s)
          else Some (False, un_close fd s))
       else Some (True, s) } }"

definition set_nonblocking :: "'w unix_calls \<Rightarrow> int \<Rightarrow> 'w wpa_state \<Rightarrow> 'w wpa_state" where
  "set_nonblocking U fd s =
    (let (flags, s) = un (un_getfl U (nat fd)) s in
     if flags \<ge> 0 then snd (un (un_setfl U (nat fd) (flags OR O_NONBLOCK)) s) else s)"

definition open_connect ::
    "'w unix_calls \<Rightarrow> string \<Rightarrow> nat \<Rightarrow> int \<Rightarrow> 'w wpa_state \<Rightarrow> (nat option \<times> 'w wpa_state) option" where
  "open_connect U ctrl_path c fd s = do {
     dest \<leftarrow> strncpy sizeof_sun_path (c_string ctrl_path);
     x \<leftarrow> live_ctrl s c;
     let s = set_ctrl c (x\<lparr>ctrl_dest := dest\<rparr>) s;
     let (r, s) = un (un_connect U (nat fd) dest) s;
     if r < 0 then Some (None, un_remove U (ctrl_local x) (un_close fd s))
     else Some (Some c, set_nonblocking U fd s) }"

definition zero_ctrl :: wpa_ctrl where
  "zero_ctrl = \<lparr>ctrl_s = 0, ctrl_local = [], ctrl_dest = replicate sizeof_sun_path 0\<rparr>"

definition wpa_ctrl_open ::
    "'w syscalls \<Rightarrow> 'w unix_calls \<Rightarrow> string option \<Rightarrow> 'w wpa_state \<Rightarrow> (nat option \<times> 'w wpa_state) option" where
  "wpa_ctrl_open K U ctrl_path s =
    (case ctrl_path of
       None \<Rightarrow> Some (None, s)
     | Some path \<Rightarrow>
         (let (ok, s) = un (un_calloc U) s in
          if \<not> ok then Some (None, s)
          else
            (let c = length (wpa_objs s);
                 s = s\<lparr>wpa_objs := wpa_objs s @ [Some zero_ctrl]\<rparr>;
                 (fd, s) = with_os (os_socket K Dgram_Socket) s;
                 s = set_ctrl c (zero_ctrl\<lparr>ctrl_s := fd\<rparr>) s in
             if fd < 0 then Some (None, s)
             else do {
               (bound, s) \<leftarrow> try_again U c fd s;
               if \<not> bound then Some (None, s) else open_connect U path c fd s })))"

definition wpa_ctrl_close :: "'w unix_calls \<Rightarrow> nat option \<Rightarrow> 'w wpa_state \<Rightarrow> 'w wpa_state option" where
  "wpa_ctrl_close U ctrl s =
    (case ctrl of
       None \<Rightarrow> Some s
     | Some c \<Rightarrow> do {
         x \<leftarrow> live_ctrl s c;
         let s = un_remove U (ctrl_local x) s;
         let s = (if ctrl_s x \<ge> 0 then un_close (ctrl_s x) s else s);
         Some (s\<lparr>wpa_objs := (wpa_objs s)[c := None]\<rparr>) })"

subsection \<open>Requests\<close>

text \<open>
  The buffer \<open>reply\<close> is a list of \<open>reply_len\<close> bytes, and a store to it outside the list is
  undefined.  The callback gets the buffer and the length of a message and changes a state of
  the caller.
\<close>

type_synonym 'c msg_cb = "bytes \<Rightarrow> nat \<Rightarrow> 'c \<Rightarrow> 'c"

definition put_byte :: "bytes \<Rightarrow> nat \<Rightarrow> u8 \<Rightarrow> bytes option" where
  "put_byte buf i b = (if i < length buf then Some (buf[i := b]) else None)"

definition unsolicited :: "bytes \<Rightarrow> bool" where
  "unsolicited m \<longleftrightarrow> m \<noteq> [] \<and> hd m = of_char CHR ''<''"

text \<open>
  What one round of the loop does with a received message: \<open>Inl\<close> is a result of the function,
  \<open>Inr\<close> the state for the next round.
\<close>

definition take_message ::
    "'c msg_cb option \<Rightarrow> bytes \<Rightarrow> bytes \<Rightarrow> 'c \<Rightarrow> (int \<times> bytes \<times> 'c + bytes \<times> 'c) option" where
  "take_message msg_cb m reply c =
    (let res = length m; reply' = m @ drop res reply in
     if res > 0 \<and> reply' ! 0 = of_char CHR ''<'' then
       (case msg_cb of
          None \<Rightarrow> Some (Inr (reply', c))
        | Some f \<Rightarrow> do {
            let res = (if res = length reply then length reply - 1 else res);
            reply' \<leftarrow> put_byte reply' res 0;
            Some (Inr (reply', f reply' res c)) })
     else do {
       reply' \<leftarrow> put_byte reply' res 0;
       Some (Inl (int res, reply', c)) })"

partial_function (option) request_loop ::
    "'w unix_calls \<Rightarrow> nat \<Rightarrow> 'c msg_cb option \<Rightarrow> bytes \<Rightarrow> 'c \<Rightarrow> 'w \<Rightarrow> ((int \<times> bytes \<times> 'c) \<times> 'w) option" where
  "request_loop U fd msg_cb reply c w = do {
     guard_ub (fd < FD_SETSIZE);
     let ((res, ready, errno), w) = un_select U fd w;
     if res < 0 \<and> errno = EINTR then request_loop U fd msg_cb reply c w
     else if res < 0 then Some ((res, reply, c), w)
     else if \<not> ready then Some ((-2, reply, c), w)
     else
       (case un_recv U fd w of
          (None, w) \<Rightarrow> Some ((-1, reply, c), w)
        | (Some m, w) \<Rightarrow> do {
            next \<leftarrow> take_message msg_cb (take (length reply) m) reply c;
            case next of
              Inl result \<Rightarrow> Some (result, w)
            | Inr (reply, c) \<Rightarrow> request_loop U fd msg_cb reply c w }) }"

definition wpa_ctrl_request ::
    "'w unix_calls \<Rightarrow> nat option \<Rightarrow> string \<Rightarrow> bytes \<Rightarrow> 'c msg_cb option \<Rightarrow> 'c \<Rightarrow> 'w wpa_state \<Rightarrow>
     ((int \<times> bytes \<times> 'c) \<times> 'w wpa_state) option" where
  "wpa_ctrl_request U ctrl cmd reply msg_cb c s = do {
     i \<leftarrow> ctrl;
     x \<leftarrow> live_ctrl s i;
     let (sent, s) = un (un_send U (nat (ctrl_s x)) cmd) s;
     if sent < 0 then Some ((-1, reply, c), s)
     else do {
       guard_ub (0 \<le> ctrl_s x);
       (r, w) \<leftarrow> request_loop U (nat (ctrl_s x)) msg_cb reply c (os_world (wpa_os s));
       Some (r, s\<lparr>wpa_os := wpa_os s\<lparr>os_world := w\<rparr>\<rparr>) } }"

subsection \<open>The rounds of a request\<close>

text \<open>
  What one call of \<open>select\<close> and \<open>recv\<close> yields, with a message cut to the length of the buffer,
  and the worlds after the first rounds.  A round is quiet when the loop goes on after it.
\<close>

datatype round = Interrupted | Ended int | Received bytes

definition round_of :: "'w unix_calls \<Rightarrow> nat \<Rightarrow> nat \<Rightarrow> 'w \<Rightarrow> round \<times> 'w" where
  "round_of U fd len w =
    (case un_select U fd w of ((res, ready, errno), w) \<Rightarrow>
       if res < 0 \<and> errno = EINTR then (Interrupted, w)
       else if res < 0 then (Ended res, w)
       else if \<not> ready then (Ended (-2), w)
       else (case un_recv U fd w of
           (None, w) \<Rightarrow> (Ended (-1), w)
         | (Some m, w) \<Rightarrow> (Received (take len m), w)))"

fun nth_world :: "'w unix_calls \<Rightarrow> nat \<Rightarrow> nat \<Rightarrow> nat \<Rightarrow> 'w \<Rightarrow> 'w" where
  "nth_world U fd len 0 w = w"
| "nth_world U fd len (Suc n) w = nth_world U fd len n (snd (round_of U fd len w))"

definition nth_round :: "'w unix_calls \<Rightarrow> nat \<Rightarrow> nat \<Rightarrow> nat \<Rightarrow> 'w \<Rightarrow> round" where
  "nth_round U fd len n w = fst (round_of U fd len (nth_world U fd len n w))"

fun quiet :: "round \<Rightarrow> bool" where
  "quiet Interrupted \<longleftrightarrow> True"
| "quiet (Ended v) \<longleftrightarrow> False"
| "quiet (Received m) \<longleftrightarrow> unsolicited m"

text \<open>
  The state of the caller after a quiet round, for a callback that looks at the message only:
  it sees the message without its last byte when that is needed for the terminating zero.
\<close>

fun told :: "nat \<Rightarrow> (bytes \<Rightarrow> 'c \<Rightarrow> 'c) option \<Rightarrow> round \<Rightarrow> 'c \<Rightarrow> 'c" where
  "told len (Some g) (Received m) c = g (take (len - 1) m) c"
| "told len _ _ c = c"

definition reads_message :: "(bytes \<Rightarrow> 'c \<Rightarrow> 'c) \<Rightarrow> 'c msg_cb" where
  "reads_message g = (\<lambda>buf n. g (take n buf))"

lemma nth_round_0 [simp]: "nth_round U fd len 0 w = fst (round_of U fd len w)"
  by (simp add: nth_round_def)

lemma nth_round_Suc [simp]: "nth_round U fd len (Suc n) w = nth_round U fd len n (snd (round_of U fd len w))"
  by (simp add: nth_round_def)

lemma put_byte_eq: "i < length buf \<Longrightarrow> put_byte buf i b = Some (buf[i := b])"
  by (simp add: put_byte_def)

lemma take_message_eq:
  "take_message cb m reply c =
    (if unsolicited m then
       (case cb of
          None \<Rightarrow> Some (Inr (m @ drop (length m) reply, c))
        | Some f \<Rightarrow> do {
            let res = (if length m = length reply then length reply - 1 else length m);
            reply' \<leftarrow> put_byte (m @ drop (length m) reply) res 0;
            Some (Inr (reply', f reply' res c)) })
     else do {
       reply' \<leftarrow> put_byte (m @ drop (length m) reply) (length m) 0;
       Some (Inl (int (length m), reply', c)) })"
proof -
  have "(length m > 0 \<and> (m @ drop (length m) reply) ! 0 = of_char CHR ''<'') = unsolicited m"
    by (cases m) (simp_all add: unsolicited_def)
  then show ?thesis by (simp only: take_message_def Let_def)
qed

lemma take_message_quiet:
  assumes m: "unsolicited m" and len: "length m \<le> length reply"
  shows "\<exists>reply'. take_message (map_option reads_message cb) m reply c =
    Some (Inr (reply', told (length reply) cb (Received m) c)) \<and> length reply' = length reply"
proof (cases cb)
  case None
  with m len show ?thesis by (simp add: take_message_eq)
next
  case (Some g)
  define res where "res = (if length m = length reply then length reply - 1 else length m)"
  define reply' where "reply' = (m @ drop (length m) reply)[res := 0]"
  have "0 < length m" using m by (simp add: unsolicited_def)
  with len have r: "res < length reply"
    by (cases "length m = length reply") (simp_all add: res_def del: length_greater_0_conv)
  then have "put_byte (m @ drop (length m) reply) res 0 = Some reply'" "length reply' = length reply"
    using len by (simp_all add: put_byte_def reply'_def)
  moreover have "take res reply' = take (length reply - 1) m" using len by (auto simp: reply'_def res_def)
  ultimately show ?thesis
    using m Some by (simp add: take_message_eq Let_def reads_message_def flip: res_def)
qed

lemma take_message_reply:
  assumes m: "\<not> unsolicited m" and len: "length m \<le> length reply"
  shows "take_message cb m reply c =
    (if length m < length reply then Some (Inl (int (length m), m @ 0 # drop (Suc (length m)) reply, c)) else None)"
proof -
  have "(m @ drop (length m) reply)[length m := 0] = m @ 0 # drop (Suc (length m)) reply"
    if "length m < length reply"
    using that by (simp add: list_update_append Cons_nth_drop_Suc [symmetric])
  with m len show ?thesis by (simp add: take_message_eq put_byte_def)
qed

text \<open>One round of the loop.\<close>

lemma request_loop_round:
  assumes "fd < FD_SETSIZE"
  shows "request_loop U fd cb reply c w =
    (case round_of U fd (length reply) w of (r, w') \<Rightarrow>
       case r of
         Interrupted \<Rightarrow> request_loop U fd cb reply c w'
       | Ended v \<Rightarrow> Some ((v, reply, c), w')
       | Received m \<Rightarrow> do {
           next \<leftarrow> take_message cb m reply c;
           case next of
             Inl result \<Rightarrow> Some (result, w')
           | Inr (reply, c) \<Rightarrow> request_loop U fd cb reply c w' })"
  using assms by (subst request_loop.simps) (simp add: round_of_def Let_def split: prod.split option.split)

lemma round_message_length: "round_of U fd len w = (Received m, w') \<Longrightarrow> length m \<le> len"
  by (auto simp: round_of_def split: prod.splits if_splits option.splits)

lemma request_loop_quiet:
  assumes "fd < FD_SETSIZE" "\<forall>i<n. quiet (nth_round U fd (length reply) i w)"
  shows "\<exists>reply'. length reply' = length reply \<and>
    request_loop U fd (map_option reads_message cb) reply c w =
    request_loop U fd (map_option reads_message cb) reply'
      (fold (\<lambda>i. told (length reply) cb (nth_round U fd (length reply) i w)) [0..<n] c)
      (nth_world U fd (length reply) n w)"
  using assms(2)
proof (induction n arbitrary: reply c w)
  case 0
  then show ?case by auto
next
  case (Suc n)
  obtain r w' where r: "round_of U fd (length reply) w = (r, w')" by (cases "round_of U fd (length reply) w")
  have q: "quiet r" "\<forall>i<n. quiet (nth_round U fd (length reply) i w')"
    using Suc.prems r by auto
  have "\<exists>reply1. length reply1 = length reply \<and> request_loop U fd (map_option reads_message cb) reply c w =
      request_loop U fd (map_option reads_message cb) reply1 (told (length reply) cb r c) w'"
  proof (cases r)
    case Interrupted
    with r show ?thesis
      using request_loop_round [OF assms(1), of U "map_option reads_message cb" reply c w] by (cases cb) auto
  next
    case (Ended v)
    with q(1) show ?thesis by simp
  next
    case (Received m)
    with q(1) have "unsolicited m" by simp
    from take_message_quiet [OF this round_message_length [OF r [unfolded Received]], of cb c]
    obtain reply1 where "take_message (map_option reads_message cb) m reply c =
        Some (Inr (reply1, told (length reply) cb (Received m) c))" "length reply1 = length reply" by blast
    then show ?thesis using request_loop_round [OF assms(1), of U "map_option reads_message cb" reply c w] r Received by auto
  qed
  then obtain reply1 where 1: "length reply1 = length reply" "request_loop U fd (map_option reads_message cb) reply c w =
      request_loop U fd (map_option reads_message cb) reply1 (told (length reply) cb r c) w'" by blast
  have e: "fold (\<lambda>i. told (length reply) cb (nth_round U fd (length reply) i w)) [0..<Suc n] c =
      fold (\<lambda>i. told (length reply) cb (nth_round U fd (length reply) i w')) [0..<n] (told (length reply) cb r c)"
    using r by (simp add: upt_conv_Cons map_Suc_upt [symmetric] fold_map comp_def del: upt_Suc map_Suc_upt)
  from Suc.IH [of reply1 w' "told (length reply) cb r c"] q(2) 1 e r show ?case by (simp del: upt_Suc)
qed

lemma nth_world_Suc: "nth_world U fd len (Suc n) w = snd (round_of U fd len (nth_world U fd len n w))"
  by (induction n arbitrary: w) simp_all

lemma request_loop_ends:
  assumes fd: "fd < FD_SETSIZE" and q: "\<forall>i<n. quiet (nth_round U fd (length reply) i w)"
    and e: "\<not> quiet (nth_round U fd (length reply) n w)"
  shows "\<exists>reply'. length reply' = length reply \<and>
    request_loop U fd (map_option reads_message cb) reply c w =
      (let c' = fold (\<lambda>i. told (length reply) cb (nth_round U fd (length reply) i w)) [0..<n] c;
           w' = nth_world U fd (length reply) (Suc n) w in
       case nth_round U fd (length reply) n w of
         Received m \<Rightarrow> if length m < length reply
                       then Some ((int (length m), m @ 0 # drop (Suc (length m)) reply', c'), w') else None
       | Ended v \<Rightarrow> Some ((v, reply', c'), w')
       | Interrupted \<Rightarrow> None)"
proof -
  define wn where "wn = nth_world U fd (length reply) n w"
  obtain r w' where r: "round_of U fd (length reply) wn = (r, w')" by (cases "round_of U fd (length reply) wn")
  then have n: "nth_round U fd (length reply) n w = r" "nth_world U fd (length reply) (Suc n) w = w'"
    by (simp_all add: nth_round_def nth_world_Suc wn_def del: nth_world.simps)
  define c' where "c' = fold (\<lambda>i. told (length reply) cb (nth_round U fd (length reply) i w)) [0..<n] c"
  from request_loop_quiet [OF fd q, of cb c, folded wn_def c'_def] obtain reply' where
    l: "length reply' = length reply" "request_loop U fd (map_option reads_message cb) reply c w =
      request_loop U fd (map_option reads_message cb) reply' c' wn" by blast
  have "request_loop U fd (map_option reads_message cb) reply' c' wn =
      (case r of
         Received m \<Rightarrow> if length m < length reply
                       then Some ((int (length m), m @ 0 # drop (Suc (length m)) reply', c'), w') else None
       | Ended v \<Rightarrow> Some ((v, reply', c'), w')
       | Interrupted \<Rightarrow> None)"
  proof (cases r)
    case (Received m)
    with e n have m: "\<not> unsolicited m" by simp
    from round_message_length [OF r [unfolded Received]] l have "length m \<le> length reply'" by simp
    from take_message_reply [OF m this, of "map_option reads_message cb" c'] r l Received show ?thesis
      by (subst request_loop_round [OF fd]) simp
  next
    case (Ended v)
    with r l show ?thesis by (subst request_loop_round [OF fd]) simp
  next
    case Interrupted
    with e n show ?thesis by simp
  qed
  with l show ?thesis unfolding n Let_def c'_def [symmetric] by (intro exI [of _ reply'] conjI) simp_all
qed

lemma take_message_next:
  assumes y: "take_message cb m reply c = Some y" and len: "length m \<le> length reply" and m: "unsolicited m"
  shows "\<exists>reply' c'. y = Inr (reply', c') \<and> length reply' = length reply"
proof (cases cb)
  case None
  with y m len show ?thesis by (auto simp: take_message_eq)
next
  case (Some f)
  with y m obtain i reply' c' where p: "put_byte (m @ drop (length m) reply) i 0 = Some reply'" and "y = Inr (reply', c')"
    by (auto simp: take_message_eq Let_def bind_conv)
  moreover have "length reply' = length reply"
    using p len by (auto simp: put_byte_def split: if_splits)
  ultimately show ?thesis by blast
qed

lemma request_loop_returns:
  assumes run: "request_loop U fd cb reply c w = Some res"
  shows "fd < FD_SETSIZE \<and> (\<exists>n. \<not> quiet (nth_round U fd (length reply) n w))"
proof -
  let ?P = "\<lambda>U' fd' cb' reply c w r. U' = U \<longrightarrow> fd' = fd \<longrightarrow>
    fd < FD_SETSIZE \<and> (\<exists>n. \<not> quiet (nth_round U fd (length reply) n w))"
  have "?P U fd cb reply c w res"
  proof (rule request_loop.raw_induct [where P = ?P, OF _ run])
    fix f U' fd' cb' reply c w r
    assume IH: "\<And>U' fd' cb' reply c w r. f U' fd' cb' reply c w = Some r \<Longrightarrow> ?P U' fd' cb' reply c w r"
      and step: "do {
          guard_ub (fd' < FD_SETSIZE);
          let ((res, ready, errno), w) = un_select U' fd' w;
          if res < 0 \<and> errno = EINTR then f U' fd' cb' reply c w
          else if res < 0 then Some ((res, reply, c), w)
          else if \<not> ready then Some ((-2, reply, c), w)
          else
            (case un_recv U' fd' w of
               (None, w) \<Rightarrow> Some ((-1, reply, c), w)
             | (Some m, w) \<Rightarrow> do {
                 next \<leftarrow> take_message cb' (take (length reply) m) reply c;
                 case next of
                   Inl result \<Rightarrow> Some (result, w)
                 | Inr (reply, c) \<Rightarrow> f U' fd' cb' reply c w }) } = Some r"
    show "?P U' fd' cb' reply c w r"
    proof (intro impI conjI)
      assume a: "U' = U" "fd' = fd"
      from step a show "fd < FD_SETSIZE" by (auto simp: bind_conv)
      obtain x w' where x: "round_of U fd (length reply) w = (x, w')" by (cases "round_of U fd (length reply) w")
      show "\<exists>n. \<not> quiet (nth_round U fd (length reply) n w)"
      proof (cases "quiet x")
        case False
        with x show ?thesis by (intro exI [of _ 0]) simp
      next
        case True
        have "\<exists>reply' c'. length reply' = length reply \<and> f U fd cb' reply' c' w' = Some r"
        proof (cases x)
          case Interrupted
          with step x a show ?thesis
            by (auto simp: round_of_def Let_def bind_conv split: prod.splits if_splits option.splits)
        next
          case (Ended v)
          with True show ?thesis by simp
        next
          case (Received m)
          with step x a obtain y where y: "take_message cb' m reply c = Some y"
            "(case y of Inl result \<Rightarrow> Some (result, w') | Inr (reply, c) \<Rightarrow> f U fd cb' reply c w') = Some r"
            by (auto simp: round_of_def Let_def bind_conv split: prod.splits if_splits option.splits)
          from take_message_next [OF y(1) round_message_length [OF x [unfolded Received]]] True Received
          obtain reply' c' where n: "y = Inr (reply', c')" "length reply' = length reply" by auto
          with y(2) have "f U fd cb' reply' c' w' = Some r" by simp
          with n(2) show ?thesis by (intro exI [of _ reply'] exI [of _ c'] conjI)
        qed
        then obtain reply' c' where "length reply' = length reply" "f U fd cb' reply' c' w' = Some r" by blast
        with IH [OF this(2)] obtain n where "\<not> quiet (nth_round U fd (length reply) n w')" by auto
        with x show ?thesis by (intro exI [of _ "Suc n"]) simp
      qed
    qed
  qed
  then show ?thesis by simp
qed

subsection \<open>Opening\<close>

definition world :: "'w wpa_state \<Rightarrow> 'w" where
  "world s = os_world (wpa_os s)"

definition set_world :: "'w \<Rightarrow> 'w wpa_state \<Rightarrow> 'w wpa_state" where
  "set_world w s = s\<lparr>wpa_os := (wpa_os s)\<lparr>os_world := w\<rparr>\<rparr>"

lemma un_eq: "un f s = (case f (world s) of (r, w) \<Rightarrow> (r, set_world w s))"
  by (simp add: un_def with_os_def os_run_def world_def set_world_def split: prod.split)

lemma un_remove_eq: "un_remove U path s = set_world (un_unlink U path (world s)) s"
  by (simp add: un_remove_def un_eq)

lemma world_simps [simp]:
  "world (set_world w s) = w" "set_world w (set_world v s) = set_world w s"
  "world (set_ctrl c x s) = world s" "live_ctrl (set_world w s) c = live_ctrl s c"
  "wpa_objs (set_world w s) = wpa_objs s" "os_fds (wpa_os (set_world w s)) = os_fds (wpa_os s)"
  "wpa_os (set_ctrl c x s) = wpa_os s" "wpa_objs (set_ctrl c x s) = (wpa_objs s)[c := Some x]"
  "wpa_objs (un_close fd s) = wpa_objs s" "wpa_os (un_close fd s) = os_close fd (wpa_os s)"
  by (simp_all add: world_def set_world_def set_ctrl_def live_ctrl_def un_close_def)

lemma set_ctrl_again [simp]:
  "set_ctrl c y (set_world w (set_ctrl c x s)) = set_world w (set_ctrl c y s)"
  by (simp add: set_ctrl_def set_world_def)

lemma live_set_ctrl [simp]: "live_ctrl (set_ctrl c x s) c = (if c < length (wpa_objs s) then Some x else None)"
  by (simp add: live_ctrl_def set_ctrl_def)

lemma live_ctrl_iff: "live_ctrl s c = Some x \<longleftrightarrow> c < length (wpa_objs s) \<and> wpa_objs s ! c = Some x"
  by (simp add: live_ctrl_def)

text \<open>The name of the socket fits: a process number has at most ten digits and a sign.\<close>

definition pid_ok :: "'w unix_calls \<Rightarrow> bool" where
  "pid_ok U \<longleftrightarrow> - (2 ^ 31) \<le> un_getpid U \<and> un_getpid U < 2 ^ 31"

lemma local_path_fits:
  assumes "pid_ok U"
  shows "length (local_path U) < sizeof_sun_path"
proof -
  have "nat (un_getpid U) < 10 ^ 10" "nat (- un_getpid U) < 10 ^ 10" using assms by (auto simp: pid_ok_def)
  from fmt_nat_length [OF this(1)] fmt_nat_length [OF this(2)] have "length (fmt_d (un_getpid U)) \<le> 11"
    by (simp add: fmt_d_def)
  then show ?thesis by (simp add: local_path_def sizeof_sun_path_def fmt_d_def fmt_nat.simps [of 0])
qed

text \<open>Whether the name is in use in a world, whether it is bound then, and the worlds before the attempts to bind it.\<close>

definition in_use :: "'w unix_calls \<Rightarrow> nat \<Rightarrow> 'w \<Rightarrow> bool" where
  "in_use U fd w = (case fst (un_bind U fd (local_path U) w) of (ret, errno) \<Rightarrow> ret < 0 \<and> errno = EADDRINUSE)"

definition bound :: "'w unix_calls \<Rightarrow> nat \<Rightarrow> 'w \<Rightarrow> bool" where
  "bound U fd w \<longleftrightarrow> fst (fst (un_bind U fd (local_path U) w)) \<ge> 0"

fun bind_world :: "'w unix_calls \<Rightarrow> nat \<Rightarrow> nat \<Rightarrow> 'w \<Rightarrow> 'w" where
  "bind_world U fd 0 w = w"
| "bind_world U fd (Suc n) w =
    bind_world U fd n (un_unlink U (local_path U) (snd (un_bind U fd (local_path U) w)))"

definition with_local :: "'w unix_calls \<Rightarrow> nat \<Rightarrow> wpa_ctrl \<Rightarrow> 'w wpa_state \<Rightarrow> 'w wpa_state" where
  "with_local U c x s = set_ctrl c (x\<lparr>ctrl_local := local_path U\<rparr>) s"

lemma with_local_simps [simp]:
  "world (with_local U c x s) = world s" "wpa_os (with_local U c x s) = wpa_os s"
  "with_local U c (x\<lparr>ctrl_local := p\<rparr>) (set_world w (with_local U c x s)) = set_world w (with_local U c x s)"
  by (simp_all add: with_local_def)

lemma try_again_round:
  assumes pid: "pid_ok U" and x: "live_ctrl s c = Some x"
  shows "try_again U c fd s =
    (case un_bind U (nat fd) (local_path U) (world s) of ((ret, errno), w) \<Rightarrow>
       if in_use U (nat fd) (world s)
       then try_again U c fd (set_world (un_unlink U (local_path U) w) (with_local U c x s))
       else Some (bound U (nat fd) (world s), (if bound U (nat fd) (world s) then id else un_close fd) (set_world w (with_local U c x s))))"
  using local_path_fits [OF pid] x
  by (subst try_again.simps) (auto simp: Let_def un_eq un_remove_eq in_use_def bound_def with_local_def split: prod.split)

lemma try_again_run:
  assumes pid: "pid_ok U" and x: "live_ctrl s c = Some x"
    and used: "\<forall>i<n. in_use U (nat fd) (bind_world U (nat fd) i (world s))"
    and free: "\<not> in_use U (nat fd) (bind_world U (nat fd) n (world s))"
    and ok: "ok = bound U (nat fd) (bind_world U (nat fd) n (world s))"
  shows "\<exists>w. try_again U c fd s = Some (ok, (if ok then id else un_close fd) (set_world w (with_local U c x s)))"
  using x used free ok
proof (induction n arbitrary: s x)
  case 0
  then show ?case by (auto simp: try_again_round [OF pid 0(1)] split: prod.split)
next
  case (Suc n)
  let ?w = "un_unlink U (local_path U) (snd (un_bind U (nat fd) (local_path U) (world s)))"
  let ?s = "set_world ?w (with_local U c x s)"
  let ?x = "x\<lparr>ctrl_local := local_path U\<rparr>"
  have l: "live_ctrl ?s c = Some ?x" using Suc.prems(1) by (auto simp: with_local_def live_ctrl_iff)
  have "in_use U (nat fd) (world s)" using Suc.prems(2) by (metis bind_world.simps(1) zero_less_Suc)
  then have "try_again U c fd s = try_again U c fd ?s"
    by (simp add: try_again_round [OF pid Suc.prems(1)] split: prod.split)
  moreover from Suc.prems(2,3,4) have "\<forall>i<n. in_use U (nat fd) (bind_world U (nat fd) i (world ?s))"
    "\<not> in_use U (nat fd) (bind_world U (nat fd) n (world ?s))"
    "ok = bound U (nat fd) (bind_world U (nat fd) n (world ?s))" by auto
  from Suc.IH [OF l this] obtain w where
    "try_again U c fd ?s = Some (ok, (if ok then id else un_close fd) (set_world w (with_local U c ?x ?s)))" by blast
  ultimately show ?case by (simp del: bind_world.simps) blast
qed

lemma try_again_returns:
  assumes pid: "pid_ok U" and run: "try_again U c fd s = Some r"
  shows "\<exists>n. \<not> in_use U (nat fd) (bind_world U (nat fd) n (world s))"
proof -
  let ?P = "\<lambda>U' c' fd' s r. U' = U \<longrightarrow> fd' = fd \<longrightarrow> (\<exists>n. \<not> in_use U (nat fd) (bind_world U (nat fd) n (world s)))"
  have "?P U c fd s r"
  proof (rule try_again.raw_induct [where P = ?P, OF _ run])
    fix f U' c' fd' s r
    assume IH: "\<And>U' c' fd' s r. f U' c' fd' s = Some r \<Longrightarrow> ?P U' c' fd' s r"
      and step: "do {
         x \<leftarrow> live_ctrl s c';
         let path = take (sizeof_sun_path - 1) (local_path U');
         let s = set_ctrl c' (x\<lparr>ctrl_local := path\<rparr>) s;
         if length (local_path U') \<ge> sizeof_sun_path then Some (False, un_close fd' s)
         else do {
           let ((ret, errno), s) = un (un_bind U' (nat fd') path) s;
           if ret < 0 then
             (if errno = EADDRINUSE then f U' c' fd' (un_remove U' path s)
              else Some (False, un_close fd' s))
           else Some (True, s) } } = Some r"
    show "?P U' c' fd' s r"
    proof (intro impI)
      assume a: "U' = U" "fd' = fd"
      show "\<exists>n. \<not> in_use U (nat fd) (bind_world U (nat fd) n (world s))"
      proof (cases "in_use U (nat fd) (world s)")
        case False
        then show ?thesis by (intro exI [of _ 0]) simp
      next
        case True
        from step a obtain x where x: "live_ctrl s c' = Some x" by (auto simp: bind_conv)
        have "f U c' fd (set_world (un_unlink U (local_path U) (snd (un_bind U (nat fd) (local_path U) (world s))))
            (with_local U c' x s)) = Some r"
          using step a x True local_path_fits [OF pid]
          by (auto simp: Let_def un_eq un_remove_eq in_use_def with_local_def split: prod.splits)
        from IH [OF this] obtain n where "\<not> in_use U (nat fd) (bind_world U (nat fd) n
            (un_unlink U (local_path U) (snd (un_bind U (nat fd) (local_path U) (world s)))))" by auto
        then show ?thesis by (intro exI [of _ "Suc n"]) simp
      qed
    qed
  qed
  then show ?thesis by simp
qed

lemma first_free:
  assumes "\<not> in_use U fd (bind_world U fd n w)"
  obtains m where "\<forall>i<m. in_use U fd (bind_world U fd i w)" "\<not> in_use U fd (bind_world U fd m w)"
  using exists_least_iff [of "\<lambda>n. \<not> in_use U fd (bind_world U fd n w)"] assms by blast

lemma try_again_cases:
  assumes pid: "pid_ok U" and x: "live_ctrl s c = Some x" and run: "try_again U c fd s = Some r"
  obtains w ok where "r = (ok, (if ok then id else un_close fd) (set_world w (with_local U c x s)))"
proof -
  from try_again_returns [OF pid run] obtain n where "\<not> in_use U (nat fd) (bind_world U (nat fd) n (world s))" by blast
  then obtain m where "\<forall>i<m. in_use U (nat fd) (bind_world U (nat fd) i (world s))"
    "\<not> in_use U (nat fd) (bind_world U (nat fd) m (world s))" by (rule first_free)
  from try_again_run [OF pid x this refl] run that show thesis by auto
qed

lemma strncpy_returns: "\<exists>d. strncpy n (c_string p) = Some d"
proof (induction p arbitrary: n)
  case Nil
  then show ?case by (cases n) (simp_all add: c_string_def)
next
  case (Cons a p)
  then show ?case by (cases n) (auto simp: c_string_def)
qed

lemma strncpy_c_string:
  assumes "\<forall>a \<in> set p. (of_char a :: u8) \<noteq> 0"
  shows "strncpy n (c_string p) = Some (take n (map of_char p @ replicate n 0))"
  using assms
proof (induction p arbitrary: n)
  case Nil
  then show ?case by (cases n) (simp_all add: c_string_def)
next
  case (Cons a p)
  show ?case
  proof (cases n)
    case (Suc k)
    from Cons have "strncpy k (c_string p) = Some (take k (map of_char p @ replicate k 0))" by simp
    moreover have "take k (map of_char p @ replicate k 0) = take k (map of_char p @ replicate (Suc k) (0 :: u8))"
      by (simp add: min_def flip: replicate_Suc)
    ultimately show ?thesis using Suc Cons.prems by (simp add: c_string_def)
  qed (simp add: c_string_def)
qed

text \<open>The structure and the descriptor of a call of \<open>wpa_ctrl_open\<close> that gets both.\<close>

lemma open_connect_cases:
  assumes x: "live_ctrl s c = Some x"
  obtains (refused) w d where "open_connect U path c fd s = Some (None, set_world w (un_close fd (set_ctrl c (x\<lparr>ctrl_dest := d\<rparr>) s)))"
  | (connected) w d where "strncpy sizeof_sun_path (c_string path) = Some d"
      "open_connect U path c fd s = Some (Some c, set_world w (set_ctrl c (x\<lparr>ctrl_dest := d\<rparr>) s))"
proof -
  from strncpy_returns obtain d where Some: "strncpy sizeof_sun_path (c_string path) = Some d" by blast
  obtain r w where r: "un_connect U (nat fd) d (world s) = (r, w)" by (cases "un_connect U (nat fd) d (world s)")
  have nb: "\<exists>w'. set_nonblocking U fd t = set_world w' t" for t
    by (auto simp: set_nonblocking_def un_eq Let_def split: prod.split)
  show thesis
  proof (cases "r < 0")
    case True
    have "\<exists>w'. un_remove U p (un_close fd (set_world w t)) = set_world w' (un_close fd t)" for p t
      by (auto simp: un_remove_eq set_world_def un_close_def os_close_def)
    then obtain w' where "un_remove U (ctrl_local x) (un_close fd (set_world w (set_ctrl c (x\<lparr>ctrl_dest := d\<rparr>) s))) =
        set_world w' (un_close fd (set_ctrl c (x\<lparr>ctrl_dest := d\<rparr>) s))" by blast
    with x Some r True show thesis by (intro refused [of w' d]) (simp add: open_connect_def un_eq)
  next
    case False
    from nb [of "set_world w (set_ctrl c (x\<lparr>ctrl_dest := d\<rparr>) s)"] obtain w' where
      "set_nonblocking U fd (set_world w (set_ctrl c (x\<lparr>ctrl_dest := d\<rparr>) s)) = set_world w' (set_ctrl c (x\<lparr>ctrl_dest := d\<rparr>) s)"
      by auto
    with x Some r False show thesis by (intro connected [of d w']) (simp_all add: open_connect_def un_eq)
  qed
qed

text \<open>
  The state in which \<open>wpa_ctrl_open\<close> enters the loop: the new structure and the new descriptor.
\<close>

definition opened :: "int \<Rightarrow> 'w os \<Rightarrow> 'w wpa_state \<Rightarrow> 'w wpa_state" where
  "opened fd t s = s\<lparr>wpa_os := t, wpa_objs := wpa_objs s @ [Some (zero_ctrl\<lparr>ctrl_s := fd\<rparr>)]\<rparr>"

lemma open_eq:
  "wpa_ctrl_open K U (Some path) s =
    (case un_calloc U (world s) of (ok, w) \<Rightarrow>
       if \<not> ok then Some (None, set_world w s)
       else (case os_socket K Dgram_Socket (wpa_os (set_world w s)) of (fd, t) \<Rightarrow>
         if fd < 0 then Some (None, opened fd t s)
         else do {
           (bound, s') \<leftarrow> try_again U (length (wpa_objs s)) fd (opened fd t s);
           if \<not> bound then Some (None, s') else open_connect U path (length (wpa_objs s)) fd s' }))"
  by (simp add: wpa_ctrl_open_def un_eq with_os_def Let_def opened_def set_ctrl_def set_world_def
      split: prod.split)

lemma opened_simps [simp]:
  "live_ctrl (opened fd t s) (length (wpa_objs s)) = Some (zero_ctrl\<lparr>ctrl_s := fd\<rparr>)"
  "wpa_os (opened fd t s) = t" "wpa_objs (opened fd t s) = wpa_objs s @ [Some (zero_ctrl\<lparr>ctrl_s := fd\<rparr>)]"
  by (simp_all add: opened_def live_ctrl_def)

lemma open_after_socket:
  assumes pid: "pid_ok U" and t: "os_fds t = os_fds (wpa_os s) @ [fd]" "fd = lowest_free (os_fds (wpa_os s))"
    and run: "do {
      (bound, s') \<leftarrow> try_again U (length (wpa_objs s)) (int fd) (opened (int fd) t s);
      if \<not> bound then Some (None, s') else open_connect U path (length (wpa_objs s)) (int fd) s' } = Some (r, s')"
  shows "(r = None \<and> os_fds (wpa_os s') = os_fds (wpa_os s) \<and> (\<exists>x. wpa_objs s' = wpa_objs s @ [Some x])) \<or>
    (r = Some (length (wpa_objs s)) \<and> os_fds (wpa_os s') = os_fds (wpa_os s) @ [fd] \<and>
     (\<exists>x. wpa_objs s' = wpa_objs s @ [Some x] \<and> ctrl_s x = int fd \<and> ctrl_local x = local_path U \<and>
          strncpy sizeof_sun_path (c_string path) = Some (ctrl_dest x)))"
proof -
  let ?c = "length (wpa_objs s)"
  let ?x = "zero_ctrl\<lparr>ctrl_s := int fd\<rparr>"
  from run obtain y where y: "try_again U ?c (int fd) (opened (int fd) t s) = Some y" by (auto simp: bind_conv)
  from try_again_cases [OF pid opened_simps(1) y] obtain w ok where
    w: "y = (ok, (if ok then id else un_close (int fd)) (set_world w (with_local U ?c ?x (opened (int fd) t s))))" .
  let ?s1 = "set_world w (with_local U ?c ?x (opened (int fd) t s))"
  have o: "wpa_objs (with_local U ?c ?x (opened (int fd) t s)) = wpa_objs s @ [Some (?x\<lparr>ctrl_local := local_path U\<rparr>)]" by (simp add: with_local_def)
  have c: "os_fds (os_close (int fd) (wpa_os (set_world v u))) = os_fds (wpa_os s)" if "wpa_os u = t" for u :: "'a wpa_state" and v
    using close_new [of "wpa_os (set_world v u)" "os_fds (wpa_os s)" fd] t that by simp
  show ?thesis
  proof (cases ok)
    case False
    with run y w c [of "with_local U ?c ?x (opened (int fd) t s)"] o show ?thesis by auto
  next
    case True
    then have r: "open_connect U path ?c (int fd) ?s1 = Some (r, s')" using run y w by simp
    have l: "live_ctrl ?s1 ?c = Some (?x\<lparr>ctrl_local := local_path U\<rparr>)" by (simp add: live_ctrl_iff o)
    show ?thesis
    proof (cases rule: open_connect_cases [OF l, of U path "int fd"])
      case (1 v d)
      with r have "r = None" "s' = set_world v (un_close (int fd) (set_ctrl ?c (?x\<lparr>ctrl_local := local_path U, ctrl_dest := d\<rparr>) ?s1))"
        by simp_all
      with o c [of "with_local U ?c ?x (opened (int fd) t s)" w] show ?thesis by simp
    next
      case (2 v d)
      with r o t show ?thesis by simp
    qed
  qed
qed

text \<open>C12: \<open>wpa_ctrl_open\<close> keeps the descriptors.  A result other than NULL
  is a new live structure with a new descriptor and the (cut) name of the server, and
  \<open>wpa_ctrl_close\<close> on it restores the descriptors and frees it.  A NULL leaves the descriptors
  as they were; but whenever \<open>calloc\<close> had succeeded, the structure is not freed: every failure
  after it leaks one.\<close>

theorem wpa_open_spec:
  assumes pid: "pid_ok U" and run: "wpa_ctrl_open K U (Some path) s = Some (r, s')"
  shows "case r of
      None \<Rightarrow> os_fds (wpa_os s') = os_fds (wpa_os s) \<and>
        (if fst (un_calloc U (world s)) then \<exists>x. wpa_objs s' = wpa_objs s @ [Some x] else wpa_objs s' = wpa_objs s)
    | Some c \<Rightarrow> \<exists>fd s2. c = length (wpa_objs s) \<and> fd \<notin> set (os_fds (wpa_os s)) \<and>
        os_fds (wpa_os s') = os_fds (wpa_os s) @ [fd] \<and>
        (\<exists>x. live_ctrl s' c = Some x \<and> ctrl_s x = int fd \<and> strncpy sizeof_sun_path (c_string path) = Some (ctrl_dest x)) \<and>
        wpa_ctrl_close U r s' = Some s2 \<and> os_fds (wpa_os s2) = os_fds (wpa_os s) \<and>
        wpa_objs s2 = wpa_objs s @ [None]"
proof -
  obtain ok w where a: "un_calloc U (world s) = (ok, w)" by (cases "un_calloc U (world s)")
  show ?thesis
  proof (cases ok)
    case False
    with a run show ?thesis by (auto simp: open_eq)
  next
    case True
    show ?thesis
    proof (cases K Dgram_Socket "wpa_os (set_world w s)" rule: os_socket_cases)
      case (none t)
      with a True run show ?thesis by (auto simp: open_eq)
    next
      case (some fd t)
      from a True run some(1) have "do {
          (bound, s') \<leftarrow> try_again U (length (wpa_objs s)) (int fd) (opened (int fd) t s);
          if \<not> bound then Some (None, s') else open_connect U path (length (wpa_objs s)) (int fd) s' } = Some (r, s')"
        by (simp add: open_eq)
      from open_after_socket [OF pid _ _ this] some(2,3) have c: "(r = None \<and> os_fds (wpa_os s') = os_fds (wpa_os s) \<and> (\<exists>x. wpa_objs s' = wpa_objs s @ [Some x])) \<or>
        (r = Some (length (wpa_objs s)) \<and> os_fds (wpa_os s') = os_fds (wpa_os s) @ [fd] \<and>
         (\<exists>x. wpa_objs s' = wpa_objs s @ [Some x] \<and> ctrl_s x = int fd \<and> ctrl_local x = local_path U \<and>
              strncpy sizeof_sun_path (c_string path) = Some (ctrl_dest x)))" by simp
      then show ?thesis
      proof (elim disjE conjE exE)
        fix x assume "r = None" "os_fds (wpa_os s') = os_fds (wpa_os s)" "wpa_objs s' = wpa_objs s @ [Some x]"
        with a True show ?thesis by auto
      next
        fix x assume x: "r = Some (length (wpa_objs s))" "os_fds (wpa_os s') = os_fds (wpa_os s) @ [fd]"
          "wpa_objs s' = wpa_objs s @ [Some x]" "ctrl_s x = int fd"
          "strncpy sizeof_sun_path (c_string path) = Some (ctrl_dest x)"
        let ?w = "un_unlink U (ctrl_local x) (world s')"
        let ?s2 = "(un_close (int fd) (set_world ?w s'))\<lparr>wpa_objs := wpa_objs s @ [None]\<rparr>"
        have "wpa_ctrl_close U r s' = Some ?s2"
          using x by (simp add: wpa_ctrl_close_def live_ctrl_def un_remove_eq Let_def)
        moreover have "os_fds (wpa_os ?s2) = os_fds (wpa_os s)"
          using close_new [of "wpa_os (set_world ?w s')" "os_fds (wpa_os s)" fd] x some by simp
        ultimately show ?thesis using x lowest_free_new [of "os_fds (wpa_os s)"] some
          by (simp add: live_ctrl_def)
      qed
    qed
  qed
qed

text \<open>
  Opening goes on for ever while the name stays in use, for instance when the stale file cannot
  be removed.
\<close>

lemma wpa_open_returns_iff:
  assumes pid: "pid_ok U" and a: "un_calloc U (world s) = (True, w)"
    and k: "os_socket K Dgram_Socket (wpa_os (set_world w s)) = (int fd, t)"
  shows "(\<exists>r. wpa_ctrl_open K U (Some path) s = Some r) \<longleftrightarrow> (\<exists>n. \<not> in_use U fd (bind_world U fd n (os_world t)))"
proof -
  let ?s = "opened (int fd) t s"
  have w: "world ?s = os_world t" by (simp add: world_def)
  have e: "wpa_ctrl_open K U (Some path) s = do {
      (bound, s') \<leftarrow> try_again U (length (wpa_objs s)) (int fd) ?s;
      if \<not> bound then Some (None, s') else open_connect U path (length (wpa_objs s)) (int fd) s' }"
    using a k by (simp add: open_eq)
  have "\<exists>r. wpa_ctrl_open K U (Some path) s = Some r" if "\<not> in_use U fd (bind_world U fd n (os_world t))" for n
  proof -
    from that obtain m where m: "\<forall>i<m. in_use U fd (bind_world U fd i (os_world t))"
      "\<not> in_use U fd (bind_world U fd m (os_world t))" by (rule first_free)
    from try_again_run [OF pid opened_simps(1), of m "int fd" "int fd" t s, OF _ _ refl] m w obtain ok v where
      r: "try_again U (length (wpa_objs s)) (int fd) ?s =
        Some (ok, (if ok then id else un_close (int fd)) (set_world v (with_local U (length (wpa_objs s)) (zero_ctrl\<lparr>ctrl_s := int fd\<rparr>) ?s)))"
      by auto
    let ?s1 = "set_world v (with_local U (length (wpa_objs s)) (zero_ctrl\<lparr>ctrl_s := int fd\<rparr>) ?s)"
    have "live_ctrl ?s1 (length (wpa_objs s)) = Some (zero_ctrl\<lparr>ctrl_s := int fd, ctrl_local := local_path U\<rparr>)"
      by (simp add: with_local_def)
    then have "\<exists>r. open_connect U path (length (wpa_objs s)) (int fd) ?s1 = Some r"
      by (rule open_connect_cases [where U = U and path = path and fd = "int fd"]) blast+
    with e r show ?thesis by (cases ok) simp_all
  qed
  moreover have "\<exists>n. \<not> in_use U fd (bind_world U fd n (os_world t))" if "wpa_ctrl_open K U (Some path) s = Some r" for r
  proof -
    from that e obtain y where "try_again U (length (wpa_objs s)) (int fd) ?s = Some y" by (auto simp: bind_conv)
    from try_again_returns [OF pid this] w show ?thesis by simp
  qed
  ultimately show ?thesis by blast
qed

subsection \<open>Requests\<close>

lemma request_eq:
  assumes "live_ctrl s i = Some x" "ctrl_s x = int fd" "un_send U fd cmd (world s) = (sent, w)" "0 \<le> sent"
  shows "wpa_ctrl_request U (Some i) cmd reply cb c s =
    map_option (\<lambda>(r, w). (r, set_world w s)) (request_loop U fd cb reply c w)"
  using assms
  by (cases "request_loop U fd cb reply c w") (auto simp: wpa_ctrl_request_def un_eq world_def set_world_def)

text \<open>C11: What \<open>wpa_ctrl_request\<close> returns when it has sent the command.
  Interrupted calls of \<open>select\<close> are repeated; messages that begin with \<open><\<close> go to the callback, in
  order, each cut to what fits with a terminating zero; the first other event decides: a time-out
  is \<open>-2\<close>, an error its own value, and a reply shorter than the buffer is delivered with a zero
  behind it and its length as the result.  A reply that fills the buffer is undefined: the zero is
  stored one byte behind it.\<close>

theorem wpa_request_spec:
  assumes ctrl: "live_ctrl s i = Some x" "ctrl_s x = int fd" "fd < FD_SETSIZE"
    and sent: "un_send U fd cmd (world s) = (sent, w)" "0 \<le> sent"
    and q: "\<forall>k<n. quiet (nth_round U fd (length reply) k w)"
    and e: "\<not> quiet (nth_round U fd (length reply) n w)"
  shows "\<exists>reply'. length reply' = length reply \<and>
    wpa_ctrl_request U (Some i) cmd reply (map_option reads_message cb) c s =
      (let c' = fold (\<lambda>k. told (length reply) cb (nth_round U fd (length reply) k w)) [0..<n] c;
           s' = set_world (nth_world U fd (length reply) (Suc n) w) s in
       case nth_round U fd (length reply) n w of
         Received m \<Rightarrow> if length m < length reply
                       then Some ((int (length m), m @ 0 # drop (Suc (length m)) reply', c'), s') else None
       | Ended v \<Rightarrow> Some ((v, reply', c'), s')
       | Interrupted \<Rightarrow> None)"
proof -
  from request_loop_ends [OF ctrl(3) q e, of cb c] obtain reply' where
    r: "length reply' = length reply" "request_loop U fd (map_option reads_message cb) reply c w =
      (let c' = fold (\<lambda>i. told (length reply) cb (nth_round U fd (length reply) i w)) [0..<n] c;
           w' = nth_world U fd (length reply) (Suc n) w in
       case nth_round U fd (length reply) n w of
         Received m \<Rightarrow> if length m < length reply
                       then Some ((int (length m), m @ 0 # drop (Suc (length m)) reply', c'), w') else None
       | Ended v \<Rightarrow> Some ((v, reply', c'), w')
       | Interrupted \<Rightarrow> None)" by blast
  show ?thesis
    by (intro exI [of _ reply'] conjI r(1))
      (simp add: request_eq [OF ctrl(1,2) sent] r(2) Let_def split: round.split del: nth_world.simps)
qed

text \<open>The rounds of which the last one ends a request: no message, or a reply that fits.\<close>

definition answered :: "'w unix_calls \<Rightarrow> nat \<Rightarrow> nat \<Rightarrow> 'w \<Rightarrow> nat \<Rightarrow> bool" where
  "answered U fd len w n \<longleftrightarrow> (\<forall>k<n. quiet (nth_round U fd len k w)) \<and>
     (case nth_round U fd len n w of
        Interrupted \<Rightarrow> False
      | Ended v \<Rightarrow> True
      | Received m \<Rightarrow> \<not> unsolicited m \<and> length m < len)"

text \<open>C29: \<open>wpa_ctrl_request\<close> returns exactly when, after finitely many
  interruptions and unsolicited messages, \<open>select\<close> fails or times out, \<open>recv\<close> fails, or a reply
  arrives that is shorter than the buffer.  The time-out of ten seconds starts again with every
  message, so a server that keeps sending unsolicited ones keeps the caller waiting.\<close>

theorem wpa_request_returns_iff:
  assumes ctrl: "live_ctrl s i = Some x" "ctrl_s x = int fd" "fd < FD_SETSIZE"
    and sent: "un_send U fd cmd (world s) = (sent, w)" "0 \<le> sent"
  shows "(\<exists>r. wpa_ctrl_request U (Some i) cmd reply (map_option reads_message cb) c s = Some r) \<longleftrightarrow>
    (\<exists>n. answered U fd (length reply) w n)"
proof -
  let ?R = "request_loop U fd (map_option reads_message cb) reply c w"
  have "(\<exists>r. ?R = Some r) \<longleftrightarrow> (\<exists>n. answered U fd (length reply) w n)"
  proof
    assume "\<exists>r. ?R = Some r"
    then obtain r where r: "?R = Some r" by blast
    from request_loop_returns [OF r] obtain m where "\<not> quiet (nth_round U fd (length reply) m w)" by blast
    then obtain n where n: "\<forall>k<n. quiet (nth_round U fd (length reply) k w)"
      "\<not> quiet (nth_round U fd (length reply) n w)"
      using exists_least_iff [of "\<lambda>n. \<not> quiet (nth_round U fd (length reply) n w)"] by blast
    from request_loop_ends [OF ctrl(3) n, of cb c] r n show "\<exists>n. answered U fd (length reply) w n"
      by (intro exI [of _ n]) (auto simp: answered_def split: round.splits if_splits)
  next
    assume "\<exists>n. answered U fd (length reply) w n"
    then obtain n where n: "answered U fd (length reply) w n" by blast
    then have q: "\<forall>k<n. quiet (nth_round U fd (length reply) k w)" "\<not> quiet (nth_round U fd (length reply) n w)"
      by (auto simp: answered_def split: round.splits)
    from request_loop_ends [OF ctrl(3) q, of cb c] n show "\<exists>r. ?R = Some r"
      by (auto simp: answered_def Let_def split: round.splits if_splits)
  qed
  then show ?thesis by (simp add: request_eq [OF ctrl(1,2) sent])
qed

subsection \<open>An example\<close>

text \<open>
  A server that has a stale socket file (the first component) and a queue of datagrams; \<open>select\<close>
  is interrupted once before the first of them (the second component).
\<close>

type_synonym server = "bool \<times> bool \<times> bytes list"

definition server_calls :: "server unix_calls" where
  "server_calls = \<lparr>un_calloc = Pair True, un_getpid = 42,
     un_bind = (\<lambda>fd path (stale, w). (if stale then (-1, EADDRINUSE) else (0, 0), (stale, w))),
     un_unlink = (\<lambda>path (stale, w). (False, w)),
     un_connect = (\<lambda>fd dest. Pair 0), un_getfl = (\<lambda>fd. Pair 2), un_setfl = (\<lambda>fd flags. Pair 0),
     un_send = (\<lambda>fd cmd. Pair (int (length cmd))),
     un_select = (\<lambda>fd (stale, intr, ms).
       (if intr then (-1, False, EINTR) else if ms = [] then (0, False, 0) else (1, True, 0), (stale, False, ms))),
     un_recv = (\<lambda>fd (stale, intr, ms). (case ms of [] \<Rightarrow> None | m # _ \<Rightarrow> Some m, (stale, intr, tl ms)))\<rparr>"

definition server_sockets :: "server syscalls" where
  "server_sockets = \<lparr>sys_socket = (\<lambda>kind. Pair True), sys_ioctl = (\<lambda>fd req ifr w. (-1, ifr, w)),
     sys_ifindex = (\<lambda>name. Pair 0), sys_bind = (\<lambda>fd i. Pair (-1)),
     sys_recv = (\<lambda>fd n. Pair (-1, [])), sys_monotonic = Pair (0, 0)\<rparr>"

text \<open>A connected client, and the queue: a message of the server and the reply \<open>OK\<close>.\<close>

definition client :: "server \<Rightarrow> server wpa_state" where
  "client w = \<lparr>wpa_os = \<lparr>os_fds = [0, 1, 2, 3], os_world = w\<rparr>,
     wpa_objs = [Some \<lparr>ctrl_s = 3, ctrl_local = ''/tmp/x'', ctrl_dest = []\<rparr>]\<rparr>"

definition queue :: "bytes list" where
  "queue = [[0x3C, 0x33, 0x3E], [0x4F, 0x4B]]"

lemma server_rounds [simp]:
  "round_of server_calls 3 4 (False, True, queue) = (Interrupted, (False, False, queue))"
  "round_of server_calls 3 4 (False, False, queue) = (Received [0x3C, 0x33, 0x3E], (False, False, [[0x4F, 0x4B]]))"
  "round_of server_calls 3 4 (False, False, [[0x4F, 0x4B]]) = (Received [0x4F, 0x4B], (False, False, []))"
  by (simp_all add: round_of_def server_calls_def queue_def EINTR_def)

lemma client_request:
  "live_ctrl (client w) 0 = Some \<lparr>ctrl_s = 3, ctrl_local = ''/tmp/x'', ctrl_dest = []\<rparr>"
  "un_send server_calls 3 ''PING'' (world (client w)) = (4, w)"
  by (simp_all add: live_ctrl_def client_def server_calls_def world_def)

lemma server_messages [simp]: "unsolicited [0x3C, 0x33, 0x3E]" "\<not> unsolicited [0x4F, 0x4B]"
  by (simp_all add: unsolicited_def)

lemma server_answers: "answered server_calls 3 4 (False, True, queue) 2"
  by (simp add: answered_def less_Suc_eq numeral_2_eq_2 all_conj_distrib imp_conjL)

lemma wpa_request_spec_witness:
  "\<exists>reply' r. length reply' = 4 \<and>
    wpa_ctrl_request server_calls (Some 0) ''PING'' [0, 0, 0, 0] (map_option reads_message (Some (\<lambda>m ms. ms @ [m]))) []
      (client (False, True, queue)) = Some ((2, [0x4F, 0x4B, 0] @ drop 3 reply', [[0x3C, 0x33, 0x3E]]), r)"
proof -
  define reply :: bytes where "reply = [0, 0, 0, 0]"
  have l: "length reply = 4" by (simp add: reply_def)
  have n: "nth_round server_calls 3 4 2 (False, True, queue) = Received [0x4F, 0x4B]" by (simp add: numeral_2_eq_2)
  have q: "\<forall>k<2. quiet (nth_round server_calls 3 (length reply) k (False, True, queue))"
    "\<not> quiet (nth_round server_calls 3 (length reply) 2 (False, True, queue))"
    using server_answers by (simp_all add: l n answered_def)
  have f: "fold (\<lambda>k. told 4 (Some (\<lambda>m ms. ms @ [m])) (nth_round server_calls 3 4 k (False, True, queue))) [0..<2] [] =
      [[0x3C, 0x33, 0x3E]]"
    by (simp add: numeral_2_eq_2)
  have "3 < FD_SETSIZE" by (simp add: FD_SETSIZE_def)
  from wpa_request_spec [OF client_request(1) _ this client_request(2) _ q, of "Some (\<lambda>m ms. ms @ [m])" "[]"]
  show ?thesis unfolding l f n Let_def reply_def [symmetric] by (auto simp: numeral_3_eq_3)
qed

lemma wpa_request_returns_iff_witness:
  "\<exists>r. wpa_ctrl_request server_calls (Some 0) ''PING'' [0, 0, 0, 0] (map_option reads_message None) ()
      (client (False, True, queue)) = Some r"
proof -
  define reply :: bytes where "reply = [0, 0, 0, 0]"
  have l: "length reply = 4" by (simp add: reply_def)
  have "3 < FD_SETSIZE" by (simp add: FD_SETSIZE_def)
  from wpa_request_returns_iff [OF client_request(1) _ this client_request(2), where reply = reply and cb = None and c = "()"]
    server_answers show ?thesis unfolding l reply_def [symmetric] by auto
qed

text \<open>The overrun: a reply of two bytes into a buffer of two bytes.\<close>

lemma reply_overrun:
  "wpa_ctrl_request server_calls (Some 0) ''PING'' [0, 0] None () (client (False, False, [[0x4F, 0x4B]])) = None"
proof -
  have "round_of server_calls 3 (length [0, 0 :: u8]) (False, False, [[0x4F, 0x4B]]) = (Received [0x4F, 0x4B], (False, False, []))"
    by (simp add: round_of_def server_calls_def)
  then show ?thesis
    by (simp add: request_eq [OF client_request(1) _ client_request(2)] request_loop_round FD_SETSIZE_def
        take_message_eq unsolicited_def put_byte_def)
qed

lemma wpa_open_spec_witness:
  "\<exists>s' s2. wpa_ctrl_open server_sockets server_calls (Some ''/run/wlan0'') (client (True, False, [])) = Some (Some 1, s') \<and>
    wpa_ctrl_close server_calls (Some 1) s' = Some s2 \<and> os_fds (wpa_os s2) = [0, 1, 2, 3]"
proof -
  have pid: "pid_ok server_calls" by (simp add: pid_ok_def server_calls_def)
  let ?s = "client (True, False, [])"
  obtain d where d: "strncpy sizeof_sun_path (c_string ''/run/wlan0'') = Some d" using strncpy_returns by blast
  have k: "os_socket server_sockets Dgram_Socket (wpa_os (set_world (True, False, []) ?s)) =
      (4, \<lparr>os_fds = [0, 1, 2, 3, 4], os_world = (True, False, [])\<rparr>)"
    by (simp add: os_socket_def server_sockets_def client_def set_world_def lowest_free_def upt_rec)
  let ?o = "opened 4 \<lparr>os_fds = [0, 1, 2, 3, 4], os_world = (True, False, [])\<rparr> ?s"
  have l: "live_ctrl ?o 1 = Some (zero_ctrl\<lparr>ctrl_s := 4\<rparr>)" by (simp add: opened_def live_ctrl_def client_def)
  have "\<forall>i<Suc 0. in_use server_calls (nat 4) (bind_world server_calls (nat 4) i (world ?o))"
    "\<not> in_use server_calls (nat 4) (bind_world server_calls (nat 4) (Suc 0) (world ?o))"
    "True = bound server_calls (nat 4) (bind_world server_calls (nat 4) (Suc 0) (world ?o))"
    by (simp_all add: in_use_def bound_def server_calls_def world_def)
  from try_again_run [OF pid l this] obtain w where
    t: "try_again server_calls 1 4 ?o = Some (True, set_world w (with_local server_calls 1 (zero_ctrl\<lparr>ctrl_s := 4\<rparr>) ?o))"
    by auto
  let ?t = "set_world w (with_local server_calls 1 (zero_ctrl\<lparr>ctrl_s := 4\<rparr>) ?o)"
  have "live_ctrl ?t 1 = Some (zero_ctrl\<lparr>ctrl_s := 4, ctrl_local := local_path server_calls\<rparr>)"
    by (simp add: with_local_def opened_def client_def)
  then have "\<exists>s'. open_connect server_calls ''/run/wlan0'' 1 4 ?t = Some (Some 1, s')"
    using d by (simp add: open_connect_def un_eq server_calls_def)
  moreover have "un_calloc server_calls (world ?s) = (True, (True, False, []))" "length (wpa_objs ?s) = 1"
    by (simp_all add: server_calls_def client_def world_def)
  ultimately obtain s' where s': "wpa_ctrl_open server_sockets server_calls (Some ''/run/wlan0'') ?s = Some (Some 1, s')"
    using k t by (auto simp: open_eq)
  from wpa_open_spec [OF pid this] s' show ?thesis by (auto simp: client_def)
qed

end
