(* ===== verification/Spec2Isabelle.thy ===== *)
theory Spec2Isabelle
  imports List_Families List_Offsets Average Channel_Scan Inject Session Ifctrl_Wext Esp_Promisc Wpa_Ctrl
begin

text \<open>
  A verification development for \<^emph>\<open>libuwifi\<close>, a userspace WLAN library in C: it parses 802.11
  frames from a monitor interface, keeps a table of the stations (nodes) and network names
  (ESSIDs) it has seen, manages and scans channels, controls wireless interfaces, and builds
  frames for injection.

  \<^bold>\<open>How the parts work together.\<close>  \<open>uwifi_init\<close> (\<open>Interface\<close>) opens the packet socket
  and sets the device up (\<open>Netdev\<close>), asks the driver for the interface and its channels
  (\<open>Ifctrl_Nl80211\<close>, \<open>Ifctrl_Wext\<close> or the dummy driver) and initialises the channel table
  (\<open>Channel\<close>).  Every received packet goes through \<open>uwifi_parse_raw\<close> (\<open>Raw_Parser\<close>), which
  parses the header of the capture device and then the 802.11 header (\<open>Wlan_Parser\<close>) into a
  \<open>struct uwifi_packet\<close>; \<open>uwifi_fixup_packet_channel\<close> completes its channel from the channel
  table.  The packet then updates the node table (\<open>Node\<close>) and the ESSID table (\<open>Essid\<close>),
  whose entries are linked through the intrusive lists of \<open>Cc_List\<close> and hold a moving average
  (\<open>Average\<close>).  \<open>uwifi_channel_auto_change\<close> moves on through the channels, and
  \<open>Inject\<close> builds frames that the parser can read again.

  \<^bold>\<open>Conventions.\<close>  \<open>None\<close> is what C leaves undefined (a read or write outside a buffer or an
  array, a NULL pointer, freed memory, a double free) and a loop that does not end; so a
  theorem that an operation is \<open>Some\<close> says that it is memory safe and returns.  A C \<open>int\<close> is
  an \<open>int\<close>, an unsigned type a word of its width.  Loops over pointers, and the loops that
  may run for ever, are \<open>partial_function (option)\<close>; no fuel is used anywhere.  Code
  that is not in the repository is an argument: the radiotap library (\<open>radiotap_lib\<close>), libnl
  (\<open>libnl\<close>), what the code takes from \<open>linux/nl80211.h\<close> (\<open>nl80211_abi\<close>), the kernel
  (\<open>syscalls\<close>, \<open>sockopts\<close>, \<open>unix_calls\<close>, \<open>wext_calls\<close>), libpcap (\<open>pcap_lib\<close>), the driver and the clock (\<open>platform\<close>), and the
  choice of the allocator.  Such functions may depend on and change a world \<open>'w\<close>.

  \<^bold>\<open>Theories and sources.\<close>

  \<^item> \<open>Prelude\<close>: machine types, buffer reads, little-endian fields (locale \<open>le_field\<close>), linear
    lookup (locale \<open>keyed_table\<close>), C strings.
  \<^item> \<open>Cc_List\<close>, \<open>List_Families\<close>: \<open>include/uwifi/cc_list.h\<close>, \<open>core/cc_list.c\<close>.  A store maps
    addresses to pairs of links.  \<open>is_list\<close> is the abstraction to HOL lists; each operation is
    shown to refine its list operation, and \<open>list_check\<close> to accept exactly the consistent rings.
    The families state which lists share a store without sharing nodes.
  \<^item> \<open>List_Offsets\<close>: \<open>include/uwifi/cc_container_of.h\<close> and the loops of the list header over pointers
    to the containing structures; they are shown to be the loops of \<open>Cc_List\<close>.
  \<^item> \<open>Util\<close>, \<open>Average\<close>: \<open>util/util.c\<close>, \<open>util/average.c\<close>.
  \<^item> \<open>Wlan80211\<close>, \<open>Wlan_Util\<close>: \<open>wlan80211.h\<close>, \<open>wlan_parser.h\<close>, \<open>core/wlan_util.c\<close>; tables of names
    and rates, channel numbers and frequencies.
  \<^item> \<open>Channel\<close>, \<open>Channel_Facts\<close>, \<open>Channel_Scan\<close>: \<open>core/channel.c\<close>, \<open>channel.h\<close>, \<open>conf.h\<close>.  \<open>channels_wf\<close>
    is the shape of the table, \<open>scan_inv\<close> the invariant of a scanning interface; \<open>scan_due\<close>
    and \<open>slow_clock\<close> say when a call has to change the channel and when every call does.  \<open>Scan_Safety\<close> asks for less:
    with \<open>index_ok\<close> only, it says when scanning stays inside the table, and when it does not.
  \<^item> \<open>Wlan_Parser\<close>, \<open>Parser_Facts\<close>: \<open>core/wlan_parser.c\<close>.  \<open>packet_wf\<close> gives the sizes of the arrays
    in a packet.  Safety needs 32 readable bytes behind the packet, since the parser reads
    ahead of its checks; without them whole classes of packets lead behind the buffer (\<open>beacon_overread\<close>, \<open>ssid_overread\<close>).
  \<^item> \<open>Inject\<close>: \<open>core/inject.c\<close>, \<open>linux/inject_rtap.c\<close>, with round trips through the parser.
  \<^item> \<open>Raw_Parser\<close>: \<open>linux/raw_parser.c\<close>, \<open>prism_header.h\<close>.  \<open>radiotap_ok\<close> is the contract of the
    radiotap iterator; \<open>radiotap_overread\<close> is what happens when it runs behind the buffer.
  \<^item> \<open>Node_Heap\<close>, \<open>Essid\<close>, \<open>Node\<close>: \<open>core/node.c\<close>, \<open>core/essid.c\<close> on a heap of nodes, ESSIDs and the
    links of seven kinds of list cells.
  \<^item> \<open>Node_Inv\<close>, \<open>Essid_Facts\<close>, \<open>Node_Facts\<close>, \<open>Network\<close>: the abstract tables (record \<open>tables\<close>),
    the relation \<open>heap_rep\<close> between heap and tables, one lemma per operation that the heap
    operation implements the change of the tables, and the step system \<open>reachable\<close> over the
    public functions with its invariant \<open>tables_inv\<close>.  A counter of nodes has 32 bits, so
    the calls assume fewer than \<open>2^32 - 1\<close> nodes (\<open>few_nodes\<close>).
  \<^item> \<open>Netdev\<close>: \<open>linux/netdev.c\<close>, \<open>linux/packet_sock.c\<close>, \<open>linux/platform.c\<close>; the model keeps the open file
    descriptors.
  \<^item> \<open>Interface\<close>: \<open>linux/interface.c\<close>, \<open>core/ifctrl-dummy.c\<close>; \<open>table_driver\<close> says that a driver fills
    in the channel table and leaves socket and device type alone.  The locale \<open>channel_driver\<close> is this
    contract as an interface; it is interpreted for the dummy driver and, in \<open>Nl80211_Driver\<close>, for nl80211,
    where it holds for every answer of the kernel.
  \<^item> \<open>Netlink\<close>, \<open>Netlink_Facts\<close>: \<open>linux/netl80211.c\<close>; the model keeps sockets, messages and callback
    sets.  \<open>kernel_ok\<close> says that every request is answered and that error numbers are
    not negative.
  \<^item> \<open>Ifctrl_Nl80211\<close>, \<open>Nl80211_Facts\<close>: \<open>linux/ifctrl-nl80211.c\<close>.
  \<^item> \<open>Dump_Facts\<close>: the station list and the survey; locale \<open>dump_array\<close> states what a callback promises
    that turns each message of an answer into an array entry.  \<open>answer_to\<close> gives the messages of an answer and
    whether it reports success; \<open>unrefused\<close> is the condition under which every request is sent.
  \<^item> \<open>Freqlist_Facts\<close>: the channel list; \<open>band_ok\<close> is the form of a band in the answer of the kernel,
    \<open>refreshed\<close> says how an answer changes the entries of the table.  \<open>nl80211_platform\<close> makes the
    interface control the driver of the channel component.
  \<^item> \<open>Ifctrl_Wext\<close>: \<open>linux/ifctrl-wext.c\<close>.  \<open>Esp_Promisc\<close>: \<open>esp8266/esp_promisc.c\<close>.
  \<^item> \<open>Wpa_Ctrl\<close>: \<open>linux/wpa_ctrl.c\<close>; the model keeps descriptors, structures and the reply buffer.
    The calls of \<open>select\<close> and \<open>recv\<close> in a request are numbered (\<open>nth_round\<close>); a request is
    described by its first round that is not \<open>quiet\<close>.
  \<^item> \<open>Pcap_Capture\<close>: \<open>osx/capture-pcap.c\<close>, \<open>esp32/platform.c\<close>.
  \<^item> \<open>Receive\<close>: no code of its own; the path of a frame from the capture through the parsers to
    the tables.
  \<^item> \<open>Session\<close>: no code of its own; \<open>uwifi_init\<close>, any sequence of receiving, expiring, scanning and
    tuning, and \<open>uwifi_fini\<close>, as a state machine (\<open>session_run\<close>) with the invariant \<open>session_inv\<close>.  \<open>call_ok\<close>
    is what the application has to see to before a call, \<open>recv_ok\<close> what \<open>recv\<close> does, and \<open>buffer_ok\<close> the
    size of the receive buffer: 32 spare bytes, and with radiotap headers at least \<open>2^16\<close> bytes, so that it holds whatever
    length such a header states, since the code does not compare this length with the received bytes.

  \<^bold>\<open>What the theorems show.\<close>  Safety of a whole monitoring session; type safety of the node and ESSID tables under every
  sequence of calls; memory safety of the parsers on arbitrary bytes in a
  buffer that is long enough behind them; invariants of the
  channel table and of scanning, and progress of a scan; refinement of the list operations; what each operation on
  nodes, ESSIDs and channels does, on all branches; round trips between building and
  parsing, printing and reading, setting and getting; exactly when loops return; that
  sockets, messages and nodes are released; and the exact effect of several defects that
  modelling has shown (uses after free, double frees, leaks, reads outside buffers).

  \<^bold>\<open>Not modelled.\<close>  The macOS interface control is Objective-C.  Log output is left out.  The
  macros of the list header that name undeclared functions (\<open>for_each_rev\<close>, \<open>next\<close>, \<open>prev\<close>,
  adding and deleting by offset) and \<open>ifctrl_iwget_interface_info\<close> of the wireless extensions,
  which assigns a field that does not exist, do not compile and have no behaviour to model.
\<close>

end
